(* ===== verification/Prelude.thy ===== *)
theory Prelude
  imports Main "HOL-Library.Sublist" "HOL-Library.State_Monad" "HOL-Library.AList" "HOL-Library.Multiset"
    "HOL-Library.Char_ord" "HOL-Library.List_Lexorder"
begin

text \<open>
  What every component shares: the part of Go's \<open>strings\<close> and \<open>strconv\<close> packages the
  program uses, on byte strings (a Go string is a sequence of bytes, so a \<open>char\<close> is a byte
  here and \<open>length\<close> is Go's \<open>len\<close>); Go maps as association lists whose order is the order
  a \<open>range\<close> visits them; results of fallible functions; panics as values.
\<close>

named_theorems go_string \<open>characteristic facts of the string functions\<close>
named_theorems call_rules \<open>which external calls an effectful program makes\<close>

section \<open>Results and panics\<close>

text \<open>A Go function that returns \<open>(T, error)\<close>: the error's text, or the value.\<close>

type_synonym 'a res = "string + 'a"

text \<open>A runtime panic ends the goroutine: it is a value of its own, not an error.\<close>

datatype panic = NilDereference | IndexOutOfRange

type_synonym 'a go = "panic + 'a"

text \<open>Sequencing inside a state monad whose programs may panic, or return an error.\<close>

definition bind_sum :: "('s, 'e + 'a) state \<Rightarrow> ('a \<Rightarrow> ('s, 'e + 'b) state) \<Rightarrow> ('s, 'e + 'b) state" where
  "bind_sum m f = State_Monad.bind m (\<lambda>r. case r of Inl e \<Rightarrow> State_Monad.return (Inl e) | Inr a \<Rightarrow> f a)"

lemma run_bind_sum [simp]:
  "run_state (bind_sum m f) s =
     (case run_state m s of (Inl e, s') \<Rightarrow> (Inl e, s') | (Inr a, s') \<Rightarrow> run_state (f a) s')"
  by (auto simp: bind_sum_def split: prod.splits sum.splits)

text \<open>The pattern \<open>x, err := f(); if err != nil { return err }\<close> on pure results.\<close>

definition bind_res :: "'e + 'a \<Rightarrow> ('a \<Rightarrow> 'e + 'b) \<Rightarrow> 'e + 'b" where
  "bind_res r f = (case r of Inl e \<Rightarrow> Inl e | Inr a \<Rightarrow> f a)"

lemma bind_res_simps [simp]: "bind_res (Inl e) f = Inl e" "bind_res (Inr a) f = f a"
  by (simp_all add: bind_res_def)

lemma bind_res_Inr: "bind_res r f = Inr b \<longleftrightarrow> (\<exists>a. r = Inr a \<and> f a = Inr b)"
  by (cases r) auto

section \<open>Strings\<close>

definition HasPrefix :: "string \<Rightarrow> string \<Rightarrow> bool" where
  "HasPrefix s p = (take (length p) s = p)"

definition TrimPrefix :: "string \<Rightarrow> string \<Rightarrow> string" where
  "TrimPrefix s p = (if HasPrefix s p then drop (length p) s else s)"

lemma HasPrefix_iff [go_string]: "HasPrefix s p \<longleftrightarrow> prefix p s"
  unfolding HasPrefix_def by (metis append_eq_conv_conj prefix_def)

lemma HasPrefix_append [simp]: "HasPrefix (p @ s) p"
  by (simp add: HasPrefix_def)

lemma HasPrefix_Nil [simp]: "HasPrefix s []"
  by (simp add: HasPrefix_def)

lemma TrimPrefix_append [simp]: "TrimPrefix (p @ s) p = s"
  by (simp add: TrimPrefix_def)

text \<open>\<open>strings.Cut\<close> at a one-byte separator: before, after, found.\<close>

fun Cut :: "string \<Rightarrow> char \<Rightarrow> string \<times> string \<times> bool" where
  "Cut [] sep = ([], [], False)"
| "Cut (c # s) sep =
     (if c = sep then ([], s, True)
      else (case Cut s sep of (b, a, f) \<Rightarrow> (c # b, if f then a else [], f)))"

lemma Cut_none: "sep \<notin> set s \<Longrightarrow> Cut s sep = (s, [], False)"
  by (induction s) auto

lemma Cut_append [simp]: "sep \<notin> set b \<Longrightarrow> Cut (b @ sep # a) sep = (b, a, True)"
  by (induction b) auto

text \<open>\<open>strings.Split\<close> at a one-byte separator (never empty).\<close>

fun Split :: "string \<Rightarrow> char \<Rightarrow> string list" where
  "Split [] sep = [[]]"
| "Split (c # s) sep =
     (if c = sep then [] # Split s sep
      else (case Split s sep of [] \<Rightarrow> [[c]] | x # xs \<Rightarrow> (c # x) # xs))"

lemma Split_nonempty [simp]: "Split s sep \<noteq> []"
  by (cases s) (auto split: list.splits)

lemma hd_Split: "hd (Split s sep) = takeWhile (\<lambda>c. c \<noteq> sep) s"
  by (induction s) (auto split: list.splits)

text \<open>\<open>strings.Replace(s, old, new, n)\<close> and \<open>strings.ReplaceAll\<close> for a non-empty \<open>old\<close>.\<close>

function ReplaceAll :: "string \<Rightarrow> string \<Rightarrow> string \<Rightarrow> string" where
  "ReplaceAll s old new =
     (if s = [] \<or> old = [] then s
      else if HasPrefix s old then new @ ReplaceAll (drop (length old) s) old new
      else hd s # ReplaceAll (tl s) old new)"
  by pat_completeness auto
termination
  by (relation "measure (\<lambda>(s, old, new). length s)") (simp_all add: diff_less)

declare ReplaceAll.simps [simp del]

fun ReplaceFirst :: "string \<Rightarrow> string \<Rightarrow> string \<Rightarrow> string" where
  "ReplaceFirst [] old new = []"
| "ReplaceFirst (c # s) old new =
     (if HasPrefix (c # s) old then new @ drop (length old) (c # s)
      else c # ReplaceFirst s old new)"

definition TrimRightChar :: "string \<Rightarrow> char \<Rightarrow> string" where
  "TrimRightChar s c = rev (dropWhile (\<lambda>x. x = c) (rev s))"

lemma TrimRightChar_id: "s = [] \<or> last s \<noteq> c \<Longrightarrow> TrimRightChar s c = s"
  by (cases s rule: rev_cases) (auto simp: TrimRightChar_def)

lemma TrimRightChar_last: "TrimRightChar s c \<noteq> [] \<Longrightarrow> last (TrimRightChar s c) \<noteq> c"
  using hd_dropWhile[of "\<lambda>x. x = c" "rev s"] by (auto simp: TrimRightChar_def last_rev)

lemma TrimRightChar_idem [simp]: "TrimRightChar (TrimRightChar s c) c = TrimRightChar s c"
  using TrimRightChar_last TrimRightChar_id by blast

text \<open>\<open>strings.ToLower\<close> and \<open>strings.ToUpper\<close> on the ASCII range.\<close>

definition lower_char :: "char \<Rightarrow> char" where
  "lower_char c = (let n = of_char c :: nat in if 65 \<le> n \<and> n \<le> 90 then char_of (n + 32) else c)"

definition upper_char :: "char \<Rightarrow> char" where
  "upper_char c = (let n = of_char c :: nat in if 97 \<le> n \<and> n \<le> 122 then char_of (n - 32) else c)"

definition ToLower :: "string \<Rightarrow> string" where
  "ToLower s = map lower_char s"

definition ToUpper :: "string \<Rightarrow> string" where
  "ToUpper s = map upper_char s"

lemma length_case [simp]: "length (ToLower s) = length s" "length (ToUpper s) = length s"
  by (simp_all add: ToLower_def ToUpper_def)

lemma ToLower_append [simp]: "ToLower (s @ t) = ToLower s @ ToLower t"
  by (simp add: ToLower_def)

subsection \<open>TrimSpace\<close>

text \<open>
  The UTF-8 encodings of the runes for which \<open>unicode.IsSpace\<close> holds. Go decodes a rune at
  each end of the string and drops it while it is a space. A string starts (ends) with the
  encoding of a space rune exactly when the decoder finds that rune at its start (end), so
  trimming runes is trimming these byte sequences.
\<close>

definition space_runes :: "string list" where
  "space_runes =
     [[CHR 0x09], [CHR 0x0A], [CHR 0x0B], [CHR 0x0C], [CHR 0x0D], [CHR 0x20],
      [CHR 0xC2, CHR 0x85], [CHR 0xC2, CHR 0xA0], [CHR 0xE1, CHR 0x9A, CHR 0x80]]
     @ map (\<lambda>b. [CHR 0xE2, CHR 0x80, b])
         [CHR 0x80, CHR 0x81, CHR 0x82, CHR 0x83, CHR 0x84, CHR 0x85, CHR 0x86, CHR 0x87,
          CHR 0x88, CHR 0x89, CHR 0x8A, CHR 0xA8, CHR 0xA9, CHR 0xAF]
     @ [[CHR 0xE2, CHR 0x81, CHR 0x9F], [CHR 0xE3, CHR 0x80, CHR 0x80]]"

function trim_left :: "string list \<Rightarrow> string \<Rightarrow> string" where
  "trim_left ps s =
     (case find (\<lambda>p. p \<noteq> [] \<and> HasPrefix s p) ps of
        None \<Rightarrow> s
      | Some p \<Rightarrow> trim_left ps (drop (length p) s))"
  by pat_completeness auto
termination
  by (relation "measure (\<lambda>(ps, s). length s)")
    (auto simp: find_Some_iff HasPrefix_def intro!: diff_less)

declare trim_left.simps [simp del]

definition TrimSpace :: "string \<Rightarrow> string" where
  "TrimSpace s = rev (trim_left (map rev space_runes) (rev (trim_left space_runes s)))"

text \<open>Nothing to trim: no pattern starts the string.\<close>

definition no_trim :: "string list \<Rightarrow> string \<Rightarrow> bool" where
  "no_trim ps s \<longleftrightarrow> (\<forall>p\<in>set ps. p \<noteq> [] \<longrightarrow> \<not> prefix p s)"

lemma trim_left_no_trim: "no_trim ps (trim_left ps s)"
proof (induction ps s rule: trim_left.induct)
  case (1 ps s)
  show ?case
  proof (cases "find (\<lambda>p. p \<noteq> [] \<and> HasPrefix s p) ps")
    case None
    then show ?thesis
      by (simp add: trim_left.simps[of ps s])
        (auto simp: no_trim_def find_None_iff HasPrefix_iff)
  next
    case (Some p)
    then show ?thesis using 1 by (simp add: trim_left.simps[of ps s])
  qed
qed

lemma trim_left_id: "no_trim ps s \<Longrightarrow> trim_left ps s = s"
proof -
  assume "no_trim ps s"
  then have "find (\<lambda>p. p \<noteq> [] \<and> HasPrefix s p) ps = None"
    by (auto simp: no_trim_def HasPrefix_iff find_None_iff)
  then show "trim_left ps s = s" by (simp add: trim_left.simps)
qed

lemma trim_left_suffix: "suffix (trim_left ps s) s"
proof (induction ps s rule: trim_left.induct)
  case (1 ps s)
  show ?case
    by (cases "find (\<lambda>p. p \<noteq> [] \<and> HasPrefix s p) ps")
      (use 1 in \<open>auto simp: trim_left.simps[of ps s] intro: suffix_order.order_trans suffix_drop\<close>)
qed

lemma no_trim_prefix: "no_trim ps t \<Longrightarrow> prefix s t \<Longrightarrow> no_trim ps s"
  unfolding no_trim_def using prefix_order.order_trans by blast

text \<open>
  A string with nothing to trim on its left keeps its first byte when its right side is
  trimmed: the right side's last removed pattern would otherwise start the string.
\<close>

lemma trim_left_rev_prefix: "prefix (rev (trim_left ps (rev s))) s"
  using trim_left_suffix[of ps "rev s"] by (simp add: suffix_to_prefix)

lemma trim_left_rev_nonempty:
  assumes "no_trim ps s" "s \<noteq> []"
  shows "trim_left (map rev ps) (rev s) \<noteq> []"
  using assms
proof (induction "length s" arbitrary: s rule: less_induct)
  case less
  show ?case
  proof (cases "find (\<lambda>p. p \<noteq> [] \<and> HasPrefix (rev s) p) (map rev ps)")
    case None
    then show ?thesis using less.prems by (simp add: trim_left.simps)
  next
    case (Some q)
    then obtain p where p: "p \<in> set ps" "q = rev p" "p \<noteq> []" "prefix (rev p) (rev s)"
      by (auto simp: find_Some_iff HasPrefix_iff) (metis nth_mem rev.simps(1))
    then obtain u where u: "s = u @ p"
      by (metis prefix_def rev_append rev_rev_ident)
    have "u \<noteq> []"
      using less.prems(1) p u by (auto simp: no_trim_def)
    moreover have "no_trim ps u"
      using less.prems(1) u by (auto intro: no_trim_prefix)
    moreover have "length u < length s"
      using u p by simp
    ultimately have "trim_left (map rev ps) (rev u) \<noteq> []"
      using less.hyps by blast
    then show ?thesis
      using Some p(2) u trim_left.simps[of "map rev ps" "rev s"] by simp
  qed
qed

lemma TrimSpace_no_trim:
  "no_trim space_runes (TrimSpace s)" "no_trim (map rev space_runes) (rev (TrimSpace s))"
  unfolding TrimSpace_def
  using trim_left_no_trim no_trim_prefix trim_left_rev_prefix by (metis, simp add: trim_left_no_trim)

lemma TrimSpace_id:
  "no_trim space_runes s \<Longrightarrow> no_trim (map rev space_runes) (rev s) \<Longrightarrow> TrimSpace s = s"
  by (simp add: TrimSpace_def trim_left_id)

lemma TrimSpace_idem [simp]: "TrimSpace (TrimSpace s) = TrimSpace s"
  by (rule TrimSpace_id) (rule TrimSpace_no_trim)+

lemma TrimSpace_length: "length (TrimSpace s) \<le> length s"
  unfolding TrimSpace_def length_rev
  by (metis trim_left_suffix suffix_length_le length_rev le_trans)

lemma TrimSpace_set: "set (TrimSpace s) \<subseteq> set s"
  unfolding TrimSpace_def set_rev
  using trim_left_suffix set_mono_suffix set_rev by (metis subset_trans)

lemma TrimSpace_nonempty: "no_trim space_runes s \<Longrightarrow> s \<noteq> [] \<Longrightarrow> TrimSpace s \<noteq> []"
  by (simp add: TrimSpace_def trim_left_id trim_left_rev_nonempty)

subsection \<open>strconv.Itoa\<close>

definition digit_char :: "nat \<Rightarrow> char" where
  "digit_char d = char_of (48 + d)"

fun nat_digits :: "nat \<Rightarrow> string" where
  "nat_digits n = (if n < 10 then [digit_char n] else nat_digits (n div 10) @ [digit_char (n mod 10)])"

declare nat_digits.simps [simp del]

definition Itoa :: "int \<Rightarrow> string" where
  "Itoa i = (if i < 0 then CHR ''-'' # nat_digits (nat (- i)) else nat_digits (nat i))"

definition is_digit :: "char \<Rightarrow> bool" where
  "is_digit c \<longleftrightarrow> (48::nat) \<le> of_char c \<and> of_char c \<le> (57::nat)"

definition digits_value :: "string \<Rightarrow> nat" where
  "digits_value = foldl (\<lambda>a c. 10 * a + (of_char c - 48)) 0"

lemma of_digit_char [simp]: "d < 10 \<Longrightarrow> of_char (digit_char d) = (48 + d :: nat)"
  by (simp add: digit_char_def)

lemma nat_digits_value [simp]: "digits_value (nat_digits n) = n"
proof (induction n rule: nat_digits.induct)
  case (1 n)
  then show ?case
    by (subst nat_digits.simps) (auto simp: digits_value_def)
qed

lemma nat_digits_digits: "c \<in> set (nat_digits n) \<Longrightarrow> is_digit c"
proof (induction n rule: nat_digits.induct)
  case (1 n)
  then show ?case
    by (subst (asm) nat_digits.simps) (auto simp: is_digit_def split: if_splits)
qed

lemma nat_digits_nonempty [simp]: "nat_digits n \<noteq> []"
  by (subst nat_digits.simps) simp

lemma nat_digits_inj: "nat_digits m = nat_digits n \<Longrightarrow> m = n"
  by (metis nat_digits_value)

lemma Itoa_nat_inj: "Itoa (int m) = Itoa (int n) \<Longrightarrow> m = n"
  by (auto simp: Itoa_def dest: nat_digits_inj)

lemma Itoa_nat_no_dash: "CHR ''-'' \<notin> set (Itoa (int n))"
  using nat_digits_digits[of "CHR ''-''" n] by (auto simp: Itoa_def is_digit_def)

section \<open>Small helpers of the source\<close>

text \<open>\<open>firstNonEmpty\<close> is declared, with the same body, in three of the packages.\<close>

fun firstNonEmpty :: "string list \<Rightarrow> string" where
  "firstNonEmpty [] = []"
| "firstNonEmpty (v # vs) = (if v \<noteq> [] then v else firstNonEmpty vs)"

lemma firstNonEmpty_nonempty: "(\<exists>v\<in>set vs. v \<noteq> []) \<longleftrightarrow> firstNonEmpty vs \<noteq> []"
  by (induction vs) auto

lemma firstNonEmpty_in: "firstNonEmpty vs \<noteq> [] \<Longrightarrow> firstNonEmpty vs \<in> set vs"
  by (induction vs) auto

definition shortID :: "string \<Rightarrow> string" where
  "shortID i = (if length i \<le> 12 then i else take 12 i)"

lemma shortID_length: "length (shortID i) = min 12 (length i)"
  by (simp add: shortID_def)

lemma shortID_take: "shortID i = take 12 i"
  by (simp add: shortID_def)

section \<open>Go maps\<close>

text \<open>
  A Go map is an association list with distinct keys. The order of the list is the order in
  which a \<open>range\<close> loop visits the map, which Go leaves open: a statement proved for every
  list holds for every order. Reading a missing key gives the zero value.
\<close>

type_synonym ('k, 'v) gomap = "('k \<times> 'v) list"

type_synonym labels = "(string, string) gomap"

text \<open>
  Where the code tells a nil map or slice from an empty one, it is an option, \<open>None\<close> for nil.
  Reading, ranging over or taking the length of a nil one is as for an empty one.
\<close>

definition of_nil :: "'a list option \<Rightarrow> 'a list" where
  "of_nil m = (case m of None \<Rightarrow> [] | Some xs \<Rightarrow> xs)"

lemma of_nil_simps [simp]: "of_nil None = []" "of_nil (Some xs) = xs"
  by (simp_all add: of_nil_def)

definition map_get :: "(string, string) gomap \<Rightarrow> string \<Rightarrow> string" where
  "map_get m k = (case map_of m k of None \<Rightarrow> [] | Some v \<Rightarrow> v)"

lemma map_of_perm_eq:
  assumes "mset m = mset m'" "distinct (map fst m)"
  shows "map_of m = map_of m'"
proof -
  have "distinct (map fst m')"
    using assms by (metis mset_map mset_eq_imp_distinct_iff)
  then show ?thesis
    using assms by (metis map_of_inject_set mset_eq_setD)
qed

lemma map_get_perm:
  "mset m = mset m' \<Longrightarrow> distinct (map fst m) \<Longrightarrow> map_get m k = map_get m' k"
  using map_of_perm_eq unfolding map_get_def by metis

end
