(* ===== verification/World.thy ===== *)
theory World
  imports Prelude "HOL-Library.Word"
begin

text \<open>
  The world outside the program: the Docker Engine API, the Mutagen daemon and its Go
  packages, HTTP backends, the file system, the clock and the random source. None of it is
  code of the repository, so it is a parameter of the model: a record \<open>world\<close> with one
  function per external operation. What an operation answers may depend on everything that
  was called before: every function of \<open>world\<close> takes the list of calls made so far, newest
  first. A program is a state monad over a record whose field \<open>hist\<close> is that list, so the
  order and the number of external calls are part of what a program does, and theorems can
  speak about them. The theory also has the rules that say which calls a program makes.
\<close>

section \<open>Data of the external interfaces\<close>

text \<open>Docker: the fields of the API structs the program reads. Pointers that may be nil are options.\<close>

record endpoint_settings =
  ep_NetworkID :: string
  ep_IPAddress :: string

record network_settings =
  ns_IPAddress :: string
  ns_Networks :: "(string, endpoint_settings option) gomap"

record container_config =
  cc_Labels :: "labels option"
  cc_Image :: string
  cc_User :: string

record container_json =
  insp_ID :: string
  insp_Name :: string
  insp_State :: "bool option" \<comment> \<open>\<open>State\<close>, nil or its field \<open>Running\<close>\<close>
  insp_Config :: "container_config option"
  insp_NetworkSettings :: "network_settings option"

record container_item =
  item_ID :: string
  item_Status :: string

record exec_config =
  exec_Cmd :: "string list"
  exec_User :: string
  exec_AttachStdin :: bool
  exec_AttachStdout :: bool
  exec_AttachStderr :: bool

text \<open>JSON values, as \<open>encoding/json\<close> hands them to the program. A number keeps its text.\<close>

datatype json =
  JNull | JBool bool | JNum string | JStr string | JArr "json list" | JObj "(string \<times> json) list"

text \<open>HTTP: headers are maps from canonical names to lists of values.\<close>

type_synonym header = "(string, string list) gomap"

record http_request =
  req_Method :: string
  req_URL :: string
  req_Header :: header
  req_Body :: string

record http_response =
  resp_StatusCode :: nat
  resp_Status :: string
  resp_Header :: header
  resp_Body :: string

record go_url =
  url_Scheme :: string
  url_Host :: string
  url_Path :: string
  url_RawQuery :: string

text \<open>
  Mutagen. A parsed URL is only passed on, so it is the address of the value that
  \<open>mutagenurl.Parse\<close> returned; a gRPC connection likewise. The status enumeration is
  Mutagen's; the program names two of its members and prints the others.
\<close>

type_synonym pointer = nat

datatype sync_status = Status_Watching | Status_Disconnected | Status_Other string

record mutagen_session =
  ms_Identifier :: string
  ms_Name :: string
  ms_Paused :: bool

record mutagen_state =
  mst_Session :: "mutagen_session option"
  mst_Status :: sync_status
  mst_LastError :: string

datatype ignore_vcs_mode = IgnoreVCSModePropagate | IgnoreVCSModeIgnore

record configuration =
  conf_SynchronizationMode :: int
  conf_Ignores :: "string list"
  conf_IgnoreVCSMode :: ignore_vcs_mode
  conf_DefaultFileMode :: "32 word"
  conf_DefaultDirectoryMode :: "32 word"

record creation_spec =
  spec_Alpha :: pointer
  spec_Beta :: pointer
  spec_Configuration :: configuration
  spec_Name :: string
  spec_Labels :: labels

record version =
  ver_Major :: nat
  ver_Minor :: nat
  ver_Patch :: nat
  ver_Tag :: string

text \<open>The statements the token store sends to its database, and what the client learns of one.\<close>

datatype db_stmt =
    DbCreateTable
  | DbUpsert string string int
  | DbSelect string
  | DbDelete string

text \<open>
  A statement is done at a database time, or done but its answer is lost (the client sees an
  error), or not done.
\<close>

datatype db_outcome = DbDone int | DbLost int string | DbError string

section \<open>Calls and the world\<close>

datatype call =
    CallContainerList
  | CallContainerInspect string
  | CallNetworkInspect string
  | CallNetworkConnect string string
  | CallExecCreate string exec_config
  | CallExecAttach string
  | CallExecWrite string string
  | CallExecCloseWrite string
  | CallExecRead string
  | CallExecInspect string
  | CallStat string
  | CallReadFile string
  | CallHttp http_request
  | CallNow
  | CallRand nat
  | CallEndpointPath
  | CallDial string
  | CallVersion pointer
  | CallCloseConn pointer
  | CallSyncList pointer string
  | CallHostPrompter pointer bool
  | CallStopPrompter string
  | CallSyncCreate pointer string creation_spec
  | CallSyncPause pointer string string
  | CallSyncResume pointer string string
  | CallSyncTerminate pointer string string
  | CallUpgrade
  | CallWsDial string
  | CallWsClose string
  | CallDbOpen string
  | CallDb db_stmt
  | CallLookupIP string
  | CallMapRange
  | CallDockerNew
  | CallDockerClose
  | CallEvents "(string \<times> string) list"
  | CallNewWatcher
  | CallWatcherAdd string
  | CallWatcherClose
  | CallShutdown
  | CallServerClose
  | CallDbClose

datatype path_info = PathDir | PathRegular | PathIrregular

text \<open>An error of \<open>os.ReadFile\<close>; the constructor says whether it is \<open>os.ErrNotExist\<close>.\<close>

datatype read_error = ReadNotExist string | ReadFailed string

datatype stat_result = StatOk path_info | StatNotExist | StatError

text \<open>
  The result of a Mutagen RPC: an RPC error (after \<open>PeelAwayRPCErrorLayer\<close>), or an answer
  with what its \<open>EnsureValid\<close> says of it.
\<close>

datatype 'a rpc = RpcError string | RpcInvalid string | RpcOk 'a

record world =
  w_ContainerList :: "call list \<Rightarrow> container_item list res"
  w_ContainerInspect :: "call list \<Rightarrow> string \<Rightarrow> container_json res"
  w_NetworkInspect :: "call list \<Rightarrow> string \<Rightarrow> string res" \<comment> \<open>the resource's \<open>ID\<close>\<close>
  w_NetworkConnect :: "call list \<Rightarrow> string \<Rightarrow> string \<Rightarrow> unit res"
  w_ExecCreate :: "call list \<Rightarrow> string \<Rightarrow> exec_config \<Rightarrow> string res"
  w_ExecAttach :: "call list \<Rightarrow> string \<Rightarrow> unit res"
  w_ExecWrite :: "call list \<Rightarrow> string \<Rightarrow> string \<Rightarrow> unit res"
  w_ExecCloseWrite :: "call list \<Rightarrow> string \<Rightarrow> unit res"
  w_ExecRead :: "call list \<Rightarrow> string \<Rightarrow> string"
  w_ExecInspect :: "call list \<Rightarrow> string \<Rightarrow> int res" \<comment> \<open>the exit code\<close>
  w_Stat :: "call list \<Rightarrow> string \<Rightarrow> stat_result"
  w_ReadFile :: "call list \<Rightarrow> string \<Rightarrow> read_error + string"
  w_Http :: "call list \<Rightarrow> http_request \<Rightarrow> http_response res"
  w_Now :: "call list \<Rightarrow> int"
  w_Rand :: "call list \<Rightarrow> nat \<Rightarrow> string" \<comment> \<open>the bytes that fill a buffer\<close>
  w_EndpointPath :: "call list \<Rightarrow> string res"
  w_Dial :: "call list \<Rightarrow> string \<Rightarrow> pointer res"
  w_Version :: "call list \<Rightarrow> pointer \<Rightarrow> version res"
  w_SyncList :: "call list \<Rightarrow> string \<Rightarrow> mutagen_state list rpc"
  w_HostPrompter :: "call list \<Rightarrow> bool \<Rightarrow> string res"
  w_SyncCreate :: "call list \<Rightarrow> creation_spec \<Rightarrow> unit rpc"
  w_SyncPause :: "call list \<Rightarrow> string \<Rightarrow> unit rpc"
  w_SyncResume :: "call list \<Rightarrow> string \<Rightarrow> unit rpc"
  w_SyncTerminate :: "call list \<Rightarrow> string \<Rightarrow> unit rpc"
  w_Upgrade :: "call list \<Rightarrow> unit res"
  w_WsDial :: "call list \<Rightarrow> string \<Rightarrow> unit res"
  w_DbOpen :: "call list \<Rightarrow> string \<Rightarrow> unit res"
  w_Db :: "call list \<Rightarrow> db_outcome"
  w_LookupIP :: "call list \<Rightarrow> string \<Rightarrow> string list res" \<comment> \<open>addresses as bytes\<close>
  w_MapOrder :: "call list \<Rightarrow> string list \<Rightarrow> string list" \<comment> \<open>the order of a \<open>range\<close> over a map\<close>
  w_DockerNew :: "call list \<Rightarrow> unit res"
  w_NewWatcher :: "call list \<Rightarrow> unit res"
  w_WatcherAdd :: "call list \<Rightarrow> string \<Rightarrow> unit res"
  w_client_version :: version
  w_ParseURL :: "string \<Rightarrow> bool \<Rightarrow> pointer res" \<comment> \<open>\<open>mutagenurl.Parse\<close>; the flag is \<open>first\<close>\<close>
  w_UnmarshalMode :: "string \<Rightarrow> int res" \<comment> \<open>\<open>core.SynchronizationMode.UnmarshalText\<close>\<close>
  w_UnmarshalFileMode :: "string \<Rightarrow> 32 word res" \<comment> \<open>\<open>filesystem.Mode.UnmarshalText\<close>\<close>
  w_EnsureValid :: "configuration \<Rightarrow> string option"
  w_Regexp :: "string \<Rightarrow> (string \<Rightarrow> bool) res" \<comment> \<open>\<open>regexp.Compile\<close>, then \<open>MatchString\<close>\<close>
  w_PathMatch :: "string \<Rightarrow> string \<Rightarrow> bool res" \<comment> \<open>\<open>doublestar.PathMatch\<close>\<close>
  w_json_unmarshal :: "string \<Rightarrow> json res" \<comment> \<open>the syntax layer: the whole input is one value\<close>
  w_json_stream :: "string \<Rightarrow> json res" \<comment> \<open>\<dots>: the first value of a stream\<close>
  w_json_text :: "json \<Rightarrow> string"
  w_url_Parse :: "string \<Rightarrow> go_url res"
  w_url_String :: "go_url \<Rightarrow> string"
  w_query_Set :: "string \<Rightarrow> string \<Rightarrow> string \<Rightarrow> string" \<comment> \<open>parse a raw query, \<open>Set\<close>, \<open>Encode\<close>\<close>
  w_IsWebSocketUpgrade :: "header \<Rightarrow> bool"
  w_FormatTime :: "int \<Rightarrow> string" \<comment> \<open>\<open>time.RFC3339Nano\<close>\<close>
  w_ParseIP :: "string \<Rightarrow> string option" \<comment> \<open>\<open>net.ParseIP\<close>: the bytes\<close>
  w_Getenv :: "string \<Rightarrow> string"

text \<open>A world in which every external operation fails or answers with nothing: a base for examples.\<close>

definition offline_world :: world where
  "offline_world = \<lparr>
     w_ContainerList = (\<lambda>_. Inl ''offline''), w_ContainerInspect = (\<lambda>_ _. Inl ''offline''),
     w_NetworkInspect = (\<lambda>_ _. Inl ''offline''), w_NetworkConnect = (\<lambda>_ _ _. Inl ''offline''),
     w_ExecCreate = (\<lambda>_ _ _. Inl ''offline''), w_ExecAttach = (\<lambda>_ _. Inl ''offline''),
     w_ExecWrite = (\<lambda>_ _ _. Inl ''offline''), w_ExecCloseWrite = (\<lambda>_ _. Inl ''offline''),
     w_ExecRead = (\<lambda>_ _. []), w_ExecInspect = (\<lambda>_ _. Inl ''offline''),
     w_Stat = (\<lambda>_ _. StatNotExist), w_ReadFile = (\<lambda>_ _. Inl (ReadNotExist ''no such file'')),
     w_Http = (\<lambda>_ _. Inl ''offline''), w_Now = (\<lambda>_. 0), w_Rand = (\<lambda>_ n. replicate n (CHR 0x00)),
     w_EndpointPath = (\<lambda>_. Inl ''offline''), w_Dial = (\<lambda>_ _. Inl ''offline''),
     w_Version = (\<lambda>_ _. Inl ''offline''), w_SyncList = (\<lambda>_ _. RpcError ''offline''),
     w_HostPrompter = (\<lambda>_ _. Inl ''offline''), w_SyncCreate = (\<lambda>_ _. RpcError ''offline''),
     w_SyncPause = (\<lambda>_ _. RpcError ''offline''), w_SyncResume = (\<lambda>_ _. RpcError ''offline''),
     w_SyncTerminate = (\<lambda>_ _. RpcError ''offline''), w_Upgrade = (\<lambda>_. Inl ''offline''),
     w_WsDial = (\<lambda>_ _. Inl ''offline''), w_DbOpen = (\<lambda>_ _. Inl ''offline''),
     w_Db = (\<lambda>_. DbError ''offline''), w_LookupIP = (\<lambda>_ _. Inl ''offline''),
     w_MapOrder = (\<lambda>_ ks. ks), w_DockerNew = (\<lambda>_. Inl ''offline''),
     w_NewWatcher = (\<lambda>_. Inl ''offline''), w_WatcherAdd = (\<lambda>_ _. Inl ''offline''),
     w_client_version = \<lparr>ver_Major = 0, ver_Minor = 18, ver_Patch = 1, ver_Tag = []\<rparr>,
     w_ParseURL = (\<lambda>_ _. Inr 0), w_UnmarshalMode = (\<lambda>_. Inr 0), w_UnmarshalFileMode = (\<lambda>_. Inr 0),
     w_EnsureValid = (\<lambda>_. None), w_Regexp = (\<lambda>p. Inr (\<lambda>v. v = p)), w_PathMatch = (\<lambda>p v. Inr (v = p)),
     w_json_unmarshal = (\<lambda>_. Inl ''syntax''), w_json_stream = (\<lambda>_. Inl ''syntax''), w_json_text = (\<lambda>_. []),
     w_url_Parse = (\<lambda>_. Inl ''syntax''), w_url_String = (\<lambda>_. []),
     w_query_Set = (\<lambda>_ _ _. []), w_IsWebSocketUpgrade = (\<lambda>_. False), w_FormatTime = (\<lambda>_. []),
     w_ParseIP = (\<lambda>_. None), w_Getenv = (\<lambda>_. [])\<rparr>"

section \<open>Programs that make calls\<close>

record io_state =
  hist :: "call list"

definition ask :: "(call list \<Rightarrow> 'a) \<Rightarrow> call \<Rightarrow> ('z io_state_scheme, 'a) state" where
  "ask f c = State (\<lambda>s. (f (hist s), s\<lparr>hist := c # hist s\<rparr>))"

lemma run_ask [simp]: "run_state (ask f c) s = (f (hist s), s\<lparr>hist := c # hist s\<rparr>)"
  by (simp add: ask_def)

text \<open>
  \<open>io_only P m\<close>: whatever \<open>m\<close> does, it changes nothing but the call history, and only by
  calls that satisfy \<open>P\<close>. \<open>calls_within P m\<close> leaves the rest of the state open.
\<close>

definition io_only :: "(call \<Rightarrow> bool) \<Rightarrow> ('z io_state_scheme, 'a) state \<Rightarrow> bool" where
  "io_only P m \<longleftrightarrow> (\<forall>s. \<exists>new. snd (run_state m s) = s\<lparr>hist := new @ hist s\<rparr> \<and> list_all P new)"

definition calls_within :: "(call \<Rightarrow> bool) \<Rightarrow> ('z io_state_scheme, 'a) state \<Rightarrow> bool" where
  "calls_within P m \<longleftrightarrow> (\<forall>s. \<exists>new. hist (snd (run_state m s)) = new @ hist s \<and> list_all P new)"

text \<open>The calls a program made: what its run put in front of the history.\<close>

definition new_calls :: "call list \<Rightarrow> call list \<Rightarrow> call list" where
  "new_calls h h' = take (length h' - length h) h'"

lemma new_calls_append [simp]: "new_calls h (new @ h) = new"
  by (simp add: new_calls_def)

lemma new_calls_Cons [simp]: "new_calls h (c # h) = [c]"
  using new_calls_append[of h "[c]"] by simp

lemma new_calls_self [simp]: "new_calls h h = []"
  by (simp add: new_calls_def)

lemma io_onlyI:
  "(\<And>s. \<exists>new. snd (run_state m s) = s\<lparr>hist := new @ hist s\<rparr> \<and> list_all P new) \<Longrightarrow> io_only P m"
  by (simp add: io_only_def)

lemma io_onlyE:
  assumes "io_only P m" "run_state m s = (a, s')"
  obtains new where "s' = s\<lparr>hist := new @ hist s\<rparr>" "list_all P new"
  using assms unfolding io_only_def by (metis snd_conv)

lemma io_runE:
  assumes "run_state m s = (a, s')" "io_only P m"
  obtains new where "s' = s\<lparr>hist := new @ hist s\<rparr>" "list_all P new"
  using assms by (rule_tac io_onlyE)

lemma calls_withinE:
  assumes "calls_within P m" "run_state m s = (a, s')"
  obtains new where "hist s' = new @ hist s" "list_all P new"
  using assms unfolding calls_within_def by (metis snd_conv)

lemma calls_within_new:
  "calls_within P m \<Longrightarrow> run_state m s = (a, s') \<Longrightarrow> list_all P (new_calls (hist s) (hist s'))"
  by (erule (1) calls_withinE) simp

lemma io_only_calls: "io_only P m \<Longrightarrow> calls_within P m"
  unfolding io_only_def calls_within_def by (metis io_state.select_convs(1) io_state.surjective io_state.update_convs(1))

lemma io_only_mono: "io_only P m \<Longrightarrow> (\<And>c. P c \<Longrightarrow> Q c) \<Longrightarrow> io_only Q m"
  unfolding io_only_def by (metis list.pred_mono_strong)

lemma calls_within_mono: "calls_within P m \<Longrightarrow> (\<And>c. P c \<Longrightarrow> Q c) \<Longrightarrow> calls_within Q m"
  unfolding calls_within_def by (metis list.pred_mono_strong)

lemma io_only_return [call_rules]: "io_only P (State_Monad.return a)"
  by (rule io_onlyI, rule exI[of _ "[]"]) simp

lemma io_only_ask [call_rules]: "P c \<Longrightarrow> io_only P (ask f c)"
  by (rule io_onlyI, rule exI[of _ "[c]"]) simp

lemma io_only_bind [call_rules]:
  assumes m: "io_only P m" and f: "\<And>a. io_only P (f a)"
  shows "io_only P (State_Monad.bind m f)"
proof (rule io_onlyI)
  fix s
  obtain a s1 where 1: "run_state m s = (a, s1)" by fastforce
  obtain b s2 where 2: "run_state (f a) s1 = (b, s2)" by fastforce
  obtain n1 where n1: "s1 = s\<lparr>hist := n1 @ hist s\<rparr>" "list_all P n1"
    using m 1 by (rule io_onlyE)
  obtain n2 where n2: "s2 = s1\<lparr>hist := n2 @ hist s1\<rparr>" "list_all P n2"
    using f 2 by (rule io_onlyE)
  show "\<exists>new. snd (run_state (State_Monad.bind m f) s) = s\<lparr>hist := new @ hist s\<rparr> \<and> list_all P new"
    using 1 2 n1 n2 by (intro exI[of _ "n2 @ n1"]) simp
qed

lemma io_only_bind_sum [call_rules]:
  "io_only P m \<Longrightarrow> (\<And>a. io_only P (f a)) \<Longrightarrow> io_only P (bind_sum m f)"
  unfolding bind_sum_def by (auto intro!: call_rules split: sum.split)

lemma io_only_if [call_rules]:
  "(b \<Longrightarrow> io_only P m) \<Longrightarrow> (\<not> b \<Longrightarrow> io_only P n) \<Longrightarrow> io_only P (if b then m else n)"
  by simp

lemma io_only_case_option [call_rules]:
  "io_only P m \<Longrightarrow> (\<And>a. io_only P (f a)) \<Longrightarrow> io_only P (case x of None \<Rightarrow> m | Some a \<Rightarrow> f a)"
  by (cases x) auto

lemma io_only_case_sum [call_rules]:
  "(\<And>a. io_only P (f a)) \<Longrightarrow> (\<And>b. io_only P (g b)) \<Longrightarrow> io_only P (case x of Inl a \<Rightarrow> f a | Inr b \<Rightarrow> g b)"
  by (cases x) auto

lemma io_only_case_prod [call_rules]:
  "(\<And>a b. io_only P (f a b)) \<Longrightarrow> io_only P (case x of (a, b) \<Rightarrow> f a b)"
  by (cases x) auto

lemma io_only_case_rpc [call_rules]:
  "(\<And>e. io_only P (f e)) \<Longrightarrow> (\<And>e. io_only P (g e)) \<Longrightarrow> (\<And>a. io_only P (k a)) \<Longrightarrow>
     io_only P (case x of RpcError e \<Rightarrow> f e | RpcInvalid e \<Rightarrow> g e | RpcOk a \<Rightarrow> k a)"
  by (cases x) auto

lemma io_only_Let [call_rules]: "(\<And>a. a = x \<Longrightarrow> io_only P (f a)) \<Longrightarrow> io_only P (Let x f)"
  by simp

lemma calls_within_bind [call_rules]:
  assumes m: "calls_within P m" and f: "\<And>a. calls_within P (f a)"
  shows "calls_within P (State_Monad.bind m f)"
  unfolding calls_within_def
proof
  fix s
  obtain a s1 where 1: "run_state m s = (a, s1)" by fastforce
  obtain b s2 where 2: "run_state (f a) s1 = (b, s2)" by fastforce
  obtain n1 where n1: "hist s1 = n1 @ hist s" "list_all P n1"
    using m 1 by (rule calls_withinE)
  obtain n2 where n2: "hist s2 = n2 @ hist s1" "list_all P n2"
    using f 2 by (rule calls_withinE)
  show "\<exists>new. hist (snd (run_state (State_Monad.bind m f) s)) = new @ hist s \<and> list_all P new"
    using 1 2 n1 n2 by (intro exI[of _ "n2 @ n1"]) simp
qed

lemma calls_within_return [call_rules]: "calls_within P (State_Monad.return a)"
  by (intro io_only_calls call_rules)

lemma calls_within_if [call_rules]:
  "(b \<Longrightarrow> calls_within P m) \<Longrightarrow> (\<not> b \<Longrightarrow> calls_within P n) \<Longrightarrow> calls_within P (if b then m else n)"
  by simp

lemma calls_within_case_option [call_rules]:
  "calls_within P m \<Longrightarrow> (\<And>a. calls_within P (f a)) \<Longrightarrow>
     calls_within P (case x of None \<Rightarrow> m | Some a \<Rightarrow> f a)"
  by (cases x) auto

lemma calls_within_case_sum [call_rules]:
  "(\<And>a. calls_within P (f a)) \<Longrightarrow> (\<And>b. calls_within P (g b)) \<Longrightarrow>
     calls_within P (case x of Inl a \<Rightarrow> f a | Inr b \<Rightarrow> g b)"
  by (cases x) auto

lemma calls_within_case_prod [call_rules]:
  "(\<And>a b. calls_within P (f a b)) \<Longrightarrow> calls_within P (case x of (a, b) \<Rightarrow> f a b)"
  by (cases x) auto

text \<open>
  \<open>keeps I P Q m\<close>: started in a state that satisfies \<open>I\<close>, \<open>m\<close> ends in one, makes only calls
  that satisfy \<open>P\<close> and returns a result that satisfies \<open>Q\<close>. With \<open>Q = no_panic\<close> it also says
  that \<open>m\<close> does not panic.
\<close>

definition keeps :: "('z io_state_scheme \<Rightarrow> bool) \<Rightarrow> (call \<Rightarrow> bool) \<Rightarrow> ('a \<Rightarrow> bool) \<Rightarrow>
    ('z io_state_scheme, 'a) state \<Rightarrow> bool" where
  "keeps I P Q m \<longleftrightarrow> (\<forall>s. I s \<longrightarrow> I (snd (run_state m s)) \<and> Q (fst (run_state m s)) \<and>
     (\<exists>new. hist (snd (run_state m s)) = new @ hist s \<and> list_all P new))"

definition no_panic :: "'a go \<Rightarrow> bool" where
  "no_panic r \<longleftrightarrow> \<not> isl r"

definition hist_free :: "('z io_state_scheme \<Rightarrow> bool) \<Rightarrow> bool" where
  "hist_free I \<longleftrightarrow> (\<forall>s h. I (s\<lparr>hist := h\<rparr>) = I s)"

lemma no_panic_Inr [simp]: "no_panic (Inr a)" "\<not> no_panic (Inl p)"
  by (simp_all add: no_panic_def)

lemma keepsE:
  assumes "keeps I P Q m" "run_state m s = (a, s')" "I s"
  obtains new where "I s'" "Q a" "hist s' = new @ hist s" "list_all P new"
  using assms unfolding keeps_def by (metis fst_conv snd_conv)

lemma keeps_return [call_rules]: "Q a \<Longrightarrow> keeps I P Q (State_Monad.return a)"
  by (auto simp: keeps_def)

lemma keeps_ask: "hist_free I \<Longrightarrow> P c \<Longrightarrow> (\<And>h. Q (f h)) \<Longrightarrow> keeps I P Q (ask f c)"
  by (auto simp: keeps_def hist_free_def intro!: exI[of _ "[c]"])

lemma keeps_io: "hist_free I \<Longrightarrow> io_only P m \<Longrightarrow> keeps I P (\<lambda>_. True) m"
  unfolding keeps_def io_only_def hist_free_def
  by (metis io_state.select_convs(1) io_state.surjective io_state.update_convs(1))

lemma keeps_bind:
  assumes m: "keeps I P Q m" and f: "\<And>a. Q a \<Longrightarrow> keeps I P R (f a)"
  shows "keeps I P R (State_Monad.bind m f)"
  unfolding keeps_def
proof (intro allI impI)
  fix s assume I: "I s"
  obtain a s1 where 1: "run_state m s = (a, s1)" by fastforce
  obtain b s2 where 2: "run_state (f a) s1 = (b, s2)" by fastforce
  obtain n1 where n1: "I s1" "Q a" "hist s1 = n1 @ hist s" "list_all P n1"
    using m 1 I by (rule keepsE)
  obtain n2 where n2: "I s2" "R b" "hist s2 = n2 @ hist s1" "list_all P n2"
    using f[OF n1(2)] 2 n1(1) by (rule keepsE)
  then show "I (snd (run_state (State_Monad.bind m f) s)) \<and> R (fst (run_state (State_Monad.bind m f) s)) \<and>
      (\<exists>new. hist (snd (run_state (State_Monad.bind m f) s)) = new @ hist s \<and> list_all P new)"
    using 1 2 n1 by simp
qed

lemma keeps_bind_sum:
  "keeps I P no_panic m \<Longrightarrow> (\<And>a. keeps I P no_panic (f a)) \<Longrightarrow> keeps I P no_panic (bind_sum m f)"
  unfolding bind_sum_def by (erule keeps_bind) (auto split: sum.split)

lemma keeps_mono:
  "keeps I P Q m \<Longrightarrow> (\<And>c. P c \<Longrightarrow> P' c) \<Longrightarrow> (\<And>a. Q a \<Longrightarrow> Q' a) \<Longrightarrow> keeps I P' Q' m"
  unfolding keeps_def by (metis list.pred_mono_strong)

lemma keeps_if: "(b \<Longrightarrow> keeps I P Q m) \<Longrightarrow> (\<not> b \<Longrightarrow> keeps I P Q n) \<Longrightarrow> keeps I P Q (if b then m else n)"
  by simp

text \<open>\<open>returns Q r\<close>: no panic, and the value satisfies \<open>Q\<close>.\<close>

definition returns :: "('a \<Rightarrow> bool) \<Rightarrow> 'a go \<Rightarrow> bool" where
  "returns Q r \<longleftrightarrow> (case r of Inl _ \<Rightarrow> False | Inr a \<Rightarrow> Q a)"

lemma returns_simps [simp]: "returns Q (Inr a) = Q a" "\<not> returns Q (Inl p)"
  by (simp_all add: returns_def)

lemma keeps_returns:
  assumes "keeps I P (returns Q) m" "\<And>a. Q a \<Longrightarrow> keeps I P R (f a)"
  shows "keeps I P R (bind_sum m f)"
  unfolding bind_sum_def
  by (rule keeps_bind[OF assms(1)]) (use assms(2) in \<open>auto split: sum.split\<close>)

lemma keeps_ok:
  assumes "keeps I P no_panic m" "\<And>a. keeps I P R (f a)"
  shows "keeps I P R (bind_sum m f)"
  unfolding bind_sum_def
  by (rule keeps_bind[OF assms(1)]) (use assms(2) in \<open>auto simp: no_panic_def split: sum.split\<close>)

lemma keeps_returns_mono:
  "keeps I P (returns Q) m \<Longrightarrow> (\<And>a. Q a \<Longrightarrow> Q' a) \<Longrightarrow> keeps I P (returns Q') m"
  by (erule keeps_mono) (auto simp: returns_def split: sum.splits)

section \<open>Relations between the state before and after\<close>

text \<open>
  \<open>moves_by R m\<close>: every run of \<open>m\<close> takes a state to one that \<open>R\<close> relates to it. For a
  preorder \<open>R\<close> (a frame condition, or the preservation of an invariant) this goes through the
  control structures of a program; \<open>io_order\<close> adds that making calls is a step of \<open>R\<close>.
\<close>

definition moves_by :: "('s \<Rightarrow> 's \<Rightarrow> bool) \<Rightarrow> ('s, 'a) state \<Rightarrow> bool" where
  "moves_by R m \<longleftrightarrow> (\<forall>s. R s (snd (run_state m s)))"

lemma moves_byI: "(\<And>s a s'. run_state m s = (a, s') \<Longrightarrow> R s s') \<Longrightarrow> moves_by R m"
  unfolding moves_by_def by (metis prod.collapse)

lemma moves_byD: "moves_by R m \<Longrightarrow> run_state m s = (a, s') \<Longrightarrow> R s s'"
  unfolding moves_by_def by (metis snd_conv)

locale step_order =
  fixes R :: "'s \<Rightarrow> 's \<Rightarrow> bool"
  assumes R_refl: "R s s"
    and R_trans: "R s s1 \<Longrightarrow> R s1 s2 \<Longrightarrow> R s s2"
begin

lemma moves_return: "moves_by R (State_Monad.return a)"
  by (simp add: moves_by_def R_refl)

lemma moves_bind:
  assumes "moves_by R m" "\<And>a. moves_by R (f a)"
  shows "moves_by R (State_Monad.bind m f)"
proof (rule moves_byI)
  fix s b s' assume run: "run_state (State_Monad.bind m f) s = (b, s')"
  obtain a s1 where 1: "run_state m s = (a, s1)" by fastforce
  then have "run_state (f a) s1 = (b, s')" using run by simp
  then show "R s s'" using assms 1 R_trans moves_byD by metis
qed

lemma moves_bind_sum:
  "moves_by R m \<Longrightarrow> (\<And>a. moves_by R (f a)) \<Longrightarrow> moves_by R (bind_sum m f)"
  unfolding bind_sum_def by (rule moves_bind) (auto simp: moves_return split: sum.split)

lemma moves_cases:
  "(b \<Longrightarrow> moves_by R m) \<Longrightarrow> (\<not> b \<Longrightarrow> moves_by R n) \<Longrightarrow> moves_by R (if b then m else n)"
  "moves_by R m \<Longrightarrow> (\<And>a. o1 = Some a \<Longrightarrow> moves_by R (f a)) \<Longrightarrow> moves_by R (case o1 of None \<Rightarrow> m | Some a \<Rightarrow> f a)"
  "(\<And>e. moves_by R (g e)) \<Longrightarrow> (\<And>a. moves_by R (h a)) \<Longrightarrow> moves_by R (case r of Inl e \<Rightarrow> g e | Inr a \<Rightarrow> h a)"
  "(\<And>a b. moves_by R (k a b)) \<Longrightarrow> moves_by R (case p of (a, b) \<Rightarrow> k a b)"
  "(\<And>e. moves_by R (g1 e)) \<Longrightarrow> (\<And>e. moves_by R (g2 e)) \<Longrightarrow> (\<And>a. moves_by R (g3 a)) \<Longrightarrow>
     moves_by R (case q of RpcError e \<Rightarrow> g1 e | RpcInvalid e \<Rightarrow> g2 e | RpcOk a \<Rightarrow> g3 a)"
  "(\<And>x. moves_by R (l x)) \<Longrightarrow> moves_by R (Let y l)"
  by (auto split: option.split sum.split prod.split rpc.split)

lemmas moves_rules = moves_return moves_bind moves_bind_sum moves_cases

end

locale io_order = step_order R for R :: "'z io_state_scheme \<Rightarrow> 'z io_state_scheme \<Rightarrow> bool" +
  assumes R_hist: "R s (s\<lparr>hist := new @ hist s\<rparr>)"
begin

lemma moves_io:
  assumes "io_only P m"
  shows "moves_by R m"
proof (rule moves_byI)
  fix s a s' assume "run_state m s = (a, s')"
  then obtain new where "s' = s\<lparr>hist := new @ hist s\<rparr>" using assms by (auto elim: io_runE)
  then show "R s s'" using R_hist by simp
qed

lemma moves_ask: "moves_by R (ask f c)"
  using moves_io[of "\<lambda>_. True", OF io_only_ask] by simp

lemmas io_rules = moves_rules moves_ask

end

text \<open>Reading the clock and the random source. \<open>crypto/rand.Read\<close> of the Go version in \<open>go.mod\<close> (1.25) is
  documented to never return an error, so the panic of \<open>randomBytes\<close> is not a branch of the model.\<close>

definition time_Now :: "world \<Rightarrow> ('z io_state_scheme, int) state" where
  "time_Now w = ask (w_Now w) CallNow"

definition randomBytes :: "world \<Rightarrow> nat \<Rightarrow> ('z io_state_scheme, string) state" where
  "randomBytes w n = ask (\<lambda>h. w_Rand w h n) (CallRand n)"

lemma run_time_Now [simp]: "run_state (time_Now w) s = (w_Now w (hist s), s\<lparr>hist := CallNow # hist s\<rparr>)"
  by (simp add: time_Now_def)

lemma run_randomBytes [simp]:
  "run_state (randomBytes w n) s = (w_Rand w (hist s) n, s\<lparr>hist := CallRand n # hist s\<rparr>)"
  by (simp add: randomBytes_def)

lemma io_only_now_rand [call_rules]:
  "P CallNow \<Longrightarrow> io_only P (time_Now w)" "P (CallRand n) \<Longrightarrow> io_only P (randomBytes w n)"
  by (auto simp: time_Now_def randomBytes_def intro: call_rules)

end
