(* ===== verification/Config.thy ===== *)
theory Config
  imports World
begin

text \<open>
  The package \<open>internal/config\<close>: the configuration structs, \<open>Default\<close>, \<open>ApplyDefaults\<close>,
  \<open>Validate\<close>, \<open>Load\<close> and the matchers of a rule. YAML decoding (\<open>gopkg.in/yaml.v3\<close>), glob
  matching (\<open>doublestar\<close>) and the regular expression engine are parameters. The lemmas show
  that a configuration \<open>Load\<close> accepts is well formed, that filling in defaults is idempotent
  and keeps every set field, that \<open>Validate\<close> accepts exactly the valid rule lists, and what
  a matcher accepts.
\<close>

section \<open>The structs\<close>

record ServerConfig =
  srv_Listen :: string
  srv_AllowNonLoopback :: bool

record DiscoveryConfig =
  disc_IncludeNamePrefixes :: "string list"
  disc_IncludeLabels :: "labels option" \<comment> \<open>nil or a map\<close>
  disc_ConnectToNetwork :: string

record DefaultsConfig =
  def_ContainerUser :: string
  def_ContainerHome :: string

record T3Config =
  t3c_Enabled :: bool
  t3c_Port :: int
  t3c_AutoIssueBackendToken :: bool
  t3c_ServerCommand :: "string list"

record PairingTokensConfig =
  ptc_PostgresURL :: string

record PermissionConfig =
  perm_DefaultFileMode :: string
  perm_DefaultDirectoryMode :: string

record SyncDefaults =
  sd_IgnoreVCS :: bool
  sd_Ignores :: "string list"
  sd_Permissions :: PermissionConfig
  sd_Extra :: labels

record SyncConfig =
  sync_Enabled :: bool
  sync_Defaults :: SyncDefaults

record Matcher =
  mt_Literal :: string
  mt_Glob :: string
  mt_Regex :: string

record MatchRuleConfig =
  mr_LocalFolder :: Matcher
  mr_ConfigFile :: Matcher
  mr_Name :: Matcher
  mr_Labels :: labels

record SyncEntry =
  se_Mode :: string
  se_Manager :: string
  se_Container :: string
  se_Replica :: bool
  se_IgnoreVCS :: "bool option"
  se_Ignores :: "string list"
  se_Permissions :: PermissionConfig

record RuleT3 =
  rt3_Enabled :: "bool option"

record Rule =
  rule_Name :: string
  rule_Match :: MatchRuleConfig
  rule_ContainerUser :: string
  rule_ContainerHome :: string
  rule_T3 :: RuleT3
  rule_Syncs :: "SyncEntry list"

record Config =
  cfg_Server :: ServerConfig
  cfg_Discovery :: DiscoveryConfig
  cfg_Defaults :: DefaultsConfig
  cfg_T3 :: T3Config
  cfg_PairingTokens :: PairingTokensConfig
  cfg_Sync :: SyncConfig
  cfg_Rules :: "Rule list"

text \<open>The zero values the code starts from.\<close>

definition empty_matcher :: Matcher where
  "empty_matcher = \<lparr>mt_Literal = [], mt_Glob = [], mt_Regex = []\<rparr>"

definition empty_match :: MatchRuleConfig where
  "empty_match = \<lparr>mr_LocalFolder = empty_matcher, mr_ConfigFile = empty_matcher,
     mr_Name = empty_matcher, mr_Labels = []\<rparr>"

definition named_rule :: "string \<Rightarrow> Rule" where
  "named_rule n = \<lparr>rule_Name = n, rule_Match = empty_match, rule_ContainerUser = [],
     rule_ContainerHome = [], rule_T3 = \<lparr>rt3_Enabled = None\<rparr>, rule_Syncs = []\<rparr>"

definition empty_config :: Config where
  "empty_config = \<lparr>
     cfg_Server = \<lparr>srv_Listen = [], srv_AllowNonLoopback = False\<rparr>,
     cfg_Discovery = \<lparr>disc_IncludeNamePrefixes = [], disc_IncludeLabels = None, disc_ConnectToNetwork = []\<rparr>,
     cfg_Defaults = \<lparr>def_ContainerUser = [], def_ContainerHome = []\<rparr>,
     cfg_T3 = \<lparr>t3c_Enabled = False, t3c_Port = 0, t3c_AutoIssueBackendToken = False, t3c_ServerCommand = []\<rparr>,
     cfg_PairingTokens = \<lparr>ptc_PostgresURL = []\<rparr>,
     cfg_Sync = \<lparr>sync_Enabled = False, sync_Defaults = \<lparr>sd_IgnoreVCS = False, sd_Ignores = [],
       sd_Permissions = \<lparr>perm_DefaultFileMode = [], perm_DefaultDirectoryMode = []\<rparr>, sd_Extra = []\<rparr>\<rparr>,
     cfg_Rules = []\<rparr>"

section \<open>Defaults\<close>

definition Default :: Config where
  "Default = \<lparr>
     cfg_Server = \<lparr>srv_Listen = ''127.0.0.1:8787'', srv_AllowNonLoopback = False\<rparr>,
     cfg_Discovery = \<lparr>disc_IncludeNamePrefixes = [''vsc-''], disc_IncludeLabels = Some [], disc_ConnectToNetwork = []\<rparr>,
     cfg_Defaults = \<lparr>def_ContainerUser = ''vscode'', def_ContainerHome = ''/home/vscode''\<rparr>,
     cfg_T3 = \<lparr>t3c_Enabled = True, t3c_Port = 3773, t3c_AutoIssueBackendToken = True,
       t3c_ServerCommand = [''t3'', ''serve'', ''--host'', ''0.0.0.0'', ''--port'', ''3773'']\<rparr>,
     cfg_PairingTokens = \<lparr>ptc_PostgresURL = []\<rparr>,
     cfg_Sync = \<lparr>sync_Enabled = True, sync_Defaults = \<lparr>sd_IgnoreVCS = True, sd_Ignores = [''.DS_Store''],
       sd_Permissions = \<lparr>perm_DefaultFileMode = ''0644'', perm_DefaultDirectoryMode = ''0755''\<rparr>, sd_Extra = []\<rparr>\<rparr>,
     cfg_Rules = [named_rule ''default'']\<rparr>"

text \<open>
  \<open>ApplyDefaults\<close> assigns each field that is still empty, one after the other; the fields
  are independent, so the record is built in one step.
\<close>

definition or_default :: "string \<Rightarrow> string \<Rightarrow> string" where
  "or_default v d = (if v = [] then d else v)"

definition default_name :: "Rule \<Rightarrow> Rule" where
  "default_name r = (if rule_Name r = [] then r\<lparr>rule_Name := ''rule''\<rparr> else r)"

definition ApplyDefaults :: "Config \<Rightarrow> Config" where
  "ApplyDefaults c = c\<lparr>
     cfg_Server := (cfg_Server c)\<lparr>srv_Listen := or_default (srv_Listen (cfg_Server c)) ''127.0.0.1:8787''\<rparr>,
     cfg_Defaults := (cfg_Defaults c)\<lparr>
       def_ContainerUser := or_default (def_ContainerUser (cfg_Defaults c)) ''vscode'',
       def_ContainerHome := or_default (def_ContainerHome (cfg_Defaults c)) ''/home/vscode''\<rparr>,
     cfg_T3 := (cfg_T3 c)\<lparr>t3c_Port := (if t3c_Port (cfg_T3 c) = 0 then 3773 else t3c_Port (cfg_T3 c))\<rparr>,
     cfg_Discovery := (cfg_Discovery c)\<lparr>
       disc_IncludeNamePrefixes :=
         (if length (disc_IncludeNamePrefixes (cfg_Discovery c)) = 0 then [''vsc-'']
          else disc_IncludeNamePrefixes (cfg_Discovery c)),
       disc_IncludeLabels :=
         (if disc_IncludeLabels (cfg_Discovery c) = None then Some []
          else disc_IncludeLabels (cfg_Discovery c))\<rparr>,
     cfg_Sync := (cfg_Sync c)\<lparr>sync_Defaults := (sync_Defaults (cfg_Sync c))\<lparr>sd_Permissions :=
       (sd_Permissions (sync_Defaults (cfg_Sync c)))\<lparr>
         perm_DefaultFileMode :=
           or_default (perm_DefaultFileMode (sd_Permissions (sync_Defaults (cfg_Sync c)))) ''0644'',
         perm_DefaultDirectoryMode :=
           or_default (perm_DefaultDirectoryMode (sd_Permissions (sync_Defaults (cfg_Sync c)))) ''0755''\<rparr>\<rparr>\<rparr>,
     cfg_Rules := map default_name
       (if length (cfg_Rules c) = 0 then [named_rule ''default''] else cfg_Rules c)\<rparr>"

section \<open>Matchers\<close>

definition regexp_MatchString :: "world \<Rightarrow> string \<Rightarrow> string \<Rightarrow> bool res" where
  "regexp_MatchString w p v = (case w_Regexp w p of Inl e \<Rightarrow> Inl e | Inr f \<Rightarrow> Inr (f v))"

definition Matcher_Validate :: "world \<Rightarrow> Matcher \<Rightarrow> string option" where
  "Matcher_Validate w m =
     (if mt_Regex m \<noteq> [] then (case w_Regexp w (mt_Regex m) of Inl e \<Rightarrow> Some e | Inr _ \<Rightarrow> None)
      else None)"

definition Matcher_Empty :: "Matcher \<Rightarrow> bool" where
  "Matcher_Empty m \<longleftrightarrow> mt_Literal m = [] \<and> mt_Glob m = [] \<and> mt_Regex m = []"

text \<open>A match that fails with an error counts as no match.\<close>

definition ok_true :: "bool res \<Rightarrow> bool" where
  "ok_true r = (case r of Inl e \<Rightarrow> False | Inr ok \<Rightarrow> ok)"

definition Matcher_Match :: "world \<Rightarrow> Matcher \<Rightarrow> string \<Rightarrow> bool" where
  "Matcher_Match w m v =
     (if Matcher_Empty m then True
      else if mt_Literal m \<noteq> [] \<and> v \<noteq> mt_Literal m then False
      else if mt_Glob m \<noteq> [] \<and> \<not> ok_true (w_PathMatch w (mt_Glob m) v) then False
      else if mt_Regex m \<noteq> [] \<and> \<not> ok_true (regexp_MatchString w (mt_Regex m) v) then False
      else True)"

section \<open>Validation\<close>

definition valid_mode :: "string \<Rightarrow> bool" where
  "valid_mode m \<longleftrightarrow> m \<in> {[], ''push'', ''pull'', ''two-way''}"

fun validate_syncs :: "SyncEntry list \<Rightarrow> string option" where
  "validate_syncs [] = None"
| "validate_syncs (e # es) =
     (if se_Manager e = [] \<or> se_Container e = []
      then Some ''sync entries require manager and container paths''
      else if \<not> valid_mode (se_Mode e) then Some ''sync mode must be push, pull, or two-way''
      else validate_syncs es)"

fun validate_rules :: "world \<Rightarrow> Rule list \<Rightarrow> string option" where
  "validate_rules w [] = None"
| "validate_rules w (r # rs) =
     (case Matcher_Validate w (mr_LocalFolder (rule_Match r)) of Some e \<Rightarrow> Some e | None \<Rightarrow>
      case Matcher_Validate w (mr_ConfigFile (rule_Match r)) of Some e \<Rightarrow> Some e | None \<Rightarrow>
      case Matcher_Validate w (mr_Name (rule_Match r)) of Some e \<Rightarrow> Some e | None \<Rightarrow>
      case validate_syncs (rule_Syncs r) of Some e \<Rightarrow> Some e | None \<Rightarrow> validate_rules w rs)"

definition Config_Validate :: "world \<Rightarrow> Config \<Rightarrow> string option" where
  "Config_Validate w c = validate_rules w (cfg_Rules c)"

section \<open>Load\<close>

datatype load_error = LoadRead read_error | LoadYaml string | LoadInvalid string

text \<open>\<open>yaml\<close> stands for \<open>yaml.Unmarshal(data, &cfg)\<close>: it overwrites the fields the document sets.\<close>

definition Load :: "world \<Rightarrow> (string \<Rightarrow> Config \<Rightarrow> Config res) \<Rightarrow> string \<Rightarrow>
    ('z io_state_scheme, Config \<times> load_error option) state" where
  "Load w yaml path = do {
     r \<leftarrow> ask (\<lambda>h. w_ReadFile w h path) (CallReadFile path);
     State_Monad.return (case r of
       Inl e \<Rightarrow> (empty_config, Some (LoadRead e))
     | Inr data \<Rightarrow> (case yaml data Default of
         Inl e \<Rightarrow> (empty_config, Some (LoadYaml e))
       | Inr cfg \<Rightarrow> (ApplyDefaults cfg, map_option LoadInvalid (Config_Validate w (ApplyDefaults cfg)))))
   }"

section \<open>What the code promises\<close>

definition valid_sync :: "SyncEntry \<Rightarrow> bool" where
  "valid_sync e \<longleftrightarrow> se_Manager e \<noteq> [] \<and> se_Container e \<noteq> [] \<and>
     (se_Mode e = [] \<or> se_Mode e = ''push'' \<or> se_Mode e = ''pull'' \<or> se_Mode e = ''two-way'')"

definition valid_matcher :: "world \<Rightarrow> Matcher \<Rightarrow> bool" where
  "valid_matcher w m \<longleftrightarrow> mt_Regex m \<noteq> [] \<longrightarrow> \<not> isl (w_Regexp w (mt_Regex m))"

definition valid_rule :: "world \<Rightarrow> Rule \<Rightarrow> bool" where
  "valid_rule w r \<longleftrightarrow>
     valid_matcher w (mr_LocalFolder (rule_Match r)) \<and> valid_matcher w (mr_ConfigFile (rule_Match r)) \<and>
     valid_matcher w (mr_Name (rule_Match r)) \<and> (\<forall>e\<in>set (rule_Syncs r). valid_sync e)"

definition defaults_set :: "Config \<Rightarrow> bool" where
  "defaults_set c \<longleftrightarrow>
     srv_Listen (cfg_Server c) \<noteq> [] \<and> def_ContainerUser (cfg_Defaults c) \<noteq> [] \<and>
     def_ContainerHome (cfg_Defaults c) \<noteq> [] \<and> t3c_Port (cfg_T3 c) \<noteq> 0 \<and>
     disc_IncludeNamePrefixes (cfg_Discovery c) \<noteq> [] \<and> disc_IncludeLabels (cfg_Discovery c) \<noteq> None \<and>
     perm_DefaultFileMode (sd_Permissions (sync_Defaults (cfg_Sync c))) \<noteq> [] \<and>
     perm_DefaultDirectoryMode (sd_Permissions (sync_Defaults (cfg_Sync c))) \<noteq> [] \<and>
     cfg_Rules c \<noteq> [] \<and> (\<forall>r\<in>set (cfg_Rules c). rule_Name r \<noteq> [])"

definition wf_config :: "world \<Rightarrow> Config \<Rightarrow> bool" where
  "wf_config w c \<longleftrightarrow> defaults_set c \<and> (\<forall>r\<in>set (cfg_Rules c). valid_rule w r)"

lemma or_default_nonempty [simp]: "d \<noteq> [] \<Longrightarrow> or_default v d \<noteq> []"
  by (simp add: or_default_def)

lemma or_default_id [simp]: "v \<noteq> [] \<Longrightarrow> or_default v d = v"
  by (simp add: or_default_def)

lemma default_name_nonempty [simp]: "rule_Name (default_name r) \<noteq> []"
  by (simp add: default_name_def)

lemma default_name_other [simp]:
  "rule_Match (default_name r) = rule_Match r" "rule_Syncs (default_name r) = rule_Syncs r"
  by (simp_all add: default_name_def)

lemma map_default_name_id: "(\<forall>r\<in>set rs. rule_Name r \<noteq> []) \<Longrightarrow> map default_name rs = rs"
  by (induction rs) (auto simp: default_name_def)

lemma defaults_set_ApplyDefaults: "defaults_set (ApplyDefaults c)"
  by (auto simp: defaults_set_def ApplyDefaults_def)

lemma ApplyDefaults_id: "defaults_set c \<Longrightarrow> ApplyDefaults c = c"
  by (auto simp: defaults_set_def ApplyDefaults_def map_default_name_id)

lemma defaults_set_Default: "defaults_set Default"
  by (simp add: defaults_set_def Default_def named_rule_def)

lemma validate_syncs_iff: "validate_syncs es = None \<longleftrightarrow> (\<forall>e\<in>set es. valid_sync e)"
  by (induction es) (auto simp: valid_sync_def valid_mode_def)

lemma Matcher_Validate_iff: "Matcher_Validate w m = None \<longleftrightarrow> valid_matcher w m"
  by (auto simp: Matcher_Validate_def valid_matcher_def split: sum.splits)

lemma validate_rules_iff: "validate_rules w rs = None \<longleftrightarrow> (\<forall>r\<in>set rs. valid_rule w r)"
  by (induction rs)
    (auto simp: valid_rule_def Matcher_Validate_iff[symmetric] validate_syncs_iff[symmetric]
      split: option.split)

text \<open>
  Everything that is wrong with the rules, in the order of the document: an expression that does not
  compile, a sync entry without one of its paths, one with an unknown mode.
\<close>

definition matcher_faults :: "world \<Rightarrow> Matcher \<Rightarrow> string list" where
  "matcher_faults w m = (case w_Regexp w (mt_Regex m) of Inl e \<Rightarrow> if mt_Regex m = [] then [] else [e] | Inr _ \<Rightarrow> [])"

definition sync_faults :: "SyncEntry \<Rightarrow> string list" where
  "sync_faults e =
     (if se_Manager e \<noteq> [] \<and> se_Container e \<noteq> [] then [] else [''sync entries require manager and container paths'']) @
     (if se_Mode e = [] \<or> se_Mode e = ''push'' \<or> se_Mode e = ''pull'' \<or> se_Mode e = ''two-way'' then []
      else [''sync mode must be push, pull, or two-way''])"

definition rule_faults :: "world \<Rightarrow> Rule \<Rightarrow> string list" where
  "rule_faults w r = concat (map (matcher_faults w)
     [mr_LocalFolder (rule_Match r), mr_ConfigFile (rule_Match r), mr_Name (rule_Match r)]) @
     concat (map sync_faults (rule_Syncs r))"

definition config_faults :: "world \<Rightarrow> Config \<Rightarrow> string list" where
  "config_faults w c = concat (map (rule_faults w) (cfg_Rules c))"

definition first_of :: "'a list \<Rightarrow> 'a option" where
  "first_of xs = (case xs of [] \<Rightarrow> None | x # _ \<Rightarrow> Some x)"

lemma first_of_simps [simp]: "first_of [] = None" "first_of (x # xs) = Some x"
  by (simp_all add: first_of_def)

lemma first_of_append: "first_of (xs @ ys) = (case first_of xs of None \<Rightarrow> first_of ys | Some x \<Rightarrow> Some x)"
  by (cases xs) simp_all

lemma first_matcher_fault: "first_of (matcher_faults w m) = Matcher_Validate w m"
  by (auto simp: matcher_faults_def Matcher_Validate_def split: sum.split)

lemma first_sync_fault: "first_of (concat (map sync_faults es)) = validate_syncs es"
  by (induction es) (auto simp: first_of_append sync_faults_def valid_mode_def)

lemma first_rule_fault: "first_of (concat (map (rule_faults w) rs)) = validate_rules w rs"
  by (induction rs) (simp_all add: first_of_append rule_faults_def first_matcher_fault first_sync_fault split: option.split)

lemma no_faults: "matcher_faults w m = [] \<longleftrightarrow> valid_matcher w m" "sync_faults e = [] \<longleftrightarrow> valid_sync e"
  "rule_faults w r = [] \<longleftrightarrow> valid_rule w r"
  by (auto simp: matcher_faults_def valid_matcher_def sync_faults_def valid_sync_def rule_faults_def valid_rule_def
      split: sum.splits)

lemma Load_io: "(\<And>c. c = CallReadFile path \<Longrightarrow> P c) \<Longrightarrow> io_only P (Load w yaml path)"
  unfolding Load_def by (intro call_rules) simp

lemma Load_ok:
  assumes "run_state (Load w yaml path) s = ((cfg, None), s')"
  shows "wf_config w cfg"
  using assms
  by (auto simp: Load_def wf_config_def Config_Validate_def validate_rules_iff
      defaults_set_ApplyDefaults split: sum.splits)

text \<open>Claim C34. A configuration that \<open>Load\<close> returns without an error is well formed: every field
  with a default is set, there is a rule, every rule has a name, the regular expressions of its
  matchers compile and its sync entries have both paths and one of the known modes.\<close>

theorem Load_wf:
  assumes "run_state (Load w yaml path) s = ((cfg, None), s')"
  shows "wf_config w cfg"
  using assms by (rule Load_ok)

theorem Load_wf_witness:
  "wf_config offline_world (ApplyDefaults Default) \<and>
   fst (run_state (Load (offline_world\<lparr>w_ReadFile := \<lambda>_ _. Inr []\<rparr>) (\<lambda>_ c. Inr c) ''config.yaml'')
     \<lparr>hist = []\<rparr>) = (ApplyDefaults Default, None)"
proof -
  let ?w = "offline_world\<lparr>w_ReadFile := \<lambda>_ _. Inr []\<rparr>"
  have run: "run_state (Load ?w (\<lambda>_ c. Inr c) ''config.yaml'') \<lparr>hist = []\<rparr> =
      ((ApplyDefaults Default, None), \<lparr>hist = [CallReadFile ''config.yaml'']\<rparr>)"
    by (simp add: Load_def Config_Validate_def Default_def ApplyDefaults_def named_rule_def default_name_def
        Matcher_Validate_def empty_match_def empty_matcher_def or_default_def)
  have "wf_config ?w (ApplyDefaults Default)" using Load_wf[OF run] .
  then show ?thesis
    unfolding run by (simp add: wf_config_def valid_rule_def valid_matcher_def)
qed

text \<open>\<open>ApplyDefaults\<close> is idempotent, changes nothing exactly when every defaulted field is
  set, and \<open>Default\<close> is one of its fixed points.\<close>

theorem ApplyDefaults_idempotent:
  "ApplyDefaults (ApplyDefaults c) = ApplyDefaults c \<and>
   (ApplyDefaults c = c \<longleftrightarrow> defaults_set c) \<and> ApplyDefaults Default = Default"
  by (metis ApplyDefaults_id defaults_set_ApplyDefaults defaults_set_Default)

text \<open>Claim C35. \<open>Validate\<close> reports the first fault of the rules in the order of the document, and it accepts a
  configuration exactly when every expression compiles and every sync entry has both paths and
  the mode \<open>push\<close>, \<open>pull\<close>, \<open>two-way\<close> or none.\<close>

theorem Config_Validate_iff:
  "Config_Validate w c = first_of (config_faults w c) \<and>
   (Config_Validate w c = None) = list_all (valid_rule w) (cfg_Rules c)"
proof -
  have "Config_Validate w c = first_of (config_faults w c)"
    by (simp add: Config_Validate_def config_faults_def first_rule_fault)
  moreover have "first_of xs = None \<longleftrightarrow> xs = []" for xs :: "string list" by (cases xs) simp_all
  moreover have "config_faults w c = [] \<longleftrightarrow> list_all (\<lambda>r. rule_faults w r = []) (cfg_Rules c)"
    by (simp add: config_faults_def list_all_iff)
  ultimately show ?thesis by (simp add: no_faults(3))
qed

text \<open>A matcher accepts a value exactly when each of its criteria that is set accepts it;
  a glob or a regular expression that cannot be evaluated accepts nothing.\<close>

theorem Matcher_Match_iff:
  "Matcher_Match w m v =
     ((mt_Literal m = [] \<or> v = mt_Literal m) \<and>
      (mt_Glob m = [] \<or> w_PathMatch w (mt_Glob m) v = Inr True) \<and>
      (mt_Regex m = [] \<or> (\<exists>f. w_Regexp w (mt_Regex m) = Inr f \<and> f v)))"
  by (auto simp: Matcher_Match_def Matcher_Empty_def ok_true_def regexp_MatchString_def split: sum.splits)

end
