(* ===== verification/Model.thy ===== *)
theory Model
  imports Config
begin

text \<open>
  The package \<open>internal/model\<close>: the records the components exchange. A time is a number of
  nanoseconds since Go's zero time, so the zero \<open>time.Time\<close> is 0.
\<close>

text \<open>The metadata of a container: a slice of maps, of which each may be nil, as the slice itself.\<close>

type_synonym metadata_map = "(string, json) gomap option"
type_synonym metadata = "metadata_map list option"

record T3Status =
  t3_Enabled :: bool
  t3_EnvironmentID :: string
  t3_HTTPBaseURL :: string
  t3_WSBaseURL :: string
  t3_Status :: string
  t3_Error :: string
  t3_BackendURL :: string
  t3_BackendToken :: string
  t3_LastProbe :: int

record SyncSummary =
  sum_Enabled :: bool
  sum_Status :: string
  sum_Sessions :: int
  sum_Error :: string

record Container =
  ctr_ID :: string
  ctr_ShortID :: string
  ctr_Name :: string
  ctr_Image :: string
  ctr_Labels :: "labels option"
  ctr_Status :: string
  ctr_Running :: bool
  ctr_LocalFolder :: string
  ctr_ConfigFile :: string
  ctr_WorkspaceFolder :: string
  ctr_Metadata :: metadata
  ctr_ComposeService :: string
  ctr_ContainerUser :: string
  ctr_ContainerHome :: string
  ctr_UserSource :: string
  ctr_RuleName :: string
  ctr_Rule :: "Rule option"
  ctr_LastSeen :: int
  ctr_ContainerIP :: string
  ctr_T3 :: T3Status
  ctr_Sync :: SyncSummary
  ctr_DiscoveryReasons :: "string list"
  ctr_Warnings :: "string list"

record Environment =
  env_ID :: string
  env_ContainerID :: string
  env_Name :: string
  env_HTTPBaseURL :: string
  env_WSBaseURL :: string
  env_Status :: string
  env_Error :: string
  env_LastProbe :: int

record Session =
  ses_ID :: string
  ses_Name :: string
  ses_ContainerID :: string
  ses_Rule :: string
  ses_SyncIndex :: int
  ses_Mode :: string
  ses_Alpha :: string
  ses_Beta :: string
  ses_Status :: string
  ses_Error :: string
  ses_Labels :: labels
  ses_Desired :: bool

definition empty_t3 :: T3Status where
  "empty_t3 = \<lparr>t3_Enabled = False, t3_EnvironmentID = [], t3_HTTPBaseURL = [], t3_WSBaseURL = [],
     t3_Status = [], t3_Error = [], t3_BackendURL = [], t3_BackendToken = [], t3_LastProbe = 0\<rparr>"

definition empty_summary :: SyncSummary where
  "empty_summary = \<lparr>sum_Enabled = False, sum_Status = [], sum_Sessions = 0, sum_Error = []\<rparr>"

end
