(* ===== verification/Mutagen.thy ===== *)
theory Mutagen
  imports Model
begin

text \<open>
  The Mutagen client of \<open>internal/syncx/mutagen.go\<close>: the gRPC connection and its life cycle
  (connect once, verify the daemon's version, drop the connection after a failed call), the
  session operations, and the translation of a session and its configuration into a creation
  specification. The daemon and Mutagen's own packages are the world's. The mutex of the
  client guards only \<open>ensureConnected\<close> and \<open>reset\<close>, so the stubs \<open>sync\<close> and \<open>prompt\<close> are
  fields that can be nil when a call uses them, and using a nil one is a panic.
\<close>

section \<open>State\<close>

record mutagen_client =
  mc_conn :: "pointer option"
  mc_sync :: "pointer option"
  mc_prompt :: "pointer option"

record mut_state = io_state +
  ms_client :: mutagen_client

record liveSession =
  ls_ID :: string
  ls_Name :: string
  ls_Status :: string

definition newMutagenClient :: mutagen_client where
  "newMutagenClient = \<lparr>mc_conn = None, mc_sync = None, mc_prompt = None\<rparr>"

definition labelOwned :: string where "labelOwned = ''devcontainer-manager/owned''"
definition labelContainer :: string where "labelContainer = ''devcontainer-manager/container-id''"
definition labelRule :: string where "labelRule = ''devcontainer-manager/rule''"
definition labelSyncIndex :: string where "labelSyncIndex = ''devcontainer-manager/sync-index''"

definition get_client :: "('z mut_state_scheme, mutagen_client) state" where
  "get_client = State (\<lambda>s. (ms_client s, s))"

definition put_client :: "mutagen_client \<Rightarrow> ('z mut_state_scheme, unit) state" where
  "put_client c = State (\<lambda>s. ((), s\<lparr>ms_client := c\<rparr>))"

lemma run_client [simp]:
  "run_state get_client s = (ms_client s, s)"
  "run_state (put_client c) s = ((), s\<lparr>ms_client := c\<rparr>)"
  by (simp_all add: get_client_def put_client_def)

section \<open>The connection\<close>

definition show_version :: "version \<Rightarrow> string" where
  "show_version v = Itoa (int (ver_Major v)) @ ''.'' @ Itoa (int (ver_Minor v)) @ ''.'' @
     Itoa (int (ver_Patch v)) @ ver_Tag v"

definition verifyDaemonVersion :: "world \<Rightarrow> pointer \<Rightarrow> ('z io_state_scheme, string option) state" where
  "verifyDaemonVersion w conn = do {
     response \<leftarrow> ask (\<lambda>h. w_Version w h conn) (CallVersion conn);
     State_Monad.return (case response of
       Inl err \<Rightarrow> Some (''unable to query daemon version: '' @ err)
     | Inr v \<Rightarrow>
         if ver_Major v \<noteq> ver_Major (w_client_version w) \<or> ver_Minor v \<noteq> ver_Minor (w_client_version w) \<or>
            ver_Patch v \<noteq> ver_Patch (w_client_version w) \<or> ver_Tag v \<noteq> ver_Tag (w_client_version w)
         then Some (''client/daemon version mismatch: client='' @ show_version (w_client_version w) @
                    '' daemon='' @ show_version v)
         else None)
   }"

definition ensureConnected :: "world \<Rightarrow> ('z mut_state_scheme, string option) state" where
  "ensureConnected w = do {
     c \<leftarrow> get_client;
     if mc_conn c \<noteq> None then State_Monad.return None
     else do {
       endpoint \<leftarrow> ask (w_EndpointPath w) CallEndpointPath;
       case endpoint of Inl err \<Rightarrow> State_Monad.return (Some (''unable to compute daemon endpoint path: '' @ err))
       | Inr ep \<Rightarrow> do {
           dialed \<leftarrow> ask (\<lambda>h. w_Dial w h ep) (CallDial ep);
           case dialed of Inl err \<Rightarrow> State_Monad.return (Some err)
           | Inr conn \<Rightarrow> do {
               bad \<leftarrow> verifyDaemonVersion w conn;
               case bad of
                 Some err \<Rightarrow> do {
                   _ \<leftarrow> ask (\<lambda>_. ()) (CallCloseConn conn);
                   State_Monad.return (Some err)
                 }
               | None \<Rightarrow> do {
                   put_client \<lparr>mc_conn = Some conn, mc_sync = Some conn, mc_prompt = Some conn\<rparr>;
                   State_Monad.return None
                 }
             }
         }
     }
   }"

definition reset :: "('z mut_state_scheme, unit) state" where
  "reset = do {
     c \<leftarrow> get_client;
     (case mc_conn c of None \<Rightarrow> State_Monad.return () | Some conn \<Rightarrow> ask (\<lambda>_. ()) (CallCloseConn conn));
     put_client \<lparr>mc_conn = None, mc_sync = None, mc_prompt = None\<rparr>
   }"

section \<open>Listing\<close>

definition mutagenStatus :: "mutagen_state option \<Rightarrow> string" where
  "mutagenStatus st = (case st of None \<Rightarrow> ''unknown''
   | Some state \<Rightarrow> (case mst_Session state of None \<Rightarrow> ''unknown''
     | Some session \<Rightarrow>
         if ms_Paused session then ''paused''
         else if mst_LastError state \<noteq> [] then ''error''
         else (case mst_Status state of
             Status_Watching \<Rightarrow> ''ready''
           | Status_Disconnected \<Rightarrow> ''disconnected''
           | Status_Other name \<Rightarrow> ToLower (ReplaceAll (TrimPrefix name ''Status_'') ''_'' ''-''))))"

definition live_entry :: "mutagen_state \<Rightarrow> liveSession option" where
  "live_entry state = (case mst_Session state of None \<Rightarrow> None
   | Some session \<Rightarrow> Some \<lparr>ls_ID = ms_Identifier session,
       ls_Name = (if ms_Name session = [] then ms_Identifier session else ms_Name session),
       ls_Status = mutagenStatus (Some state)\<rparr>)"

fun live_map :: "mutagen_state list \<Rightarrow> (string, liveSession) gomap \<Rightarrow> (string, liveSession) gomap" where
  "live_map [] live = live"
| "live_map (state # states) live =
     (case live_entry state of
        None \<Rightarrow> live_map states live
      | Some session \<Rightarrow> live_map states (AList.update (ls_Name session) session live))"

text \<open>
  \<open>listOwned\<close> is \<open>ensureConnected\<close> and then a request that reads the field \<open>sync\<close> without
  holding the mutex: the two halves are separate steps of the goroutine.
\<close>

definition list_request :: "world \<Rightarrow> ('z mut_state_scheme, (string, liveSession) gomap res go) state" where
  "list_request w = do {
     c \<leftarrow> get_client;
     case mc_sync c of None \<Rightarrow> State_Monad.return (Inl NilDereference)
     | Some stub \<Rightarrow> do {
         response \<leftarrow> ask (\<lambda>h. w_SyncList w h (labelOwned @ ''=true'')) (CallSyncList stub (labelOwned @ ''=true''));
         case response of
           RpcError e \<Rightarrow> do { reset; State_Monad.return (Inr (Inl e)) }
         | RpcInvalid e \<Rightarrow> State_Monad.return (Inr (Inl e))
         | RpcOk states \<Rightarrow> State_Monad.return (Inr (Inr (live_map states [])))
       }
   }"

definition listOwned :: "world \<Rightarrow> ('z mut_state_scheme, (string, liveSession) gomap res go) state" where
  "listOwned w = do {
     err \<leftarrow> ensureConnected w;
     case err of Some e \<Rightarrow> State_Monad.return (Inr (Inl e)) | None \<Rightarrow> list_request w
   }"

section \<open>The creation specification\<close>

definition mutagenMode :: "string \<Rightarrow> bool \<Rightarrow> string" where
  "mutagenMode mode replica =
     (if mode = ''push'' \<or> mode = ''pull'' then (if replica then ''one-way-replica'' else ''one-way-safe'')
      else if mode = ''two-way'' \<and> replica then ''two-way-resolved''
      else ''two-way-safe'')"

definition synchronizationMode :: "world \<Rightarrow> string \<Rightarrow> bool \<Rightarrow> int res" where
  "synchronizationMode w mode replica = w_UnmarshalMode w (mutagenMode mode replica)"

definition parseFilesystemMode :: "world \<Rightarrow> string \<Rightarrow> 32 word res" where
  "parseFilesystemMode w v = (if v = [] then Inr 0 else w_UnmarshalFileMode w v)"

definition effective_ignore_vcs :: "SyncEntry \<Rightarrow> SyncDefaults \<Rightarrow> bool" where
  "effective_ignore_vcs e d = (case se_IgnoreVCS e of None \<Rightarrow> sd_IgnoreVCS d | Some b \<Rightarrow> b)"

definition effective_permissions :: "SyncEntry \<Rightarrow> SyncDefaults \<Rightarrow> PermissionConfig" where
  "effective_permissions e d = (sd_Permissions d)\<lparr>
     perm_DefaultFileMode := (if perm_DefaultFileMode (se_Permissions e) \<noteq> []
       then perm_DefaultFileMode (se_Permissions e) else perm_DefaultFileMode (sd_Permissions d)),
     perm_DefaultDirectoryMode := (if perm_DefaultDirectoryMode (se_Permissions e) \<noteq> []
       then perm_DefaultDirectoryMode (se_Permissions e) else perm_DefaultDirectoryMode (sd_Permissions d))\<rparr>"

definition prefix_error :: "string \<Rightarrow> 'a res \<Rightarrow> 'a res" where
  "prefix_error p r = (case r of Inl e \<Rightarrow> Inl (p @ e) | Inr a \<Rightarrow> Inr a)"

definition spec_conf :: "SyncEntry \<Rightarrow> SyncDefaults \<Rightarrow> int \<Rightarrow> 32 word \<Rightarrow> 32 word \<Rightarrow> configuration" where
  "spec_conf syncEntry defaults mode fileMode dirMode =
     \<lparr>conf_SynchronizationMode = mode,
      conf_Ignores = sd_Ignores defaults @ se_Ignores syncEntry,
      conf_IgnoreVCSMode =
        (if effective_ignore_vcs syncEntry defaults then IgnoreVCSModeIgnore else IgnoreVCSModePropagate),
      conf_DefaultFileMode = fileMode, conf_DefaultDirectoryMode = dirMode\<rparr>"

definition creationSpecification :: "world \<Rightarrow> Session \<Rightarrow> SyncEntry \<Rightarrow> SyncDefaults \<Rightarrow> creation_spec res" where
  "creationSpecification w session syncEntry defaults =
     bind_res (prefix_error ''unable to parse alpha URL: '' (w_ParseURL w (ses_Alpha session) True)) (\<lambda>alpha.
     bind_res (prefix_error ''unable to parse beta URL: '' (w_ParseURL w (ses_Beta session) False)) (\<lambda>beta.
     bind_res (synchronizationMode w (ses_Mode session) (se_Replica syncEntry)) (\<lambda>mode.
     let permissions = effective_permissions syncEntry defaults in
     bind_res (prefix_error ''invalid default file mode: ''
       (parseFilesystemMode w (perm_DefaultFileMode permissions))) (\<lambda>fileMode.
     bind_res (prefix_error ''invalid default directory mode: ''
       (parseFilesystemMode w (perm_DefaultDirectoryMode permissions))) (\<lambda>dirMode.
     let conf = spec_conf syncEntry defaults mode fileMode dirMode in
     case w_EnsureValid w conf of
       Some e \<Rightarrow> Inl (''invalid synchronization configuration: '' @ e)
     | None \<Rightarrow> Inr \<lparr>spec_Alpha = alpha, spec_Beta = beta, spec_Configuration = conf,
                    spec_Name = ses_Name session, spec_Labels = ses_Labels session\<rparr>)))))"

lemma prefix_error_Inr: "prefix_error p r = Inr a \<longleftrightarrow> r = Inr a"
  by (simp add: prefix_error_def split: sum.split)

lemma effective_file_mode:
  "perm_DefaultFileMode (effective_permissions e d) =
     firstNonEmpty [perm_DefaultFileMode (se_Permissions e), perm_DefaultFileMode (sd_Permissions d)]"
  by (simp add: effective_permissions_def)

section \<open>Operations on sessions\<close>

text \<open>
  \<open>hostPrompter\<close> registers the prompter with the daemon; the function it returns cancels it.
  \<open>create\<close>, \<open>pause\<close>, \<open>resume\<close> and \<open>terminate\<close> share the rest: the deferred cancellation
  runs last, after the connection has been dropped when the call failed.
\<close>

definition hostPrompter :: "world \<Rightarrow> bool \<Rightarrow> ('z mut_state_scheme, string res go) state" where
  "hostPrompter w allowPrompts = do {
     c \<leftarrow> get_client;
     case mc_prompt c of None \<Rightarrow> State_Monad.return (Inl NilDereference)
     | Some stub \<Rightarrow> do {
         r \<leftarrow> ask (\<lambda>h. w_HostPrompter w h allowPrompts) (CallHostPrompter stub allowPrompts);
         State_Monad.return (Inr (prefix_error ''unable to host mutagen prompter: '' r))
       }
   }"

definition prompted_call :: "world \<Rightarrow> bool \<Rightarrow> (pointer \<Rightarrow> string \<Rightarrow> ('z mut_state_scheme, unit rpc) state) \<Rightarrow>
    ('z mut_state_scheme, string option go) state" where
  "prompted_call w allowPrompts rpc =
     bind_sum (hostPrompter w allowPrompts) (\<lambda>r. case r of
       Inl err \<Rightarrow> State_Monad.return (Inr (Some err))
     | Inr prompter \<Rightarrow> do {
         c \<leftarrow> get_client;
         case mc_sync c of
           None \<Rightarrow> do { _ \<leftarrow> ask (\<lambda>_. ()) (CallStopPrompter prompter); State_Monad.return (Inl NilDereference) }
         | Some stub \<Rightarrow> do {
             response \<leftarrow> rpc stub prompter;
             (case response of RpcError e \<Rightarrow> reset | _ \<Rightarrow> State_Monad.return ());
             _ \<leftarrow> ask (\<lambda>_. ()) (CallStopPrompter prompter);
             State_Monad.return (Inr (case response of
               RpcError e \<Rightarrow> Some e | RpcInvalid e \<Rightarrow> Some e | RpcOk _ \<Rightarrow> None))
           }
       })"

definition client_create :: "world \<Rightarrow> Session \<Rightarrow> SyncEntry \<Rightarrow> SyncDefaults \<Rightarrow>
    ('z mut_state_scheme, string option go) state" where
  "client_create w session syncEntry defaults = do {
     err \<leftarrow> ensureConnected w;
     case err of Some e \<Rightarrow> State_Monad.return (Inr (Some e))
     | None \<Rightarrow> (case creationSpecification w session syncEntry defaults of
         Inl e \<Rightarrow> State_Monad.return (Inr (Some e))
       | Inr spec \<Rightarrow> prompted_call w True
           (\<lambda>stub prompter. ask (\<lambda>h. w_SyncCreate w h spec) (CallSyncCreate stub prompter spec)))
   }"

definition client_pause :: "world \<Rightarrow> string \<Rightarrow> ('z mut_state_scheme, string option go) state" where
  "client_pause w specification = do {
     err \<leftarrow> ensureConnected w;
     case err of Some e \<Rightarrow> State_Monad.return (Inr (Some e))
     | None \<Rightarrow> prompted_call w False
         (\<lambda>stub prompter. ask (\<lambda>h. w_SyncPause w h specification) (CallSyncPause stub prompter specification))
   }"

definition client_resume :: "world \<Rightarrow> string \<Rightarrow> ('z mut_state_scheme, string option go) state" where
  "client_resume w specification = do {
     err \<leftarrow> ensureConnected w;
     case err of Some e \<Rightarrow> State_Monad.return (Inr (Some e))
     | None \<Rightarrow> prompted_call w True
         (\<lambda>stub prompter. ask (\<lambda>h. w_SyncResume w h specification) (CallSyncResume stub prompter specification))
   }"

definition client_terminate :: "world \<Rightarrow> string \<Rightarrow> ('z mut_state_scheme, string option go) state" where
  "client_terminate w specification = do {
     err \<leftarrow> ensureConnected w;
     case err of Some e \<Rightarrow> State_Monad.return (Inr (Some e))
     | None \<Rightarrow> prompted_call w False
         (\<lambda>stub prompter. ask (\<lambda>h. w_SyncTerminate w h specification) (CallSyncTerminate stub prompter specification))
   }"

text \<open>The prompter that is hosted answers no question.\<close>

definition logPrompter_Prompt :: "string \<Rightarrow> string res" where
  "logPrompter_Prompt message = Inl ''interactive Mutagen prompts are not supported''"

section \<open>The interface the controller uses\<close>

text \<open>
  The methods the controller calls, as a record, and the contract it relies on: from a
  consistent client no method panics, each leaves the client consistent, and each makes, apart
  from connection management and prompting, only calls of its own kind for its own session.
\<close>

record 'st session_client =
  sc_ensureConnected :: "('st, string option) state"
  sc_listOwned :: "('st, (string, liveSession) gomap res go) state"
  sc_create :: "Session \<Rightarrow> SyncEntry \<Rightarrow> SyncDefaults \<Rightarrow> ('st, string option go) state"
  sc_pause :: "string \<Rightarrow> ('st, string option go) state"
  sc_resume :: "string \<Rightarrow> ('st, string option go) state"
  sc_terminate :: "string \<Rightarrow> ('st, string option go) state"

fun connection_call :: "call \<Rightarrow> bool" where
  "connection_call CallEndpointPath = True"
| "connection_call (CallDial _) = True"
| "connection_call (CallVersion _) = True"
| "connection_call (CallCloseConn _) = True"
| "connection_call (CallHostPrompter _ _) = True"
| "connection_call (CallStopPrompter _) = True"
| "connection_call (CallSyncList _ _) = True"
| "connection_call _ = False"

fun creates :: "string \<Rightarrow> call \<Rightarrow> bool" where
  "creates n (CallSyncCreate _ _ spec) \<longleftrightarrow> spec_Name spec = n"
| "creates n c \<longleftrightarrow> connection_call c"

fun pauses :: "string \<Rightarrow> call \<Rightarrow> bool" where
  "pauses n (CallSyncPause _ _ m) \<longleftrightarrow> m = n"
| "pauses n c \<longleftrightarrow> connection_call c"

fun resumes :: "string \<Rightarrow> call \<Rightarrow> bool" where
  "resumes n (CallSyncResume _ _ m) \<longleftrightarrow> m = n"
| "resumes n c \<longleftrightarrow> connection_call c"

fun terminates :: "string \<Rightarrow> call \<Rightarrow> bool" where
  "terminates n (CallSyncTerminate _ _ m) \<longleftrightarrow> m = n"
| "terminates n c \<longleftrightarrow> connection_call c"

locale session_service =
  fixes client :: "('z io_state_scheme) session_client"
    and inv :: "'z io_state_scheme \<Rightarrow> bool"
  assumes inv_hist: "hist_free inv"
    and connect_law: "keeps inv connection_call (\<lambda>_. True) (sc_ensureConnected client)"
    and list_law: "keeps inv connection_call no_panic (sc_listOwned client)"
    and create_law: "keeps inv (creates (ses_Name session)) no_panic (sc_create client session entry defaults)"
    and pause_law: "keeps inv (pauses n) no_panic (sc_pause client n)"
    and resume_law: "keeps inv (resumes n) no_panic (sc_resume client n)"
    and terminate_law: "keeps inv (terminates n) no_panic (sc_terminate client n)"

section \<open>The client satisfies the contract\<close>

definition client_ok :: "mutagen_client \<Rightarrow> bool" where
  "client_ok c \<longleftrightarrow> mc_sync c = mc_conn c \<and> mc_prompt c = mc_conn c"

definition mut_inv :: "'z mut_state_scheme \<Rightarrow> bool" where
  "mut_inv s \<longleftrightarrow> client_ok (ms_client s)"

definition connected_inv :: "'z mut_state_scheme \<Rightarrow> bool" where
  "connected_inv s \<longleftrightarrow> client_ok (ms_client s) \<and> mc_conn (ms_client s) \<noteq> None"

lemma hist_free_mut [simp]: "hist_free mut_inv"
  by (simp add: hist_free_def mut_inv_def)

lemma verifyDaemonVersion_io [call_rules]:
  "P (CallVersion conn) \<Longrightarrow> io_only P (verifyDaemonVersion w conn)"
  unfolding verifyDaemonVersion_def by (intro call_rules)

lemma mut_update_comm [simp]:
  "ms_client (s\<lparr>hist := h\<rparr>) = ms_client s" "hist (s\<lparr>ms_client := c\<rparr>) = hist s"
  by simp_all

text \<open>
  \<open>ensureConnected\<close> step by step: what it returns, what it leaves, which calls it made.
\<close>

lemma ensureConnected_run:
  assumes "run_state (ensureConnected w) s = (r, s')" "mut_inv s"
  shows "mut_inv s' \<and> (r = None \<longrightarrow> connected_inv s') \<and>
    (\<exists>new. hist s' = new @ hist s \<and> list_all connection_call new)"
proof (cases "mc_conn (ms_client s)")
  case (Some p)
  then show ?thesis
    using assms by (auto simp: ensureConnected_def mut_inv_def connected_inv_def)
next
  case None
  with assms show ?thesis
    by (auto simp: ensureConnected_def verifyDaemonVersion_def mut_inv_def connected_inv_def client_ok_def
        split: sum.splits option.splits if_splits)
qed

lemma connected_mut: "connected_inv s \<Longrightarrow> mut_inv s"
  by (simp add: connected_inv_def mut_inv_def)

lemma reset_run:
  assumes "run_state reset s = (r, s')"
  shows "mut_inv s' \<and> (\<exists>new. hist s' = new @ hist s \<and> list_all connection_call new)"
  using assms by (auto simp: reset_def mut_inv_def client_ok_def split: option.splits)

text \<open>\<open>prompted_call\<close> on a connected client, for a call that touches nothing but the history.\<close>

lemma prompted_call_run:
  assumes run: "run_state (prompted_call w allow rpc) s = (r, s')" and inv: "connected_inv s"
    and rpc: "\<And>stub prompter. io_only P (rpc stub prompter)"
    and P: "\<And>c. connection_call c \<Longrightarrow> P c"
  shows "mut_inv s' \<and> no_panic r \<and> (\<exists>new. hist s' = new @ hist s \<and> list_all P new)"
proof -
  obtain p where p: "mc_prompt (ms_client s) = Some p" "mc_sync (ms_client s) = Some p"
    using inv by (auto simp: connected_inv_def client_ok_def)
  let ?hp = "CallHostPrompter p allow"
  show ?thesis
  proof (cases "w_HostPrompter w (hist s) allow")
    case (Inl e)
    with run p inv P show ?thesis
      by (auto simp: prompted_call_def hostPrompter_def prefix_error_def mut_inv_def connected_inv_def
          intro!: exI[of _ "[?hp]"])
  next
    case (Inr prompter)
    obtain resp s1 where r1: "run_state (rpc p prompter) (s\<lparr>hist := ?hp # hist s\<rparr>) = (resp, s1)"
      by (metis prod.exhaust)
    obtain n1 where n1: "s1 = s\<lparr>hist := n1 @ ?hp # hist s\<rparr>" "list_all P n1"
      by (rule io_runE[OF r1 rpc]) simp
    have inv1: "mut_inv s1" using inv n1(1) by (simp add: mut_inv_def connected_inv_def)
    obtain u s2 where r2: "run_state (case resp of RpcError e \<Rightarrow> reset | _ \<Rightarrow> State_Monad.return ()) s1 = (u, s2)"
      by (metis prod.exhaust)
    obtain n2 where n2: "mut_inv s2" "hist s2 = n2 @ hist s1" "list_all connection_call n2"
      using r2 inv1 reset_run[of s1 u s2] by (cases resp) auto
    have "s' = s2\<lparr>hist := CallStopPrompter prompter # hist s2\<rparr>" "no_panic r"
      using run p Inr r1 r2 by (auto simp: prompted_call_def hostPrompter_def prefix_error_def n1(1))
    then show ?thesis
      using n1 n2 P
      by (auto simp: mut_inv_def list_all_iff intro!: exI[of _ "CallStopPrompter prompter # n2 @ n1 @ [?hp]"])
  qed
qed

text \<open>The shape of the four session operations.\<close>

lemma session_op_keeps:
  assumes rpc: "\<And>stub prompter. io_only P (rpc stub prompter)"
    and P: "\<And>c. connection_call c \<Longrightarrow> P c"
  shows "keeps mut_inv P no_panic (do {
      err \<leftarrow> ensureConnected w;
      case err of Some e \<Rightarrow> State_Monad.return (Inr (Some e)) | None \<Rightarrow> prompted_call w allow rpc})"
  unfolding keeps_def
proof (intro allI impI)
  fix s :: "'a mut_state_scheme" assume inv: "mut_inv s"
  let ?m = "State_Monad.bind (ensureConnected w) (\<lambda>err. case err of Some e \<Rightarrow> State_Monad.return (Inr (Some e))
      | None \<Rightarrow> prompted_call w allow rpc)"
  obtain err s1 where 1: "run_state (ensureConnected w) s = (err, s1)" by (metis prod.exhaust)
  obtain n1 where n1: "mut_inv s1" "err = None \<longrightarrow> connected_inv s1" "hist s1 = n1 @ hist s"
    "list_all connection_call n1"
    using ensureConnected_run[OF 1 inv] by blast
  then have P1: "list_all P n1" using P by (simp add: list_all_iff)
  show "mut_inv (snd (run_state ?m s)) \<and> no_panic (fst (run_state ?m s)) \<and>
      (\<exists>new. hist (snd (run_state ?m s)) = new @ hist s \<and> list_all P new)"
  proof (cases err)
    case (Some e)
    then show ?thesis using 1 n1 P1 by simp
  next
    case None
    obtain r s2 where 2: "run_state (prompted_call w allow rpc) s1 = (r, s2)" by (metis prod.exhaust)
    obtain n2 where n2: "mut_inv s2" "no_panic r" "hist s2 = n2 @ hist s1" "list_all P n2"
      using prompted_call_run[OF 2 _ rpc P] n1(2) None by blast
    have "run_state ?m s = (r, s2)" using 1 2 None by simp
    then show ?thesis using n1(3) n2 P1 by simp
  qed
qed

lemma connection_call_in:
  "connection_call c \<Longrightarrow> creates n c" "connection_call c \<Longrightarrow> pauses n c"
  "connection_call c \<Longrightarrow> resumes n c" "connection_call c \<Longrightarrow> terminates n c"
  by (cases c; simp)+

lemma client_pause_keeps: "keeps mut_inv (pauses n) no_panic (client_pause w n)"
  unfolding client_pause_def by (rule session_op_keeps) (auto intro: call_rules connection_call_in)

lemma client_resume_keeps: "keeps mut_inv (resumes n) no_panic (client_resume w n)"
  unfolding client_resume_def by (rule session_op_keeps) (auto intro: call_rules connection_call_in)

lemma client_terminate_keeps: "keeps mut_inv (terminates n) no_panic (client_terminate w n)"
  unfolding client_terminate_def by (rule session_op_keeps) (auto intro: call_rules connection_call_in)

lemma creationSpecification_name:
  "creationSpecification w session e d = Inr spec \<Longrightarrow>
     spec_Name spec = ses_Name session \<and> spec_Labels spec = ses_Labels session"
  by (auto simp: creationSpecification_def bind_res_Inr Let_def split: option.splits)

lemma ensureConnected_keeps: "keeps mut_inv connection_call (\<lambda>_. True) (ensureConnected w)"
  unfolding keeps_def using ensureConnected_run by (metis prod.collapse)

lemma client_create_keeps: "keeps mut_inv (creates (ses_Name session)) no_panic (client_create w session e d)"
proof (cases "creationSpecification w session e d")
  case (Inl err)
  have "keeps mut_inv (creates (ses_Name session)) (\<lambda>_. True) (ensureConnected w)"
    by (rule keeps_mono[OF ensureConnected_keeps]) (auto intro: connection_call_in)
  then show ?thesis
    unfolding client_create_def Inl
    by (rule keeps_bind) (auto intro!: keeps_return split: option.split)
next
  case (Inr spec)
  have "io_only (creates (ses_Name session)) (ask (\<lambda>h. w_SyncCreate w h spec) (CallSyncCreate stub prompter spec))"
    for stub prompter using creationSpecification_name[OF Inr] by (intro io_only_ask) simp
  then show ?thesis
    unfolding client_create_def Inr sum.case by (intro session_op_keeps) (auto intro: connection_call_in)
qed

lemma listOwned_keeps: "keeps mut_inv connection_call no_panic (listOwned w)"
  unfolding keeps_def
proof (intro allI impI)
  fix s :: "'a mut_state_scheme" assume inv: "mut_inv s"
  obtain err s1 where 1: "run_state (ensureConnected w) s = (err, s1)" by (metis prod.exhaust)
  obtain n1 where n1: "mut_inv s1" "err = None \<longrightarrow> connected_inv s1" "hist s1 = n1 @ hist s"
    "list_all connection_call n1"
    using ensureConnected_run[OF 1 inv] by blast
  show "mut_inv (snd (run_state (listOwned w) s)) \<and> no_panic (fst (run_state (listOwned w) s)) \<and>
      (\<exists>new. hist (snd (run_state (listOwned w) s)) = new @ hist s \<and> list_all connection_call new)"
  proof (cases err)
    case (Some e)
    then show ?thesis using 1 n1 by (simp add: listOwned_def)
  next
    case None
    then obtain p where p: "mc_sync (ms_client s1) = Some p"
      using n1(2) by (auto simp: connected_inv_def client_ok_def)
    let ?c = "CallSyncList p (labelOwned @ ''=true'')"
    obtain u s2 where 2: "run_state reset (s1\<lparr>hist := ?c # hist s1\<rparr>) = (u, s2)" by (metis prod.exhaust)
    obtain n2 where n2: "mut_inv s2" "hist s2 = n2 @ ?c # hist s1" "list_all connection_call n2"
      using reset_run[OF 2] by auto
    show ?thesis
      using 1 None p 2 n1 n2
      by (cases "w_SyncList w (hist s1) (labelOwned @ ''=true'')") (auto simp: listOwned_def list_request_def mut_inv_def)
  qed
qed

definition mutagen_service :: "world \<Rightarrow> ('z mut_state_scheme) session_client" where
  "mutagen_service w = \<lparr>sc_ensureConnected = ensureConnected w, sc_listOwned = listOwned w,
     sc_create = client_create w, sc_pause = client_pause w, sc_resume = client_resume w,
     sc_terminate = client_terminate w\<rparr>"

interpretation mutagen: session_service "mutagen_service w" mut_inv
  by unfold_locales
    (simp_all add: mutagen_service_def ensureConnected_keeps listOwned_keeps client_create_keeps
      client_pause_keeps client_resume_keeps client_terminate_keeps)


section \<open>Properties\<close>

text \<open>A daemon that accepts everything, for the examples.\<close>

definition daemon_world :: world where
  "daemon_world = offline_world\<lparr>w_EndpointPath := \<lambda>_. Inr ''/run/mutagen.sock'', w_Dial := \<lambda>_ _. Inr 7,
     w_Version := \<lambda>_ _. Inr (w_client_version offline_world), w_SyncList := \<lambda>_ _. RpcOk [],
     w_HostPrompter := \<lambda>_ _. Inr ''prompter'', w_SyncCreate := \<lambda>_ _. RpcOk (), w_SyncPause := \<lambda>_ _. RpcOk (),
     w_SyncResume := \<lambda>_ _. RpcOk (), w_SyncTerminate := \<lambda>_ _. RpcOk ()\<rparr>"

definition mut_start :: mut_state where
  "mut_start = \<lparr>hist = [], ms_client = newMutagenClient\<rparr>"

text \<open>A client that was not connected becomes connected only to a daemon that reported
  exactly the client's own version.\<close>

theorem ensureConnected_version:
  assumes "run_state (ensureConnected w) s = (None, s')" and "mc_conn (ms_client s) = None"
  shows "\<exists>conn h. ms_client s' = \<lparr>mc_conn = Some conn, mc_sync = Some conn, mc_prompt = Some conn\<rparr> \<and>
    w_Version w h conn = Inr (w_client_version w)"
  using assms
  by (auto simp: ensureConnected_def verifyDaemonVersion_def intro: version.equality
      split: sum.splits option.splits if_splits)
    (metis (full_types) old.unit.exhaust version.surjective)

theorem ensureConnected_version_witness:
  "mc_conn (ms_client (snd (run_state (ensureConnected daemon_world) mut_start))) = Some 7"
proof -
  let ?r = "run_state (ensureConnected daemon_world) mut_start"
  have run: "?r = (None, snd ?r)"
    by (simp add: ensureConnected_def verifyDaemonVersion_def daemon_world_def mut_start_def newMutagenClient_def)
  have "mc_conn (ms_client mut_start) = None" by (simp add: mut_start_def newMutagenClient_def)
  from ensureConnected_version[OF run this] show ?thesis
    by (simp add: ensureConnected_def verifyDaemonVersion_def daemon_world_def mut_start_def newMutagenClient_def)
qed

text \<open>From a consistent client no operation on sessions panics, each one leaves the client
  consistent, and each makes, apart from connecting and prompting, only calls of its own kind for
  the session it was given; listing makes none.\<close>

theorem session_operations_safe:
  "keeps mut_inv (creates (ses_Name session)) no_panic (client_create w session entry defaults) \<and>
   keeps mut_inv (pauses n) no_panic (client_pause w n) \<and>
   keeps mut_inv (resumes n) no_panic (client_resume w n) \<and>
   keeps mut_inv (terminates n) no_panic (client_terminate w n) \<and>
   keeps mut_inv connection_call no_panic (listOwned w)"
  using mutagen.create_law mutagen.pause_law mutagen.resume_law mutagen.terminate_law mutagen.list_law
  unfolding mutagen_service_def session_client.select_convs by blast

text \<open>A creation specification that is produced combines the defaults with the entry: the
  entry's own settings win where it has any, ignores are concatenated, defaults first, both URLs
  parsed, and the mode is the one the direction and the replica flag select.\<close>

theorem creationSpecification_ok:
  assumes "creationSpecification w session e d = Inr spec"
  shows "spec_Name spec = ses_Name session \<and> spec_Labels spec = ses_Labels session \<and>
    w_ParseURL w (ses_Alpha session) True = Inr (spec_Alpha spec) \<and>
    w_ParseURL w (ses_Beta session) False = Inr (spec_Beta spec) \<and>
    w_UnmarshalMode w (mutagenMode (ses_Mode session) (se_Replica e)) =
      Inr (conf_SynchronizationMode (spec_Configuration spec)) \<and>
    conf_Ignores (spec_Configuration spec) = sd_Ignores d @ se_Ignores e \<and>
    (conf_IgnoreVCSMode (spec_Configuration spec) = IgnoreVCSModeIgnore) =
      (case se_IgnoreVCS e of None \<Rightarrow> sd_IgnoreVCS d | Some b \<Rightarrow> b) \<and>
    parseFilesystemMode w (firstNonEmpty [perm_DefaultFileMode (se_Permissions e),
        perm_DefaultFileMode (sd_Permissions d)]) = Inr (conf_DefaultFileMode (spec_Configuration spec)) \<and>
    w_EnsureValid w (spec_Configuration spec) = None"
proof -
  note [simp] = bind_res_Inr prefix_error_Inr
  from assms obtain alpha beta mode fm dm where
    "w_ParseURL w (ses_Alpha session) True = Inr alpha" "w_ParseURL w (ses_Beta session) False = Inr beta"
    "synchronizationMode w (ses_Mode session) (se_Replica e) = Inr mode"
    "parseFilesystemMode w (perm_DefaultFileMode (effective_permissions e d)) = Inr fm"
    and spec: "(case w_EnsureValid w (spec_conf e d mode fm dm) of
        Some err \<Rightarrow> Inl (''invalid synchronization configuration: '' @ err)
      | None \<Rightarrow> Inr \<lparr>spec_Alpha = alpha, spec_Beta = beta, spec_Configuration = spec_conf e d mode fm dm,
                     spec_Name = ses_Name session, spec_Labels = ses_Labels session\<rparr>) = Inr spec"
    unfolding creationSpecification_def Let_def by (simp del: sum.case_cong) blast
  moreover have "w_EnsureValid w (spec_conf e d mode fm dm) = None"
    using spec by (cases "w_EnsureValid w (spec_conf e d mode fm dm)") simp_all
  moreover from this have "spec = \<lparr>spec_Alpha = alpha, spec_Beta = beta, spec_Configuration = spec_conf e d mode fm dm,
      spec_Name = ses_Name session, spec_Labels = ses_Labels session\<rparr>"
    using spec by simp
  ultimately show ?thesis
    unfolding effective_file_mode
    by (simp add: spec_conf_def synchronizationMode_def effective_ignore_vcs_def del: firstNonEmpty.simps)
qed

theorem creationSpecification_ok_witness:
  "\<exists>spec. creationSpecification offline_world
     \<lparr>ses_ID = ''dcm-test'', ses_Name = ''dcm-test'', ses_ContainerID = [], ses_Rule = [], ses_SyncIndex = 0,
      ses_Mode = ''push'', ses_Alpha = ''/sync/gitconfig'', ses_Beta = ''docker://vscode@abc/home'',
      ses_Status = [], ses_Error = [], ses_Labels = [], ses_Desired = True\<rparr>
     \<lparr>se_Mode = ''push'', se_Manager = ''/sync'', se_Container = ''/home'', se_Replica = False, se_IgnoreVCS = None,
      se_Ignores = [''*.o''], se_Permissions = \<lparr>perm_DefaultFileMode = [], perm_DefaultDirectoryMode = []\<rparr>\<rparr>
     (sync_Defaults (cfg_Sync Default)) = Inr spec \<and>
     conf_Ignores (spec_Configuration spec) = [''.DS_Store'', ''*.o'']"
  (is "\<exists>spec. creationSpecification ?w ?s ?e ?d = Inr spec \<and> _")
proof -
  obtain spec where run: "creationSpecification ?w ?s ?e ?d = Inr spec"
    by (simp add: creationSpecification_def offline_world_def prefix_error_def synchronizationMode_def
        parseFilesystemMode_def Let_def)
  show ?thesis
    using creationSpecification_ok[OF run] run by (intro exI[of _ spec]) (simp add: Default_def)
qed

end
