(* ===== verification/TokenStore.thy ===== *)
theory TokenStore
  imports Mutagen
begin

text \<open>
  The gateway's memory of pairing codes and browser tokens (the maps \<open>pairing\<close> and
  \<open>browserAuth\<close> of \<open>internal/t3/gateway.go\<close>) and the store behind it: the interface
  \<open>BrowserTokenStore\<close> of \<open>internal/t3/token_store.go\<close> as a record of operations with a
  contract, and \<open>PostgresPairingTokenStore\<close>, its implementation over one table. The database
  is modelled as far as the statements of the program go: the rows of the table by primary
  key, with the effect of each statement. Whether a statement is done, fails, or is done while
  its answer is lost is the world's choice.
\<close>

section \<open>State\<close>

record pairingCode =
  pc_Code :: string
  pc_EnvID :: string
  pc_ExpiresAt :: int

record browserToken =
  bt_Token :: string
  bt_EnvID :: string
  bt_ExpiresAt :: int

definition empty_browserToken :: browserToken where
  "empty_browserToken = \<lparr>bt_Token = [], bt_EnvID = [], bt_ExpiresAt = 0\<rparr>"

record gw_state = mut_state +
  gw_pairing :: "(string, pairingCode) gomap"
  gw_browserAuth :: "(string, browserToken) gomap"

section \<open>The interface\<close>

text \<open>\<open>nil\<close> errors are \<open>None\<close>; \<open>Get\<close> returns the token and whether there is one.\<close>

record 's token_store =
  ts_Save :: "string \<Rightarrow> string \<Rightarrow> int \<Rightarrow> ('s, string option) state"
  ts_Get :: "string \<Rightarrow> ('s, (browserToken \<times> bool) res) state"
  ts_Delete :: "string \<Rightarrow> ('s, string option) state"

fun db_call :: "call \<Rightarrow> bool" where
  "db_call (CallDb _) = True"
| "db_call _ = False"

text \<open>An operation of a store leaves the gateway's own state alone.\<close>

definition gw_frame :: "'z gw_state_scheme \<Rightarrow> 'z gw_state_scheme \<Rightarrow> bool" where
  "gw_frame s s' \<longleftrightarrow> ms_client s' = ms_client s \<and> gw_pairing s' = gw_pairing s \<and>
     gw_browserAuth s' = gw_browserAuth s \<and> (\<exists>new. hist s' = new @ hist s \<and> list_all db_call new)"

text \<open>A store may keep an expiry with a coarser clock, but never later and by less than a microsecond.\<close>

definition kept_expiry :: "int \<Rightarrow> int \<Rightarrow> bool" where
  "kept_expiry e e' \<longleftrightarrow> e' \<le> e \<and> e < e' + 1000"

definition token_row :: "string \<Rightarrow> string \<Rightarrow> int \<Rightarrow> browserToken" where
  "token_row i t e = \<lparr>bt_Token = t, bt_EnvID = i, bt_ExpiresAt = e\<rparr>"

text \<open>
  The contract. An operation that reports an error may or may not have been done; one that
  reports success has been. Each key has at most one token.
\<close>

locale browser_token_store =
  fixes store :: "('z gw_state_scheme) token_store"
    and rows :: "'z gw_state_scheme \<Rightarrow> string \<Rightarrow> browserToken option"
  assumes save_law: "run_state (ts_Save store i t e) s = (r, s') \<Longrightarrow> gw_frame s s' \<and>
      ((\<exists>e'. kept_expiry e e' \<and> rows s' = (rows s)(i := Some (token_row i t e'))) \<or>
       (r \<noteq> None \<and> rows s' = rows s))"
    and get_law: "run_state (ts_Get store i) s = (g, s') \<Longrightarrow> gw_frame s s' \<and> rows s' = rows s \<and>
      (case g of Inl _ \<Rightarrow> True | Inr (t, ok) \<Rightarrow> rows s i = (if ok then Some t else None))"
    and delete_law: "run_state (ts_Delete store i) s = (r, s') \<Longrightarrow> gw_frame s s' \<and>
      (rows s' = (rows s)(i := None) \<or> (r \<noteq> None \<and> rows s' = rows s))"
    and rows_hist: "rows (s\<lparr>hist := h\<rparr>) = rows s"
    and rows_pairing: "rows (s\<lparr>gw_pairing := p\<rparr>) = rows s"
    and rows_auth: "rows (s\<lparr>gw_browserAuth := a\<rparr>) = rows s"

section \<open>The Postgres store\<close>

record pg_row =
  row_token :: string
  row_expires_at :: int
  row_issued_at :: int

text \<open>The table \<open>pairing_tokens\<close>, by its primary key \<open>devcontainer_id\<close>.\<close>

type_synonym pg_table = "(string \<times> pg_row) list"

record pg_state = gw_state +
  pg_rows :: pg_table

text \<open>A \<open>TIMESTAMPTZ\<close> counts microseconds.\<close>

definition timestamptz :: "int \<Rightarrow> int" where
  "timestamptz t = t div 1000 * 1000"

text \<open>What a statement does to the table at the database's time \<open>now\<close>.\<close>

fun pg_apply :: "db_stmt \<Rightarrow> int \<Rightarrow> pg_table \<Rightarrow> pg_table" where
  "pg_apply DbCreateTable now rs = rs"
| "pg_apply (DbUpsert i t e) now rs =
     AList.update i \<lparr>row_token = t, row_expires_at = timestamptz e, row_issued_at = now\<rparr> rs"
| "pg_apply (DbSelect i) now rs = rs"
| "pg_apply (DbDelete i) now rs = AList.delete i rs"

definition update_rows :: "(pg_table \<Rightarrow> pg_table) \<Rightarrow> ('z pg_state_scheme, unit) state" where
  "update_rows f = State (\<lambda>s. ((), s\<lparr>pg_rows := f (pg_rows s)\<rparr>))"

definition get_rows :: "('z pg_state_scheme, pg_table) state" where
  "get_rows = State (\<lambda>s. (pg_rows s, s))"

lemma run_rows [simp]:
  "run_state (update_rows f) s = ((), s\<lparr>pg_rows := f (pg_rows s)\<rparr>)"
  "run_state get_rows s = (pg_rows s, s)"
  by (simp_all add: update_rows_def get_rows_def)

text \<open>\<open>pool.Exec\<close>.\<close>

definition pool_Exec :: "world \<Rightarrow> db_stmt \<Rightarrow> ('z pg_state_scheme, string option) state" where
  "pool_Exec w stmt = do {
     outcome \<leftarrow> ask (w_Db w) (CallDb stmt);
     case outcome of
       DbDone now \<Rightarrow> do { update_rows (pg_apply stmt now); State_Monad.return None }
     | DbLost now e \<Rightarrow> do { update_rows (pg_apply stmt now); State_Monad.return (Some e) }
     | DbError e \<Rightarrow> State_Monad.return (Some e)
   }"

definition pg_init :: "world \<Rightarrow> ('z pg_state_scheme, string option) state" where
  "pg_init w = pool_Exec w DbCreateTable"

definition pg_Save :: "world \<Rightarrow> string \<Rightarrow> string \<Rightarrow> int \<Rightarrow> ('z pg_state_scheme, string option) state" where
  "pg_Save w devcontainerID token expiresAt = pool_Exec w (DbUpsert devcontainerID token expiresAt)"

definition pg_Get :: "world \<Rightarrow> string \<Rightarrow> ('z pg_state_scheme, (browserToken \<times> bool) res) state" where
  "pg_Get w devcontainerID = do {
     outcome \<leftarrow> ask (w_Db w) (CallDb (DbSelect devcontainerID));
     rows \<leftarrow> get_rows;
     State_Monad.return (case outcome of
       DbDone now \<Rightarrow> (case map_of rows devcontainerID of
           None \<Rightarrow> Inr (empty_browserToken, False)
         | Some row \<Rightarrow> Inr (\<lparr>bt_Token = row_token row, bt_EnvID = devcontainerID,
                              bt_ExpiresAt = row_expires_at row\<rparr>, True))
     | DbLost now e \<Rightarrow> Inl e
     | DbError e \<Rightarrow> Inl e)
   }"

definition pg_Delete :: "world \<Rightarrow> string \<Rightarrow> ('z pg_state_scheme, string option) state" where
  "pg_Delete w devcontainerID = pool_Exec w (DbDelete devcontainerID)"

definition postgres_store :: "world \<Rightarrow> ('z pg_state_scheme) token_store" where
  "postgres_store w = \<lparr>ts_Save = pg_Save w, ts_Get = pg_Get w, ts_Delete = pg_Delete w\<rparr>"

text \<open>Closing the pool; its answer is not looked at.\<close>

definition pg_Close :: "('z io_state_scheme, unit) state" where
  "pg_Close = ask (\<lambda>_. ()) CallDbClose"

text \<open>\<open>pgxpool.New\<close> reads the URL; the table is created before the store is handed out.\<close>

definition NewPostgresPairingTokenStore :: "world \<Rightarrow> string \<Rightarrow>
    ('z pg_state_scheme, (('z pg_state_scheme) token_store) res) state" where
  "NewPostgresPairingTokenStore w url = do {
     pool \<leftarrow> ask (\<lambda>h. w_DbOpen w h url) (CallDbOpen url);
     case pool of Inl err \<Rightarrow> State_Monad.return (Inl err)
     | Inr _ \<Rightarrow> do {
         err \<leftarrow> pg_init w;
         case err of
           Some e \<Rightarrow> do { pg_Close; State_Monad.return (Inl e) }
         | None \<Rightarrow> State_Monad.return (Inr (postgres_store w))
       }
   }"

section \<open>The Postgres store satisfies the contract\<close>

definition pg_view :: "'z pg_state_scheme \<Rightarrow> string \<Rightarrow> browserToken option" where
  "pg_view s i = map_option (\<lambda>row. token_row i (row_token row) (row_expires_at row)) (map_of (pg_rows s) i)"

lemma kept_timestamptz: "kept_expiry e (timestamptz e)"
  unfolding kept_expiry_def timestamptz_def by presburger

lemma gw_frame_rows: "gw_frame s (s\<lparr>pg_rows := r, hist := CallDb stmt # hist s\<rparr>)"
  by (auto simp: gw_frame_def)

lemma pool_Exec_run:
  "run_state (pool_Exec w stmt) s =
     (let s1 = s\<lparr>hist := CallDb stmt # hist s\<rparr> in
      case w_Db w (hist s) of
        DbDone now \<Rightarrow> (None, s1\<lparr>pg_rows := pg_apply stmt now (pg_rows s)\<rparr>)
      | DbLost now e \<Rightarrow> (Some e, s1\<lparr>pg_rows := pg_apply stmt now (pg_rows s)\<rparr>)
      | DbError e \<Rightarrow> (Some e, s1))"
  by (simp add: pool_Exec_def Let_def split: db_outcome.split)

lemma pg_view_upsert:
  "pg_view (s\<lparr>pg_rows := pg_apply (DbUpsert i t e) now (pg_rows s)\<rparr>) =
     (pg_view s)(i := Some (token_row i t (timestamptz e)))"
  by (rule ext) (simp add: pg_view_def update_conv')

lemma pg_view_delete: "pg_view (s\<lparr>pg_rows := pg_apply (DbDelete i) now (pg_rows s)\<rparr>) = (pg_view s)(i := None)"
  by (rule ext) (simp add: pg_view_def delete_conv')

lemma pg_view_frame [simp]:
  "pg_view (s\<lparr>hist := h\<rparr>) = pg_view s" "pg_view (s\<lparr>gw_pairing := p\<rparr>) = pg_view s"
  "pg_view (s\<lparr>gw_browserAuth := a\<rparr>) = pg_view s"
  by (rule ext, simp add: pg_view_def)+

lemma pg_Save_law:
  assumes "run_state (pg_Save w i t e) s = (r, s')"
  shows "gw_frame s s' \<and>
    ((\<exists>e'. kept_expiry e e' \<and> pg_view s' = (pg_view s)(i := Some (token_row i t e'))) \<or>
     (r \<noteq> None \<and> pg_view s' = pg_view s))"
proof (cases "w_Db w (hist s)")
  case (DbDone now)
  then have s': "s' = s\<lparr>hist := CallDb (DbUpsert i t e) # hist s, pg_rows := pg_apply (DbUpsert i t e) now (pg_rows s)\<rparr>"
    using assms by (simp add: pg_Save_def pool_Exec_run Let_def)
  then have "pg_view s' = (pg_view s)(i := Some (token_row i t (timestamptz e)))"
    using pg_view_upsert[where s = "s\<lparr>hist := CallDb (DbUpsert i t e) # hist s\<rparr>"] by simp
  then show ?thesis using s' kept_timestamptz[of e] by (auto simp: gw_frame_def)
next
  case (DbLost now x)
  then have s': "s' = s\<lparr>hist := CallDb (DbUpsert i t e) # hist s, pg_rows := pg_apply (DbUpsert i t e) now (pg_rows s)\<rparr>"
    using assms by (simp add: pg_Save_def pool_Exec_run Let_def)
  then have "pg_view s' = (pg_view s)(i := Some (token_row i t (timestamptz e)))"
    using pg_view_upsert[where s = "s\<lparr>hist := CallDb (DbUpsert i t e) # hist s\<rparr>"] by simp
  then show ?thesis using s' kept_timestamptz[of e] by (auto simp: gw_frame_def)
next
  case (DbError x)
  then show ?thesis using assms by (auto simp: pg_Save_def pool_Exec_run Let_def gw_frame_def)
qed

lemma pg_Delete_law:
  assumes "run_state (pg_Delete w i) s = (r, s')"
  shows "gw_frame s s' \<and> (pg_view s' = (pg_view s)(i := None) \<or> (r \<noteq> None \<and> pg_view s' = pg_view s))"
proof (cases "w_Db w (hist s)")
  case (DbError x)
  then show ?thesis using assms by (auto simp: pg_Delete_def pool_Exec_run Let_def gw_frame_def)
qed (use assms pg_view_delete[where s = "s\<lparr>hist := CallDb (DbDelete i) # hist s\<rparr>"] in
    \<open>auto simp: pg_Delete_def pool_Exec_run Let_def gw_frame_def\<close>)

lemma pg_Get_law:
  assumes "run_state (pg_Get w i) s = (r, s')"
  shows "gw_frame s s' \<and> pg_view s' = pg_view s \<and>
    (case r of Inl _ \<Rightarrow> True | Inr (t, ok) \<Rightarrow> pg_view s i = (if ok then Some t else None))"
  using assms
  by (auto simp: pg_Get_def gw_frame_def pg_view_def token_row_def split: db_outcome.splits option.splits)

interpretation postgres: browser_token_store "postgres_store w" pg_view
  by (unfold_locales; (unfold postgres_store_def token_store.select_convs)?;
      (erule pg_Save_law pg_Get_law pg_Delete_law | simp))

section \<open>Properties\<close>

definition db_world :: world where
  "db_world = offline_world\<lparr>w_DbOpen := \<lambda>_ _. Inr (), w_Db := \<lambda>h. DbDone (int (length h))\<rparr>"

definition pg_start :: pg_state where
  "pg_start = \<lparr>hist = [], ms_client = newMutagenClient, gw_pairing = [], gw_browserAuth = [], pg_rows = []\<rparr>"

text \<open>Claim C37. What is saved is found again: after a \<open>Save\<close> that reports success a \<open>Get\<close> that reports no
  error returns the saved token under its devcontainer, with an expiry that is at most a
  microsecond early, and every other devcontainer's token is as before.\<close>

theorem save_then_get:
  assumes "run_state (pg_Save w i t e) s = (None, s1)" and "run_state (pg_Get w j) s1 = (Inr (tok, ok), s2)"
  shows "if j = i then ok \<and> bt_Token tok = t \<and> bt_EnvID tok = i \<and> bt_ExpiresAt tok \<le> e \<and> e < bt_ExpiresAt tok + 1000
    else pg_view s j = (if ok then Some tok else None)"
proof -
  obtain e' where e': "kept_expiry e e'" "pg_view s1 = (pg_view s)(i := Some (token_row i t e'))"
    using pg_Save_law[OF assms(1)] by auto
  have "pg_view s1 j = (if ok then Some tok else None)"
    using pg_Get_law[OF assms(2)] by simp
  then show ?thesis
    using e' by (auto simp: token_row_def kept_expiry_def split: if_splits)
qed

theorem save_then_get_witness:
  "run_state (pg_Get db_world ''c1'') (snd (run_state (pg_Save db_world ''c1'' ''tok'' 1234567) pg_start)) =
     (Inr (\<lparr>bt_Token = ''tok'', bt_EnvID = ''c1'', bt_ExpiresAt = 1234000\<rparr>, True),
      snd (run_state (pg_Get db_world ''c1'') (snd (run_state (pg_Save db_world ''c1'' ''tok'' 1234567) pg_start)))) \<and>
   (1234000 :: int) \<le> 1234567"
proof -
  let ?s1 = "snd (run_state (pg_Save db_world ''c1'' ''tok'' 1234567) pg_start)"
  have 1: "run_state (pg_Save db_world ''c1'' ''tok'' 1234567) pg_start = (None, ?s1)"
    by (simp add: pg_Save_def pool_Exec_def db_world_def pg_start_def)
  have 2: "run_state (pg_Get db_world ''c1'') ?s1 =
      (Inr (\<lparr>bt_Token = ''tok'', bt_EnvID = ''c1'', bt_ExpiresAt = 1234000\<rparr>, True), snd (run_state (pg_Get db_world ''c1'') ?s1))"
    by (simp add: pg_Save_def pg_Get_def pool_Exec_def db_world_def pg_start_def timestamptz_def)
  show ?thesis using save_then_get[OF 1 2] 2 by simp
qed

end
