(* ===== verification/Codec.thy ===== *)
theory Codec
  imports Prelude "HOL-Library.Word"
begin

unbundle bit_operations_syntax

text \<open>
  The encodings of Go's standard library that the program's identifiers rest on: SHA-1
  (\<open>crypto/sha1\<close>), hexadecimal (\<open>encoding/hex\<close>) and unpadded URL-safe base64
  (\<open>base64.RawURLEncoding\<close>). A byte string is a \<open>string\<close>. The lemmas give the length and
  the alphabet of each encoding, and that the two text encodings lose nothing.
\<close>

section \<open>Hexadecimal\<close>

definition hex_digits :: string where
  "hex_digits = ''0123456789abcdef''"

definition hex_byte :: "char \<Rightarrow> string" where
  "hex_byte c = (let n = of_char c :: nat in [hex_digits ! (n div 16), hex_digits ! (n mod 16)])"

definition hex_EncodeToString :: "string \<Rightarrow> string" where
  "hex_EncodeToString bs = concat (map hex_byte bs)"

lemma char_lt_256 [simp]: "(of_char c :: nat) < 256"
  by (metis nat_of_char_less_256)

lemma length_hex [simp]: "length (hex_EncodeToString bs) = 2 * length bs"
  by (induction bs) (simp_all add: hex_EncodeToString_def hex_byte_def Let_def)

lemma hex_digits_set: "i < 16 \<Longrightarrow> hex_digits ! i \<in> set hex_digits"
  by (rule nth_mem) (simp add: hex_digits_def)

lemma byte_div [simp]: "(of_char c :: nat) div 16 < 16" "(of_char c :: nat) div 4 < 64" "(of_char c :: nat) div 64 < 4"
  by (simp_all add: less_mult_imp_div_less)

lemma set_hex: "set (hex_EncodeToString bs) \<subseteq> set hex_digits"
  by (induction bs) (auto simp: hex_EncodeToString_def hex_byte_def Let_def intro!: hex_digits_set)

section \<open>Base64\<close>

definition b64_alphabet :: string where
  "b64_alphabet = ''ABCDEFGHIJKLMNOPQRSTUVWXYZabcdefghijklmnopqrstuvwxyz0123456789-_''"

definition b64 :: "nat \<Rightarrow> char" where
  "b64 i = b64_alphabet ! i"

text \<open>The four sextets of three bytes, two bytes or one byte.\<close>

definition sext1 :: "char \<Rightarrow> nat" where
  "sext1 a = of_char a div 4"

definition sext2 :: "char \<Rightarrow> nat \<Rightarrow> nat" where
  "sext2 a b = (of_char a mod 4) * 16 + b div 16"

definition sext3 :: "char \<Rightarrow> nat \<Rightarrow> nat" where
  "sext3 b c = (of_char b mod 16) * 4 + c div 64"

definition sext4 :: "char \<Rightarrow> nat" where
  "sext4 c = of_char c mod 64"

fun base64_url :: "string \<Rightarrow> string" where
  "base64_url (a # b # c # bs) =
     b64 (sext1 a) # b64 (sext2 a (of_char b)) # b64 (sext3 b (of_char c)) # b64 (sext4 c) # base64_url bs"
| "base64_url [a, b] = [b64 (sext1 a), b64 (sext2 a (of_char b)), b64 (sext3 b 0)]"
| "base64_url [a] = [b64 (sext1 a), b64 (sext2 a 0)]"
| "base64_url [] = []"

lemma length_b64_alphabet [simp]: "length b64_alphabet = 64"
  by (simp add: b64_alphabet_def)

lemma distinct_b64_alphabet: "distinct b64_alphabet"
  by (simp add: b64_alphabet_def)

lemma b64_inj: "i < 64 \<Longrightarrow> j < 64 \<Longrightarrow> b64 i = b64 j \<longleftrightarrow> i = j"
  using nth_eq_iff_index_eq[OF distinct_b64_alphabet] by (simp add: b64_def)

lemma b64_in: "i < 64 \<Longrightarrow> b64 i \<in> set b64_alphabet"
  by (simp add: b64_def)

lemma length_base64: "length (base64_url bs) = (4 * length bs + 2) div 3"
  by (induction bs rule: base64_url.induct) auto

lemma of_char_inj: "(of_char a :: nat) = of_char b \<Longrightarrow> a = b"
  by (metis char_of_char)

lemma sext_lt [simp]:
  "sext1 a < 64" "b < 256 \<Longrightarrow> sext2 a b < 64" "c < 256 \<Longrightarrow> sext3 x c < 64" "sext4 y < 64"
  by (auto simp: sext1_def sext2_def sext3_def sext4_def less_mult_imp_div_less)

lemma radix_split:
  fixes m n p q k :: nat
  assumes "m * k + p = n * k + q" "p < k" "q < k"
  shows "m = n \<and> p = q"
proof -
  have "(m * k + p) div k = (n * k + q) div k" "(m * k + p) mod k = (n * k + q) mod k"
    using assms(1) by simp_all
  then show ?thesis using assms(2,3) by simp
qed

lemma sext2_split: "b < 256 \<Longrightarrow> b' < 256 \<Longrightarrow> sext2 a b = sext2 a' b' \<Longrightarrow>
    of_char a mod 4 = (of_char a' mod 4 :: nat) \<and> b div 16 = b' div 16"
  unfolding sext2_def by (rule radix_split) (auto simp: less_mult_imp_div_less)

lemma sext3_split: "c < 256 \<Longrightarrow> c' < 256 \<Longrightarrow> sext3 b c = sext3 b' c' \<Longrightarrow>
    of_char b mod 16 = (of_char b' mod 16 :: nat) \<and> c div 64 = c' div 64"
  unfolding sext3_def by (rule radix_split) (auto simp: less_mult_imp_div_less)

lemma div_mod_eqI: "x div k = y div k \<Longrightarrow> x mod k = y mod k \<Longrightarrow> x = (y::nat)"
  by (metis div_mult_mod_eq)

lemma first_byte: "sext1 a = sext1 a' \<Longrightarrow> b < 256 \<Longrightarrow> b' < 256 \<Longrightarrow> sext2 a b = sext2 a' b' \<Longrightarrow>
    a = a' \<and> b div 16 = b' div 16"
  using sext2_split[of b b' a a'] unfolding sext1_def by (metis div_mod_eqI of_char_inj)

lemma second_byte: "of_char b div 16 = (of_char b' div 16 :: nat) \<Longrightarrow> c < 256 \<Longrightarrow> c' < 256 \<Longrightarrow>
    sext3 b c = sext3 b' c' \<Longrightarrow> b = b' \<and> c div 64 = c' div 64"
  using sext3_split[of c c' b b'] by (metis div_mod_eqI of_char_inj)

lemma third_byte: "of_char c div 64 = (of_char c' div 64 :: nat) \<Longrightarrow> sext4 c = sext4 c' \<Longrightarrow> c = c'"
  unfolding sext4_def by (metis div_mod_eqI of_char_inj)

lemma base64_inj: "base64_url bs = base64_url bs' \<Longrightarrow> bs = bs'"
proof (induction bs arbitrary: bs' rule: base64_url.induct)
  case (1 a b c bs)
  from "1.prems" show ?case
  proof (cases bs' rule: base64_url.cases)
    case (1 a' b' c' cs)
    with "1.prems" have eq: "sext1 a = sext1 a'" "sext2 a (of_char b) = sext2 a' (of_char b')"
      "sext3 b (of_char c) = sext3 b' (of_char c')" "sext4 c = sext4 c'" "base64_url bs = base64_url cs"
      by (simp_all add: b64_inj)
    have "a = a' \<and> of_char b div 16 = (of_char b' div 16 :: nat)"
      by (rule first_byte[OF eq(1) _ _ eq(2)]) simp_all
    moreover from this have "b = b' \<and> of_char c div 64 = (of_char c' div 64 :: nat)"
      by (intro second_byte[OF _ _ _ eq(3)]) simp_all
    moreover from this have "c = c'" by (intro third_byte[OF _ eq(4)]) simp
    ultimately show ?thesis using "1.IH"[OF eq(5)] 1 by simp
  qed auto
next
  case (2 a b)
  from "2.prems" show ?case
  proof (cases bs' rule: base64_url.cases)
    case (2 a' b')
    with "2.prems" have eq: "sext1 a = sext1 a'" "sext2 a (of_char b) = sext2 a' (of_char b')"
      "sext3 b 0 = sext3 b' 0"
      by (simp_all add: b64_inj)
    have "a = a' \<and> of_char b div 16 = (of_char b' div 16 :: nat)"
      by (rule first_byte[OF eq(1) _ _ eq(2)]) simp_all
    moreover from this have "b = b'" using second_byte[OF _ _ _ eq(3)] by simp
    ultimately show ?thesis using 2 by simp
  qed auto
next
  case (3 a)
  then show ?case
    using first_byte[of a _ 0 0] by (cases bs' rule: base64_url.cases) (auto simp: b64_inj)
next
  case 4
  then show ?case by (cases bs' rule: base64_url.cases) auto
qed

lemma set_base64: "set (base64_url bs) \<subseteq> set b64_alphabet"
  by (induction bs rule: base64_url.induct) (auto intro!: b64_in)

section \<open>SHA-1\<close>

type_synonym u32 = "32 word"

text \<open>Padding: a bit 1, zero bits, and the length in bits as 64 bits, to a multiple of 64 bytes.\<close>

definition be_bytes :: "nat \<Rightarrow> int \<Rightarrow> string" where
  "be_bytes k n = map (\<lambda>i. char_of (n div 256 ^ (k - 1 - i) mod 256)) [0..<k]"

definition sha1_pad :: "string \<Rightarrow> string" where
  "sha1_pad m = m @ [CHR 0x80] @ replicate ((119 - length m mod 64) mod 64) (CHR 0x00) @ be_bytes 8 (8 * int (length m))"

definition be_word :: "string \<Rightarrow> u32" where
  "be_word bs = word_of_int (foldl (\<lambda>a c. a * 256 + of_char c) 0 bs)"

definition rotl :: "nat \<Rightarrow> u32 \<Rightarrow> u32" where
  "rotl n x = push_bit n x OR drop_bit (32 - n) x"

text \<open>The message schedule: the last sixteen words, newest last, give the next one.\<close>

fun sha1_rounds :: "nat \<Rightarrow> nat \<Rightarrow> u32 list \<Rightarrow> u32 \<times> u32 \<times> u32 \<times> u32 \<times> u32 \<Rightarrow> u32 \<times> u32 \<times> u32 \<times> u32 \<times> u32" where
  "sha1_rounds 0 t ws st = st"
| "sha1_rounds (Suc n) t ws (a, b, c, d, e) =
     (let w = hd ws;
          (f, k) = (if t < 20 then ((b AND c) OR ((NOT b) AND d), 0x5A827999)
                    else if t < 40 then (b XOR c XOR d, 0x6ED9EBA1)
                    else if t < 60 then ((b AND c) OR (b AND d) OR (c AND d), 0x8F1BBCDC)
                    else (b XOR c XOR d, 0xCA62C1D6));
          a' = rotl 5 a + f + e + k + w;
          next_w = rotl 1 (ws ! 13 XOR ws ! 8 XOR ws ! 2 XOR ws ! 0)
      in sha1_rounds n (Suc t) (tl ws @ [next_w]) (a', a, rotl 30 b, c, d))"

fun chunks :: "nat \<Rightarrow> nat \<Rightarrow> 'a list \<Rightarrow> 'a list list" where
  "chunks 0 k xs = []"
| "chunks (Suc n) k xs = take k xs # chunks n k (drop k xs)"

definition sha1_block :: "u32 \<times> u32 \<times> u32 \<times> u32 \<times> u32 \<Rightarrow> string \<Rightarrow> u32 \<times> u32 \<times> u32 \<times> u32 \<times> u32" where
  "sha1_block st blk =
     (case (st, sha1_rounds 80 0 (map be_word (chunks 16 4 blk)) st) of
        ((a, b, c, d, e), (a', b', c', d', e')) \<Rightarrow> (a + a', b + b', c + c', d + d', e + e'))"

definition sha1_Sum :: "string \<Rightarrow> string" where
  "sha1_Sum m =
     (let p = sha1_pad m in
      case foldl sha1_block (0x67452301, 0xEFCDAB89, 0x98BADCFE, 0x10325476, 0xC3D2E1F0)
             (chunks (length p div 64) 64 p) of
        (a, b, c, d, e) \<Rightarrow> concat (map (\<lambda>x. be_bytes 4 (uint x)) [a, b, c, d, e]))"

lemma length_be_bytes [simp]: "length (be_bytes k n) = k"
  by (simp add: be_bytes_def)

lemma length_sha1 [simp]: "length (sha1_Sum m) = 20"
  by (simp add: sha1_Sum_def Let_def split: prod.split)

lemma sha1_pad_blocks: "length (sha1_pad m) mod 64 = 0"
proof -
  have pad: "(119 - r) mod 64 = (if r \<le> 55 then 55 - r else 119 - r)" if "r < 64" for r :: nat
  proof (cases "r \<le> 55")
    case True
    then have eq: "119 - r = (55 - r) + 64" by simp
    have "(119 - r) mod 64 = (55 - r) mod 64" unfolding eq by (rule mod_add_self2)
    then show ?thesis using True by simp
  next
    case False
    then show ?thesis using that by simp
  qed
  let ?p = "(119 - length m mod 64) mod 64"
  have "length m mod 64 + (9 + ?p) = (if length m mod 64 \<le> 55 then 64 else 128)"
    using pad[of "length m mod 64"] mod_less_divisor[of 64 "length m"]
    by (simp del: mod_less_divisor split: if_splits)
  then have "(length m mod 64 + (9 + ?p)) mod 64 = 0" by simp
  then have "(length m + (9 + ?p)) mod 64 = 0" unfolding mod_add_left_eq .
  then show ?thesis by (simp add: sha1_pad_def add.assoc)
qed

end
