(* ===== verification/Pairing.thy ===== *)
theory Pairing
  imports TokenStore Codec
begin

text \<open>
  Pairing and browser tokens, from \<open>internal/t3/gateway.go\<close>: pairing codes, the bootstrap
  that trades a code for a token, and the check of a request's token against the gateway's map
  and the store behind it. Requests and replies of the HTTP handlers are defined here too. The
  lemmas about a gateway with a store are proved for any store that satisfies the contract of
  \<open>TokenStore\<close>; the properties instantiate them with Postgres.
\<close>

section \<open>Requests and replies\<close>

record in_request =
  in_Method :: string
  in_Path :: string
  in_RawQuery :: string
  in_Header :: header
  in_Body :: string

text \<open>
  What a handler does to its response writer: \<open>http.Error\<close>, \<open>http.NotFound\<close>, \<open>writeJSON\<close>,
  a relayed backend response, or the fate of a websocket.
\<close>

datatype reply =
    Error_reply nat string
  | NotFound_reply
  | JSON_reply nat json
  | Relay nat header string
  | WS_not_upgraded
  | WS_closed string
  | WS_piped

definition header_Get :: "header \<Rightarrow> string \<Rightarrow> string" where
  "header_Get h k = (case map_of h k of Some (v # _) \<Rightarrow> v | _ \<Rightarrow> [])"

definition json_limit :: nat where "json_limit = 1048576"

text \<open>
  \<open>Decode\<close> into a \<open>map[string]string\<close>: the last of several equal keys counts, a value that
  is not a string leaves the empty string, anything but an object leaves the map nil.
\<close>

definition json_string :: "json \<Rightarrow> string" where
  "json_string j = (case j of JStr s \<Rightarrow> s | _ \<Rightarrow> [])"

definition decode_strings :: "json res \<Rightarrow> (string, string) gomap" where
  "decode_strings r = (case r of Inr (JObj kvs) \<Rightarrow> map (\<lambda>(k, v). (k, json_string v)) (rev kvs) | _ \<Rightarrow> [])"

definition get_pairing :: "('z gw_state_scheme, (string, pairingCode) gomap) state" where
  "get_pairing = State (\<lambda>s. (gw_pairing s, s))"

definition put_pairing :: "(string, pairingCode) gomap \<Rightarrow> ('z gw_state_scheme, unit) state" where
  "put_pairing p = State (\<lambda>s. ((), s\<lparr>gw_pairing := p\<rparr>))"

definition get_auth :: "('z gw_state_scheme, (string, browserToken) gomap) state" where
  "get_auth = State (\<lambda>s. (gw_browserAuth s, s))"

definition put_auth :: "(string, browserToken) gomap \<Rightarrow> ('z gw_state_scheme, unit) state" where
  "put_auth a = State (\<lambda>s. ((), s\<lparr>gw_browserAuth := a\<rparr>))"

lemma run_gw [simp]:
  "run_state get_pairing s = (gw_pairing s, s)" "run_state (put_pairing p) s = ((), s\<lparr>gw_pairing := p\<rparr>)"
  "run_state get_auth s = (gw_browserAuth s, s)" "run_state (put_auth a) s = ((), s\<lparr>gw_browserAuth := a\<rparr>)"
  by (simp_all add: get_pairing_def put_pairing_def get_auth_def put_auth_def)

section \<open>Codes and tokens\<close>

definition second :: int where "second = 1000000000"
definition minute :: int where "minute = 60 * second"
definition hour :: int where "hour = 60 * minute"

definition randomCode :: "world \<Rightarrow> nat \<Rightarrow> ('z io_state_scheme, string) state" where
  "randomCode w n = do {
     buf \<leftarrow> randomBytes w n;
     State_Monad.return (ToUpper (TrimRightChar (base64_url buf) CHR ''=''))
   }"

definition randomToken :: "world \<Rightarrow> nat \<Rightarrow> ('z io_state_scheme, string) state" where
  "randomToken w n = do {
     buf \<leftarrow> randomBytes w n;
     State_Monad.return (base64_url buf)
   }"

definition GeneratePairingCode :: "world \<Rightarrow> string \<Rightarrow> ('z gw_state_scheme, string \<times> int) state" where
  "GeneratePairingCode w envID = do {
     code \<leftarrow> randomCode w 18;
     now \<leftarrow> time_Now w;
     let expires = now + 5 * minute;
     pairing \<leftarrow> get_pairing;
     put_pairing (AList.update code \<lparr>pc_Code = code, pc_EnvID = envID, pc_ExpiresAt = expires\<rparr> pairing);
     State_Monad.return (code, expires)
   }"

section \<open>Bootstrap\<close>

definition request_code :: "world \<Rightarrow> in_request \<Rightarrow> string" where
  "request_code w r =
     (let payload = decode_strings (w_json_stream w (take json_limit (in_Body r)));
          code = map_get payload ''code''
      in if code = [] then map_get payload ''pairingCode'' else code)"

definition deleteBrowserTokensLocked :: "string \<Rightarrow> ('z gw_state_scheme, unit) state" where
  "deleteBrowserTokensLocked envID = do {
     auth \<leftarrow> get_auth;
     put_auth (filter (\<lambda>(token, entry). bt_EnvID entry \<noteq> envID) auth)
   }"

definition invalid_code :: reply where
  "invalid_code = Error_reply 401 ''invalid pairing code''"

text \<open>The key of an environment's token in the store.\<close>

definition store_key :: "Environment \<Rightarrow> string" where
  "store_key env = firstNonEmpty [env_ContainerID env, env_ID env]"

definition store_Save :: "('z gw_state_scheme) token_store option \<Rightarrow> string \<Rightarrow> string \<Rightarrow> int \<Rightarrow>
    ('z gw_state_scheme, string option) state" where
  "store_Save tokenStore i token expires =
     (case tokenStore of None \<Rightarrow> State_Monad.return None | Some st \<Rightarrow> ts_Save st i token expires)"

text \<open>The part after the code was found valid: it is taken out of the map first.\<close>

definition redeem :: "world \<Rightarrow> ('z gw_state_scheme) token_store option \<Rightarrow> string \<Rightarrow> Environment \<Rightarrow>
    ('z gw_state_scheme, reply) state" where
  "redeem w tokenStore code env = do {
     pairing \<leftarrow> get_pairing;
     put_pairing (AList.delete code pairing);
     token \<leftarrow> randomToken w 32;
     now \<leftarrow> time_Now w;
     let expires = now + 24 * hour;
     err \<leftarrow> store_Save tokenStore (store_key env) token expires;
     case err of
       Some e \<Rightarrow> State_Monad.return (Error_reply 500 e)
     | None \<Rightarrow> do {
         deleteBrowserTokensLocked (env_ID env);
         auth \<leftarrow> get_auth;
         put_auth (AList.update token \<lparr>bt_Token = token, bt_EnvID = env_ID env, bt_ExpiresAt = expires\<rparr> auth);
         State_Monad.return (JSON_reply 200 (JObj [(''bearerToken'', JStr token), (''token'', JStr token),
           (''tokenType'', JStr ''Bearer''), (''expiresAt'', JStr (w_FormatTime w expires))]))
       }
   }"

definition handleBootstrap :: "world \<Rightarrow> ('z gw_state_scheme) token_store option \<Rightarrow> in_request \<Rightarrow> Environment \<Rightarrow>
    ('z gw_state_scheme, reply) state" where
  "handleBootstrap w tokenStore r env = do {
     pairing \<leftarrow> get_pairing;
     case map_of pairing (request_code w r) of
       None \<Rightarrow> State_Monad.return invalid_code
     | Some entry \<Rightarrow>
         if pc_EnvID entry \<noteq> env_ID env then State_Monad.return invalid_code
         else do {
           now \<leftarrow> time_Now w;
           if now > pc_ExpiresAt entry then State_Monad.return invalid_code
           else redeem w tokenStore (request_code w r) env
         }
   }"

section \<open>Authorization\<close>

definition bearer_token :: "header \<Rightarrow> string option" where
  "bearer_token h =
     (let auth = header_Get h ''Authorization'' in
      if HasPrefix (ToLower auth) ''bearer '' then Some (TrimSpace (drop 7 auth)) else None)"

text \<open>The three stages of \<open>authorizedWithStore\<close>: the map, the store, and filling the map.\<close>

definition cached_check :: "world \<Rightarrow> string \<Rightarrow> string \<Rightarrow> ('z gw_state_scheme, bool) state" where
  "cached_check w envID token = do {
     auth \<leftarrow> get_auth;
     case map_of auth token of
       None \<Rightarrow> State_Monad.return False
     | Some entry \<Rightarrow>
         if bt_EnvID entry = envID
         then do { now \<leftarrow> time_Now w; State_Monad.return (now < bt_ExpiresAt entry) }
         else State_Monad.return False
   }"

definition store_check :: "world \<Rightarrow> ('z gw_state_scheme) token_store \<Rightarrow> string \<Rightarrow> string \<Rightarrow>
    ('z gw_state_scheme, browserToken option) state" where
  "store_check w st storeID token = do {
     got \<leftarrow> ts_Get st storeID;
     case got of
       Inl err \<Rightarrow> State_Monad.return None
     | Inr (entry, ok) \<Rightarrow> do {
         refused \<leftarrow> (if \<not> ok \<or> bt_Token entry \<noteq> token then State_Monad.return True
                    else do { now \<leftarrow> time_Now w; State_Monad.return (now > bt_ExpiresAt entry) });
         if refused then do {
           expired \<leftarrow> (if ok then do { now \<leftarrow> time_Now w; State_Monad.return (now > bt_ExpiresAt entry) }
                       else State_Monad.return False);
           _ \<leftarrow> (if expired then ts_Delete st storeID else State_Monad.return None);
           State_Monad.return None
         }
         else State_Monad.return (Some entry)
       }
   }"

definition cache_token :: "string \<Rightarrow> string \<Rightarrow> browserToken \<Rightarrow> ('z gw_state_scheme, unit) state" where
  "cache_token envID token entry = do {
     auth \<leftarrow> get_auth;
     put_auth (AList.update token (entry\<lparr>bt_EnvID := envID\<rparr>) auth)
   }"

definition authorizedWithStore :: "world \<Rightarrow> ('z gw_state_scheme) token_store option \<Rightarrow> in_request \<Rightarrow> string \<Rightarrow> string \<Rightarrow>
    ('z gw_state_scheme, bool) state" where
  "authorizedWithStore w tokenStore r envID storeID =
     (case bearer_token (in_Header r) of
        None \<Rightarrow> State_Monad.return False
      | Some token \<Rightarrow> do {
          cached \<leftarrow> cached_check w envID token;
          if cached then State_Monad.return True
          else (case tokenStore of
            None \<Rightarrow> State_Monad.return False
          | Some st \<Rightarrow> do {
              found \<leftarrow> store_check w st storeID token;
              case found of
                None \<Rightarrow> State_Monad.return False
              | Some entry \<Rightarrow> do { cache_token envID token entry; State_Monad.return True }
            })
        })"

definition authorized :: "world \<Rightarrow> ('z gw_state_scheme) token_store option \<Rightarrow> in_request \<Rightarrow> string \<Rightarrow>
    ('z gw_state_scheme, bool) state" where
  "authorized w tokenStore r envID = authorizedWithStore w tokenStore r envID envID"


section \<open>Tokens as text\<close>

lemma no_trim_ascii:
  assumes "list_all (\<lambda>p. p \<noteq> [] \<longrightarrow> hd p \<notin> A) ps" "set s \<subseteq> A"
  shows "no_trim ps s"
  unfolding no_trim_def
proof (intro ballI impI notI)
  fix p assume p: "p \<in> set ps" "p \<noteq> []" "prefix p s"
  then have "hd p \<in> set s" by (auto simp: prefix_def)
  then show False using p assms by (auto simp: list_all_iff)
qed

lemma spaces_not_in_alphabet:
  "list_all (\<lambda>p. p \<noteq> [] \<longrightarrow> hd p \<notin> set b64_alphabet) space_runes"
  "list_all (\<lambda>p. p \<noteq> [] \<longrightarrow> hd p \<notin> set b64_alphabet) (map rev space_runes)"
  by code_simp+

lemma TrimSpace_base64 [simp]: "TrimSpace (base64_url bs) = base64_url bs"
  using TrimSpace_id no_trim_ascii[OF spaces_not_in_alphabet(1)] no_trim_ascii[OF spaces_not_in_alphabet(2)]
  by (simp add: set_base64)

lemma ToLower_Bearer: "ToLower ''Bearer '' = ''bearer ''"
  by code_simp

lemma bearer_token_Bearer:
  assumes "header_Get h ''Authorization'' = ''Bearer '' @ t" "TrimSpace t = t"
  shows "bearer_token h = Some t"
proof -
  have "HasPrefix (ToLower (''Bearer '' @ t)) ''bearer ''"
    unfolding ToLower_append ToLower_Bearer by (rule HasPrefix_append)
  moreover have "drop 7 (''Bearer '' @ t) = t" by simp
  ultimately show ?thesis using assms unfolding bearer_token_def Let_def by presburger
qed

text \<open>The token a bootstrap reply carries.\<close>

definition issued :: "reply \<Rightarrow> string option" where
  "issued r = (case r of JSON_reply _ (JObj kvs) \<Rightarrow> map_option json_string (map_of kvs ''token'') | _ \<Rightarrow> None)"

lemma map_of_filter_env:
  "map_of (filter (\<lambda>(t, e). P e) a) t = Some e \<Longrightarrow> P e"
  by (auto dest!: map_of_SomeD)

section \<open>What the operations do\<close>

lemma run_randomToken [simp]:
  "run_state (randomToken w n) s = (base64_url (w_Rand w (hist s) n), s\<lparr>hist := CallRand n # hist s\<rparr>)"
  by (simp add: randomToken_def)

lemma run_delete [simp]:
  "run_state (deleteBrowserTokensLocked envID) s =
     ((), s\<lparr>gw_browserAuth := filter (\<lambda>(t, e). bt_EnvID e \<noteq> envID) (gw_browserAuth s)\<rparr>)"
  by (simp add: deleteBrowserTokensLocked_def)

text \<open>A step that only adds calls to the history.\<close>

definition only_hist :: "'z gw_state_scheme \<Rightarrow> 'z gw_state_scheme \<Rightarrow> bool" where
  "only_hist s s' \<longleftrightarrow> (\<exists>n. s' = s\<lparr>hist := n @ hist s\<rparr>)"

lemma only_hist_refl [simp]: "only_hist s s"
  unfolding only_hist_def by (rule exI[of _ "[]"]) simp

lemma only_hist_call [simp]: "only_hist s (s\<lparr>hist := c # hist s\<rparr>)"
  unfolding only_hist_def by (rule exI[of _ "[c]"]) simp

lemma only_hist_fields:
  "only_hist s s' \<Longrightarrow> gw_pairing s' = gw_pairing s \<and> gw_browserAuth s' = gw_browserAuth s \<and>
     ms_client s' = ms_client s"
  by (auto simp: only_hist_def)

lemma cached_check_run:
  assumes "run_state (cached_check w envID token) s = (b, s')"
  shows "only_hist s s' \<and>
    (b \<longleftrightarrow> (\<exists>e. map_of (gw_browserAuth s) token = Some e \<and> bt_EnvID e = envID \<and>
      w_Now w (hist s) < bt_ExpiresAt e))"
  using assms by (auto simp: cached_check_def split: option.splits if_splits)

text \<open>A bootstrap that is refused changes nothing; otherwise the code was valid and is redeemed.\<close>

lemma handleBootstrap_cases:
  assumes "run_state (handleBootstrap w ts r env) s = (reply, s')"
  obtains (refused) "reply = invalid_code" "only_hist s s'"
  | (redeemed) entry where "map_of (gw_pairing s) (request_code w r) = Some entry"
      "pc_EnvID entry = env_ID env" "w_Now w (hist s) \<le> pc_ExpiresAt entry"
      "run_state (redeem w ts (request_code w r) env) (s\<lparr>hist := CallNow # hist s\<rparr>) = (reply, s')"
  using assms by (fastforce simp: handleBootstrap_def split: option.splits if_splits)

text \<open>The state of a gateway that has just issued a token for an environment.\<close>

definition fresh_token :: "world \<Rightarrow> string \<Rightarrow> string \<Rightarrow> int \<Rightarrow> 'z gw_state_scheme \<Rightarrow> bool" where
  "fresh_token w envID t e s \<longleftrightarrow>
     map_of (gw_browserAuth s) t = Some \<lparr>bt_Token = t, bt_EnvID = envID, bt_ExpiresAt = e\<rparr> \<and>
     (\<forall>t' x. t' \<noteq> t \<longrightarrow> map_of (gw_browserAuth s) t' = Some x \<longrightarrow> bt_EnvID x \<noteq> envID)"

lemma fresh_token_update:
  "fresh_token w envID t e (s\<lparr>gw_browserAuth := AList.update t \<lparr>bt_Token = t, bt_EnvID = envID, bt_ExpiresAt = e\<rparr>
     (filter (\<lambda>(t, x). bt_EnvID x \<noteq> envID) a)\<rparr>)"
  by (auto simp: fresh_token_def update_conv' dest: map_of_filter_env)

definition token_call :: "call \<Rightarrow> bool" where
  "token_call c \<longleftrightarrow> c = CallNow \<or> db_call c"

definition in_store :: "('z gw_state_scheme \<Rightarrow> string \<Rightarrow> browserToken option) \<Rightarrow> string \<Rightarrow> string \<Rightarrow> int \<Rightarrow>
    'z gw_state_scheme \<Rightarrow> bool" where
  "in_store rows i t e s \<longleftrightarrow> (\<exists>e'. kept_expiry e e' \<and> rows s i = Some (token_row i t e'))"

lemma calls_within_run:
  "(\<And>s a s'. run_state m s = (a, s') \<Longrightarrow> \<exists>new. hist s' = new @ hist s \<and> list_all P new) \<Longrightarrow>
     calls_within P m"
  by (simp add: calls_within_def) (metis prod.collapse)

lemma gw_frame_calls: "gw_frame s s' \<Longrightarrow> \<exists>new. hist s' = new @ hist s \<and> list_all db_call new"
  by (simp add: gw_frame_def)

context browser_token_store
begin

lemma redeem_run:
  assumes run: "run_state (redeem w ts code env) s = (reply, s')" and ts: "ts = None \<or> ts = Some store"
  shows "(reply \<noteq> invalid_code \<and> gw_pairing s' = AList.delete code (gw_pairing s)) \<and>
    (case reply of JSON_reply c b \<Rightarrow>
       \<exists>t h h'. issued reply = Some t \<and> t = base64_url (w_Rand w h 32) \<and>
         fresh_token w (env_ID env) t (w_Now w h' + 24 * hour) s' \<and>
         (ts = Some store \<longrightarrow> in_store rows (store_key env) t (w_Now w h' + 24 * hour) s')
     | _ \<Rightarrow> gw_browserAuth s' = gw_browserAuth s)"
proof -
  define t where "t = base64_url (w_Rand w (hist s) 32)"
  define e where "e = w_Now w (CallRand 32 # hist s) + 24 * hour"
  define s1 where "s1 = s\<lparr>gw_pairing := AList.delete code (gw_pairing s), hist := CallNow # CallRand 32 # hist s\<rparr>"
  define s1' where "s1' = s\<lparr>hist := CallNow # CallRand 32 # hist s, gw_pairing := AList.delete code (gw_pairing s)\<rparr>"
  obtain err s2 where 2: "run_state (store_Save ts (store_key env) t e) s1 = (err, s2)" by fastforce
  have frame: "gw_frame s1 s2" and saved: "err = None \<Longrightarrow> ts = Some store \<Longrightarrow>
      \<exists>e'. kept_expiry e e' \<and> rows s2 = (rows s1)(store_key env := Some (token_row (store_key env) t e'))"
    using 2 ts save_law[of "store_key env" t e s1 err s2]
    by (auto simp: store_Save_def gw_frame_def)
  have pairing: "gw_pairing s2 = AList.delete code (gw_pairing s)" and auth: "gw_browserAuth s2 = gw_browserAuth s"
    using frame by (simp_all add: gw_frame_def s1_def)
  show ?thesis
  proof (cases err)
    case (Some x)
    then have "reply = Error_reply 500 x \<and> s' = s2"
      using run 2 unfolding redeem_def by (simp add: s1_def t_def e_def Let_def)
    then show ?thesis using pairing auth by (simp add: invalid_code_def)
  next
    case None
    let ?a = "AList.update t \<lparr>bt_Token = t, bt_EnvID = env_ID env, bt_ExpiresAt = e\<rparr>
        (filter (\<lambda>(t, x). bt_EnvID x \<noteq> env_ID env) (gw_browserAuth s2))"
    let ?b = "JObj [(''bearerToken'', JStr t), (''token'', JStr t),
           (''tokenType'', JStr ''Bearer''), (''expiresAt'', JStr (w_FormatTime w e))]"
    have s': "reply = JSON_reply 200 ?b" "s' = s2\<lparr>gw_browserAuth := ?a\<rparr>"
      using run 2 None unfolding redeem_def by (simp_all add: s1_def t_def e_def Let_def)
    have "issued reply = Some t" by (simp add: issued_def s' json_string_def)
    moreover have "fresh_token w (env_ID env) t e s'" unfolding s' by (rule fresh_token_update)
    moreover have "in_store rows (store_key env) t e s'" if "ts = Some store"
      using saved[OF None that] unfolding s' in_store_def rows_auth by auto
    ultimately show ?thesis
      using pairing by (auto simp: s' t_def e_def invalid_code_def)
  qed
qed

lemma store_check_run:
  assumes run: "run_state (store_check w store storeID token) s = (found, s')"
  shows "gw_pairing s' = gw_pairing s \<and> gw_browserAuth s' = gw_browserAuth s \<and> ms_client s' = ms_client s \<and>
    (case found of
       Some e \<Rightarrow> rows s storeID = Some e \<and> bt_Token e = token \<and> rows s' = rows s \<and> (\<exists>h. w_Now w h \<le> bt_ExpiresAt e)
     | None \<Rightarrow> rows s' = rows s \<or> (\<exists>e h. rows s storeID = Some e \<and> bt_ExpiresAt e < w_Now w h \<and>
         rows s' = (rows s)(storeID := None)))"
proof -
  obtain got s1 where 1: "run_state (ts_Get store storeID) s = (got, s1)" by fastforce
  have f1: "gw_frame s s1" "rows s1 = rows s"
    "case got of Inl _ \<Rightarrow> True | Inr (t, ok) \<Rightarrow> rows s storeID = (if ok then Some t else None)"
    using get_law[OF 1] by auto
  show ?thesis
  proof (cases got)
    case (Inl err)
    then show ?thesis using run 1 f1 by (auto simp: store_check_def gw_frame_def)
  next
    case (Inr p)
    obtain e ok where p: "p = (e, ok)" by fastforce
    have delete: "gw_frame s2 s3 \<and> (rows s3 = rows s2 \<or> rows s3 = (rows s2)(storeID := None))"
      if "run_state (ts_Delete store storeID) s2 = (r3, s3)" for s2 r3 s3
      using delete_law[OF that] by blast
    note [simp] = rows_hist p Inr store_check_def gw_frame_def 1
    show ?thesis
    proof (cases "ok")
      case False
      then show ?thesis using run f1 by auto
    next
      case True
      then have row: "rows s storeID = Some e" using f1(3) by simp
      let ?s2 = "s1\<lparr>hist := CallNow # hist s1\<rparr>" and ?s3 = "s1\<lparr>hist := CallNow # CallNow # hist s1\<rparr>"
      obtain r4 s4 where 4: "run_state (ts_Delete store storeID) ?s2 = (r4, s4)" by fastforce
      obtain r5 s5 where 5: "run_state (ts_Delete store storeID) ?s3 = (r5, s5)" by fastforce
      show ?thesis
      proof (cases "bt_Token e = token")
        case False
        then show ?thesis
          using run True f1 row 4 delete[OF 4] by (auto split: if_splits)
      next
        case tok: True
        show ?thesis
        proof (cases "w_Now w (hist s1) > bt_ExpiresAt e")
          case True
          then show ?thesis
            using run \<open>ok\<close> tok f1 row 5 delete[OF 5] by (auto split: if_splits)
        next
          case False
          then have "found = Some e" "s' = ?s2" using run \<open>ok\<close> tok by auto
          then show ?thesis using f1 row tok False by (auto simp: not_less)
        qed
      qed
    qed
  qed
qed

text \<open>The calls of an authorization: the clock and the store.\<close>

lemma get_auth_calls [call_rules]: "calls_within P get_auth" "calls_within P (put_auth a)" "calls_within P get_pairing"
  "calls_within P (put_pairing p)"
  by (simp_all add: calls_within_def)

lemma store_calls:
  "calls_within db_call (ts_Get store i)" "calls_within db_call (ts_Delete store i)" "calls_within db_call (ts_Save store i t e)"
  by (rule calls_within_run, elim get_law[THEN conjunct1, THEN gw_frame_calls]
        delete_law[THEN conjunct1, THEN gw_frame_calls] save_law[THEN conjunct1, THEN gw_frame_calls])+

lemma store_token_calls:
  "calls_within token_call (ts_Get store i)" "calls_within token_call (ts_Delete store i)"
  "calls_within token_call (ts_Save store i t e)"
  by (rule calls_within_mono[OF store_calls(1)] calls_within_mono[OF store_calls(2)]
      calls_within_mono[OF store_calls(3)]; simp add: token_call_def)+

lemma authorized_calls:
  assumes "ts = None \<or> ts = Some store"
  shows "calls_within token_call (authorizedWithStore w ts r envID storeID)"
proof -
  have now: "calls_within token_call (time_Now w)"
    by (intro io_only_calls io_only_now_rand) (simp add: token_call_def)
  have cached: "calls_within token_call (cached_check w envID token)" for token
    unfolding cached_check_def by (intro call_rules now)
  have stored: "calls_within token_call (store_check w store storeID token)" for token
    unfolding store_check_def by (intro call_rules now store_token_calls)
  have cache: "calls_within token_call (cache_token envID token e)" for token e
    unfolding cache_token_def by (intro call_rules)
  show ?thesis
    using assms
  proof
    assume ts: "ts = None"
    show ?thesis unfolding authorizedWithStore_def ts option.case by (intro call_rules cached)
  next
    assume ts: "ts = Some store"
    show ?thesis unfolding authorizedWithStore_def ts option.case by (intro call_rules cached stored cache)
  qed
qed

lemma bootstrap_calls:
  assumes "ts = None \<or> ts = Some store"
  shows "calls_within (\<lambda>c. token_call c \<or> c = CallRand 32) (handleBootstrap w ts r env)"
proof -
  let ?P = "\<lambda>c. token_call c \<or> c = CallRand 32"
  have now: "calls_within ?P (time_Now w)" and rnd: "calls_within ?P (randomToken w 32)"
    unfolding randomToken_def
    by (intro io_only_calls call_rules; simp add: token_call_def)+
  have save: "calls_within ?P (store_Save ts i t e)" for i t e
    using assms unfolding store_Save_def
    by (auto intro: call_rules calls_within_mono[OF store_token_calls(3)])
  show ?thesis
    unfolding handleBootstrap_def redeem_def deleteBrowserTokensLocked_def Let_def
    by (intro call_rules now rnd save)
qed

end

section \<open>Properties\<close>

lemma bootstrap_run_pg:
  assumes "run_state (handleBootstrap w ts r env) s = (reply, s')" "ts = None \<or> ts = Some (postgres_store w)"
  shows "(reply = invalid_code \<and> only_hist s s') \<or>
    (reply \<noteq> invalid_code \<and> gw_pairing s' = AList.delete (request_code w r) (gw_pairing s) \<and>
     (\<exists>e. map_of (gw_pairing s) (request_code w r) = Some e \<and> pc_EnvID e = env_ID env \<and>
       w_Now w (hist s) \<le> pc_ExpiresAt e) \<and>
     (case reply of JSON_reply c b \<Rightarrow>
       \<exists>t h h'. issued reply = Some t \<and> t = base64_url (w_Rand w h 32) \<and>
         fresh_token w (env_ID env) t (w_Now w h' + 24 * hour) s' \<and>
         (ts = Some (postgres_store w) \<longrightarrow> in_store pg_view (store_key env) t (w_Now w h' + 24 * hour) s')
     | _ \<Rightarrow> gw_browserAuth s' = gw_browserAuth s))"
  using assms(1)
proof (cases rule: handleBootstrap_cases)
  case redeemed
  show ?thesis
    using postgres.redeem_run[OF redeemed(4) assms(2)] redeemed(1-3) by (simp split: reply.splits)
qed simp

text \<open>Claim C29. A pairing code is accepted exactly when it is known, was made for this environment and has
  not expired. A refused bootstrap changes neither the codes nor the tokens nor the table; an
  accepted one removes the code, whether or not the store then keeps the token.\<close>

theorem bootstrap_guard:
  "let (reply, s') = run_state (handleBootstrap w (Some (postgres_store w)) r env) s;
       valid = (case map_of (gw_pairing s) (request_code w r) of None \<Rightarrow> False
                | Some e \<Rightarrow> pc_EnvID e = env_ID env \<and> w_Now w (hist s) \<le> pc_ExpiresAt e) in
   (reply = invalid_code) = (\<not> valid) \<and>
   (if valid then gw_pairing s' = AList.delete (request_code w r) (gw_pairing s)
    else gw_pairing s' = gw_pairing s \<and> gw_browserAuth s' = gw_browserAuth s \<and> pg_rows s' = pg_rows s)"
proof -
  obtain reply s' where run: "run_state (handleBootstrap w (Some (postgres_store w)) r env) s = (reply, s')"
    by fastforce
  let ?valid = "case map_of (gw_pairing s) (request_code w r) of None \<Rightarrow> False
                | Some e \<Rightarrow> pc_EnvID e = env_ID env \<and> w_Now w (hist s) \<le> pc_ExpiresAt e"
  show ?thesis
  proof (cases ?valid)
    case True
    then have "reply \<noteq> invalid_code"
      using run postgres.redeem_run[of w "Some (postgres_store w)" "request_code w r" env "s\<lparr>hist := CallNow # hist s\<rparr>"]
      by (force simp: handleBootstrap_def split: option.splits)
    then show ?thesis using bootstrap_run_pg[OF run] True by (auto simp: run)
  next
    case False
    then have "reply = invalid_code \<and> only_hist s s'"
      using run by (auto simp: handleBootstrap_def split: option.splits if_splits)
    then show ?thesis using False by (auto simp: run only_hist_def)
  qed
qed

text \<open>
  The states a gateway can be in later, when the code \<open>code\<close> is not drawn again: after any
  number of codes generated, bootstraps and authorizations, for any environments and from any
  clients, and of whatever else leaves the pairing codes alone.
\<close>

inductive later :: "world \<Rightarrow> ('z pg_state_scheme) token_store option \<Rightarrow> string \<Rightarrow> 'z pg_state_scheme \<Rightarrow>
    'z pg_state_scheme \<Rightarrow> bool" for w ts code s where
  later_now: "later w ts code s s"
| later_generate: "later w ts code s s1 \<Longrightarrow> run_state (GeneratePairingCode w envID) s1 = ((c, x), s2) \<Longrightarrow> c \<noteq> code \<Longrightarrow>
    later w ts code s s2"
| later_bootstrap: "later w ts code s s1 \<Longrightarrow> run_state (handleBootstrap w ts r env) s1 = (reply, s2) \<Longrightarrow> later w ts code s s2"
| later_request: "later w ts code s s1 \<Longrightarrow> run_state (authorizedWithStore w ts r envID storeID) s1 = (ok, s2) \<Longrightarrow>
    later w ts code s s2"
| later_other: "later w ts code s s1 \<Longrightarrow> gw_pairing s2 = gw_pairing s1 \<Longrightarrow> later w ts code s s2"

lemma authorized_pairing:
  assumes "run_state (authorizedWithStore w ts r envID storeID) s = (ok, s')" "ts = None \<or> ts = Some (postgres_store w)"
  shows "gw_pairing s' = gw_pairing s"
proof (cases "bearer_token (in_Header r)")
  case None
  then show ?thesis using assms(1) by (simp add: authorizedWithStore_def)
next
  case (Some t)
  obtain c s1 where 1: "run_state (cached_check w envID t) s = (c, s1)" by fastforce
  have s1: "gw_pairing s1 = gw_pairing s" using cached_check_run[OF 1] only_hist_fields by blast
  show ?thesis
  proof (cases "c \<or> ts = None")
    case True
    then show ?thesis using assms(1) Some 1 s1 by (cases c) (auto simp: authorizedWithStore_def)
  next
    case False
    then have ts: "\<not> c" "ts = Some (postgres_store w)" using assms(2) by blast+
    obtain found s2 where 2: "run_state (store_check w (postgres_store w) storeID t) s1 = (found, s2)" by fastforce
    have "gw_pairing s2 = gw_pairing s" using postgres.store_check_run[OF 2] s1 by simp
    then show ?thesis
      using assms(1) Some 1 2 ts by (cases found) (auto simp: authorizedWithStore_def cache_token_def)
  qed
qed

lemma later_unknown:
  assumes "later w ts code s s'" and ts: "ts = None \<or> ts = Some (postgres_store w)"
    and "map_of (gw_pairing s) code = None"
  shows "map_of (gw_pairing s') code = None"
  using assms(1)
proof (induction rule: later.induct)
  case later_now
  then show ?case by (rule assms(3))
next
  case (later_generate s1 envID c x s2)
  then show ?case by (auto simp: GeneratePairingCode_def randomCode_def Let_def update_conv')
next
  case (later_bootstrap s1 r env reply s2)
  then show ?case
    using bootstrap_run_pg[OF later_bootstrap.hyps(2) ts] by (auto simp: delete_conv' dest: only_hist_fields)
next
  case (later_request s1 r envID storeID ok s2)
  then show ?case using authorized_pairing[OF later_request.hyps(2) ts] by simp
qed simp

text \<open>Claim C4. A pairing code works at most once, with or without a store: once a bootstrap has accepted it
  (whatever it then answered), presenting it again is refused for every environment, in every state
  the gateway reaches afterwards by generating codes, bootstraps, authorizations and anything that
  leaves the codes alone, unless the random generator draws the very same code again.\<close>

theorem code_single_use:
  assumes "run_state (handleBootstrap w ts r env) s = (reply, s1)" and "reply \<noteq> invalid_code"
    and "ts = None \<or> ts = Some (postgres_store w)" and "later w ts (request_code w r) s1 s2"
    and "request_code w r' = request_code w r"
  shows "fst (run_state (handleBootstrap w ts r' env') s2) = invalid_code"
proof -
  have "map_of (gw_pairing s1) (request_code w r) = None"
    using bootstrap_run_pg[OF assms(1,3)] assms(2) by (auto simp: delete_conv')
  then have "map_of (gw_pairing s2) (request_code w r) = None" by (rule later_unknown[OF assms(4,3)])
  then show ?thesis using assms(5) by (simp add: handleBootstrap_def)
qed

text \<open>The token a bootstrap hands out opens its environment for as long as the clock stays within
  24 hours of the issue.\<close>

theorem issued_token_authorizes:
  assumes "run_state (handleBootstrap w (Some (postgres_store w)) r env) s = (JSON_reply c b, s1)"
    and "issued (JSON_reply c b) = Some t" and "bearer_token (in_Header r') = Some t"
    and "\<And>h. T \<le> w_Now w h \<and> w_Now w h < T + 24 * hour"
  shows "fst (run_state (authorizedWithStore w ts r' (env_ID env) storeID) s1)"
proof -
  obtain h' where fresh: "fresh_token w (env_ID env) t (w_Now w h' + 24 * hour) s1"
    using bootstrap_run_pg[OF assms(1)] assms(2) by (auto simp: invalid_code_def)
  obtain ok s2 where 2: "run_state (cached_check w (env_ID env) t) s1 = (ok, s2)" by fastforce
  have "w_Now w (hist s1) < w_Now w h' + 24 * hour"
    using assms(4)[of "hist s1"] assms(4)[of h'] by simp
  then have "ok" using cached_check_run[OF 2] fresh by (simp add: fresh_token_def)
  then show ?thesis using assms(3) 2 by (simp add: authorizedWithStore_def)
qed

text \<open>Claim C3. Pairing again revokes: once a bootstrap for an environment has succeeded, every token other
  than the one it handed out is refused for that environment, from memory and from the table.\<close>

theorem rotation_revokes:
  assumes "run_state (handleBootstrap w (Some (postgres_store w)) r env) s = (JSON_reply c b, s1)"
    and "bearer_token (in_Header r') \<noteq> issued (JSON_reply c b)"
  shows "\<not> fst (run_state (authorizedWithStore w (Some (postgres_store w)) r' (env_ID env) (store_key env)) s1)"
proof (cases "bearer_token (in_Header r')")
  case (Some t')
  obtain t h' where t: "issued (JSON_reply c b) = Some t" "fresh_token w (env_ID env) t (w_Now w h' + 24 * hour) s1"
    "in_store pg_view (store_key env) t (w_Now w h' + 24 * hour) s1"
    using bootstrap_run_pg[OF assms(1)] by (auto simp: invalid_code_def)
  then have ne: "t' \<noteq> t" using assms(2) Some by auto
  obtain ok s2 where 2: "run_state (cached_check w (env_ID env) t') s1 = (ok, s2)" by fastforce
  have "\<not> ok" and s2: "only_hist s1 s2" using cached_check_run[OF 2] t(2) ne by (auto simp: fresh_token_def)
  obtain found s3 where 3: "run_state (store_check w (postgres_store w) (store_key env) t') s2 = (found, s3)" by fastforce
  have "pg_view s2 = pg_view s1" using s2 by (auto simp: only_hist_def)
  then have "found = None"
    using postgres.store_check_run[OF 3] t(3) ne by (cases found) (auto simp: in_store_def token_row_def)
  then show ?thesis using Some 2 3 \<open>\<not> ok\<close> by (simp add: authorizedWithStore_def)
qed (simp add: authorizedWithStore_def)

text \<open>Claim C25. A token survives a restart of the manager: after the gateway has lost its maps, the row in
  the table still authorizes it, up to the microsecond the table rounds away, as long as the
  database answers.\<close>

theorem token_survives_restart:
  assumes "run_state (handleBootstrap w (Some (postgres_store w)) r env) s = (JSON_reply c b, s1)"
    and "issued (JSON_reply c b) = Some t" and "bearer_token (in_Header r') = Some t"
    and "\<And>h. T \<le> w_Now w h \<and> w_Now w h < T + 24 * hour - 1000"
    and "w_Db w (hist s1) = DbDone n"
  shows "fst (run_state (authorizedWithStore w (Some (postgres_store w)) r' (env_ID env) (store_key env))
    (s1\<lparr>gw_pairing := [], gw_browserAuth := [], ms_client := newMutagenClient\<rparr>))"
proof -
  obtain h' where "in_store pg_view (store_key env) t (w_Now w h' + 24 * hour) s1"
    using bootstrap_run_pg[OF assms(1)] assms(2) by (auto simp: invalid_code_def)
  then obtain e' row where row: "map_of (pg_rows s1) (store_key env) = Some row" "row_token row = t"
    "row_expires_at row = e'" "w_Now w h' + 24 * hour < e' + 1000"
    by (auto simp: in_store_def pg_view_def token_row_def kept_expiry_def)
  have now: "w_Now w h \<le> e'" for h using assms(4)[of h] assms(4)[of h'] row(4) by linarith
  then have now': "\<not> e' < w_Now w h" for h by (simp add: not_less)
  show ?thesis
    using row now' assms(3,5)
    by (simp add: authorizedWithStore_def cached_check_def store_check_def postgres_store_def pg_Get_def cache_token_def)
qed



section \<open>Examples\<close>

definition zero_code :: string where
  "zero_code = replicate 24 CHR ''A''"

definition zero_token :: string where
  "zero_token = replicate 43 CHR ''A''"

text \<open>A database that answers, a clock that stands at 0, and a random source of zeros.\<close>

definition pairing_world :: world where
  "pairing_world = db_world\<lparr>w_json_stream := \<lambda>_. Inr (JObj [(''code'', JStr zero_code)])\<rparr>"

definition example_env :: Environment where
  "example_env = \<lparr>env_ID = ''env-1'', env_ContainerID = ''container-1'', env_Name = [], env_HTTPBaseURL = [],
     env_WSBaseURL = [], env_Status = [], env_Error = [], env_LastProbe = 0\<rparr>"

definition plain_request :: in_request where
  "plain_request = \<lparr>in_Method = ''POST'', in_Path = [], in_RawQuery = [], in_Header = [], in_Body = []\<rparr>"

definition bearer_request :: "string \<Rightarrow> in_request" where
  "bearer_request t = plain_request\<lparr>in_Header := [(''Authorization'', [''Bearer '' @ t])]\<rparr>"

text \<open>The state after a code has been generated for \<open>env-1\<close>, and after it has been redeemed.\<close>

definition paired :: pg_state where
  "paired = snd (run_state (GeneratePairingCode pairing_world ''env-1'') pg_start)"

definition redeemed :: pg_state where
  "redeemed = snd (run_state (handleBootstrap pairing_world (Some (postgres_store pairing_world)) plain_request example_env) paired)"

definition token_reply :: reply where
  "token_reply = JSON_reply 200 (JObj [(''bearerToken'', JStr zero_token), (''token'', JStr zero_token),
     (''tokenType'', JStr ''Bearer''), (''expiresAt'', JStr [])])"

lemma zero_codes:
  "base64_url (replicate 32 (CHR 0x00)) = zero_token"
  "ToUpper (TrimRightChar (base64_url (replicate 18 (CHR 0x00))) CHR ''='') = zero_code"
  by code_simp+

lemma pairing_world_simps [simp]:
  "w_Now pairing_world h = 0" "w_Rand pairing_world h n = replicate n (CHR 0x00)"
  "w_Db pairing_world h = DbDone (int (length h))" "w_FormatTime pairing_world t = []"
  "w_json_stream pairing_world x = Inr (JObj [(''code'', JStr zero_code)])"
  by (simp_all add: pairing_world_def db_world_def offline_world_def)

lemma zero_code_nonempty [simp]: "zero_code \<noteq> []"
  by (simp add: zero_code_def)

lemma zero_request_code [simp]: "request_code pairing_world r = zero_code"
  by (simp add: request_code_def Let_def decode_strings_def json_string_def map_get_def)

lemma paired_eq: "paired = pg_start\<lparr>hist := [CallNow, CallRand 18],
    gw_pairing := [(zero_code, \<lparr>pc_Code = zero_code, pc_EnvID = ''env-1'', pc_ExpiresAt = 5 * minute\<rparr>)]\<rparr>"
  by (simp add: paired_def GeneratePairingCode_def randomCode_def zero_codes pg_start_def Let_def)

lemma bootstrap_paired:
  "run_state (handleBootstrap pairing_world (Some (postgres_store pairing_world)) plain_request example_env) paired =
     (token_reply, redeemed)"
  unfolding redeemed_def
  by (rule prod_eqI)
    (simp_all add: Let_def paired_eq handleBootstrap_def redeem_def store_Save_def postgres_store_def pg_Save_def pool_Exec_def
      pg_start_def example_env_def store_key_def zero_codes token_reply_def minute_def second_def)

lemma issued_token_reply: "issued token_reply = Some zero_token"
  by (simp add: issued_def token_reply_def json_string_def)

lemma bearer_zero: "bearer_token (in_Header (bearer_request zero_token)) = Some zero_token"
  by (rule bearer_token_Bearer)
    (simp_all add: bearer_request_def plain_request_def header_Get_def flip: zero_codes(1))


lemma redeemed_hist: "hist redeemed =
    [CallDb (DbUpsert ''container-1'' zero_token (24 * hour)), CallNow, CallRand 32, CallNow, CallNow, CallRand 18]"
  unfolding redeemed_def
  by (simp add: Let_def paired_eq handleBootstrap_def redeem_def store_Save_def postgres_store_def pg_Save_def
      pool_Exec_def pg_start_def example_env_def store_key_def zero_codes minute_def second_def)

theorem code_single_use_witness:
  "let ts = Some (postgres_store pairing_world);
       s2 = snd (run_state (authorizedWithStore pairing_world ts (bearer_request zero_token) ''env-1'' ''container-1'') redeemed)
   in fst (run_state (handleBootstrap pairing_world ts (bearer_request []) example_env) s2) = invalid_code"
  unfolding Let_def
  by (rule code_single_use[OF bootstrap_paired _ _ later_request[OF later_now]])
    (auto simp: token_reply_def invalid_code_def prod_eq_iff)

theorem issued_token_authorizes_witness:
  "fst (run_state (authorizedWithStore pairing_world None (bearer_request zero_token) ''env-1'' ''container-1'') redeemed)"
proof -
  have "fst (run_state (authorizedWithStore pairing_world None (bearer_request zero_token) (env_ID example_env)
      ''container-1'') redeemed)"
    by (rule issued_token_authorizes[where T = 0, OF bootstrap_paired[unfolded token_reply_def]
        issued_token_reply[unfolded token_reply_def] bearer_zero]) (simp add: hour_def minute_def second_def)
  then show ?thesis by (simp add: example_env_def)
qed

theorem rotation_revokes_witness:
  "\<not> fst (run_state (authorizedWithStore pairing_world (Some (postgres_store pairing_world))
     (bearer_request ''stale'') ''env-1'' (store_key example_env)) redeemed)"
proof -
  have stale: "bearer_token (in_Header (bearer_request ''stale'')) = Some ''stale''"
    by code_simp
  have "zero_token \<noteq> ''stale''" by code_simp
  then have "\<not> fst (run_state (authorizedWithStore pairing_world (Some (postgres_store pairing_world))
      (bearer_request ''stale'') (env_ID example_env) (store_key example_env)) redeemed)"
    by (intro rotation_revokes[OF bootstrap_paired[unfolded token_reply_def]])
      (simp only: issued_token_reply[unfolded token_reply_def] stale, simp)
  then show ?thesis by (simp add: example_env_def)
qed

theorem token_survives_restart_witness:
  "fst (run_state (authorizedWithStore pairing_world (Some (postgres_store pairing_world)) (bearer_request zero_token)
     ''env-1'' (store_key example_env))
     (redeemed\<lparr>gw_pairing := [], gw_browserAuth := [], ms_client := newMutagenClient\<rparr>))"
proof -
  have "fst (run_state (authorizedWithStore pairing_world (Some (postgres_store pairing_world)) (bearer_request zero_token)
      (env_ID example_env) (store_key example_env))
      (redeemed\<lparr>gw_pairing := [], gw_browserAuth := [], ms_client := newMutagenClient\<rparr>))"
    by (rule token_survives_restart[where T = 0, OF bootstrap_paired[unfolded token_reply_def]
        issued_token_reply[unfolded token_reply_def] bearer_zero]) (simp_all add: hour_def minute_def second_def)
  then show ?thesis by (simp add: example_env_def)
qed


end
