(* ===== verification/Lifecycle.thy ===== *)
theory Lifecycle
  imports Pairing
begin

text \<open>
  What pairing promises, as an abstract machine: an environment has at most one token, a code
  is good for one environment and one use, and both run out. A gateway without a store (the
  default) is simulated by this machine step for step, so that what its traces of events
  satisfy is proved on the machine.
\<close>

section \<open>The gateway as a machine with events\<close>

datatype gw_input =
    InGenerate string
  | InBootstrap in_request Environment
  | InRequest in_request string string

datatype gw_event =
    Generated string string
  | Granted string string string
  | Refused string string
  | Opened string string
  | Shut string "string option"

definition gw_answer :: "world \<Rightarrow> gw_input \<Rightarrow> ('z gw_state_scheme, gw_event) state" where
  "gw_answer w i = (case i of
       InGenerate env \<Rightarrow> do {
         (code, expires) \<leftarrow> GeneratePairingCode w env;
         State_Monad.return (Generated env code)
       }
     | InBootstrap r env \<Rightarrow> do {
         reply \<leftarrow> handleBootstrap w None r env;
         State_Monad.return (case issued reply of
             Some t \<Rightarrow> Granted (env_ID env) (request_code w r) t
           | None \<Rightarrow> Refused (env_ID env) (request_code w r))
       }
     | InRequest r env storeID \<Rightarrow> do {
         ok \<leftarrow> authorizedWithStore w None r env storeID;
         State_Monad.return (case bearer_token (in_Header r) of
             Some t \<Rightarrow> if ok then Opened env t else Shut env (Some t)
           | None \<Rightarrow> Shut env None)
       })"

fun gw_answers :: "world \<Rightarrow> gw_input list \<Rightarrow> ('z gw_state_scheme, gw_event list) state" where
  "gw_answers w [] = State_Monad.return []"
| "gw_answers w (i # is) = do {
     e \<leftarrow> gw_answer w i;
     es \<leftarrow> gw_answers w is;
     State_Monad.return (e # es)
   }"

section \<open>The specification\<close>

record pairing_spec =
  sp_codes :: "string \<Rightarrow> (string \<times> int) option" \<comment> \<open>a code's environment and expiry\<close>
  sp_tokens :: "string \<Rightarrow> (string \<times> int) option" \<comment> \<open>an environment's token and expiry\<close>

definition spec_start :: pairing_spec where
  "spec_start = \<lparr>sp_codes = (\<lambda>_. None), sp_tokens = (\<lambda>_. None)\<rparr>"

text \<open>A reading of the clock.\<close>

definition reading :: "world \<Rightarrow> int \<Rightarrow> bool" where
  "reading w now \<longleftrightarrow> now \<in> range (w_Now w)"

text \<open>Granting takes the code away and makes the token the only one of its environment; a token that some
  other environment has is lost there.\<close>

definition grant :: "string \<Rightarrow> string \<Rightarrow> string \<Rightarrow> int \<Rightarrow> pairing_spec \<Rightarrow> pairing_spec" where
  "grant env code t expires a = a\<lparr>sp_codes := (sp_codes a)(code := None),
     sp_tokens := (\<lambda>e. if e = env then Some (t, expires)
       else if map_option fst (sp_tokens a e) = Some t then None else sp_tokens a e)\<rparr>"

inductive spec_step :: "world \<Rightarrow> pairing_spec \<Rightarrow> gw_event \<Rightarrow> pairing_spec \<Rightarrow> bool" for w where
  spec_generate: "reading w now \<Longrightarrow>
    spec_step w a (Generated env code) (a\<lparr>sp_codes := (sp_codes a)(code := Some (env, now + 5 * minute))\<rparr>)"
| spec_grant: "sp_codes a code = Some (env, x) \<Longrightarrow> reading w now \<Longrightarrow> now \<le> x \<Longrightarrow> reading w issue \<Longrightarrow>
    spec_step w a (Granted env code t) (grant env code t (issue + 24 * hour) a)"
| spec_refuse: "reading w now \<Longrightarrow> (\<And>x. sp_codes a code = Some (env, x) \<Longrightarrow> x < now) \<Longrightarrow>
    spec_step w a (Refused env code) a"
| spec_open: "sp_tokens a env = Some (t, x) \<Longrightarrow> reading w now \<Longrightarrow> now < x \<Longrightarrow> spec_step w a (Opened env t) a"
| spec_shut: "reading w now \<Longrightarrow> (\<And>t x. tok = Some t \<Longrightarrow> sp_tokens a env = Some (t, x) \<Longrightarrow> x \<le> now) \<Longrightarrow>
    spec_step w a (Shut env tok) a"

inductive_cases spec_stepE: "spec_step w a e b"

inductive spec_run :: "world \<Rightarrow> pairing_spec \<Rightarrow> gw_event list \<Rightarrow> pairing_spec \<Rightarrow> bool" for w where
  spec_done: "spec_run w a [] a"
| spec_more: "spec_step w a e b \<Longrightarrow> spec_run w b es c \<Longrightarrow> spec_run w a (e # es) c"

inductive_cases spec_runE: "spec_run w a (e # es) c"

section \<open>The simulation\<close>

definition code_view :: "(string, pairingCode) gomap \<Rightarrow> string \<Rightarrow> (string \<times> int) option" where
  "code_view p code = map_option (\<lambda>e. (pc_EnvID e, pc_ExpiresAt e)) (map_of p code)"

definition holds :: "(string, browserToken) gomap \<Rightarrow> string \<Rightarrow> string \<Rightarrow> int \<Rightarrow> bool" where
  "holds auth env t x \<longleftrightarrow> (case map_of auth t of Some e \<Rightarrow> bt_EnvID e = env \<and> bt_ExpiresAt e = x | None \<Rightarrow> False)"

definition simulated :: "'z gw_state_scheme \<Rightarrow> pairing_spec \<Rightarrow> bool" where
  "simulated s a \<longleftrightarrow> distinct (map fst (gw_browserAuth s)) \<and> sp_codes a = code_view (gw_pairing s) \<and>
     (\<forall>env t x. sp_tokens a env = Some (t, x) \<longleftrightarrow> holds (gw_browserAuth s) env t x)"

lemma reading_now [simp]: "reading w (w_Now w h)"
  by (simp add: reading_def)

lemma map_of_filter_distinct:
  "distinct (map fst xs) \<Longrightarrow> map_of (filter (\<lambda>(k, v). P v) xs) k =
     (case map_of xs k of Some v \<Rightarrow> if P v then Some v else None | None \<Rightarrow> None)"
  by (induction xs) (auto simp: map_of_eq_None_iff split: option.splits dest: map_of_SomeD)

lemma holds_issue:
  assumes "distinct (map fst auth)"
  shows "holds (AList.update t \<lparr>bt_Token = t, bt_EnvID = env, bt_ExpiresAt = y\<rparr>
      (filter (\<lambda>(t, e). bt_EnvID e \<noteq> env) auth)) env' t' x =
    (if t' = t then env' = env \<and> x = y else env' \<noteq> env \<and> holds auth env' t' x)"
  by (auto simp: holds_def update_conv' map_of_filter_distinct[OF assms] split: option.splits)

lemma simulated_grant:
  assumes sim: "simulated s a"
  shows "simulated (s\<lparr>hist := h, gw_pairing := AList.delete code (gw_pairing s),
      gw_browserAuth := AList.update t \<lparr>bt_Token = t, bt_EnvID = env, bt_ExpiresAt = y\<rparr>
        (filter (\<lambda>(t, e). bt_EnvID e \<noteq> env) (gw_browserAuth s))\<rparr>)
    (grant env code t y a)"
proof -
  have d: "distinct (map fst (gw_browserAuth s))" using sim by (simp add: simulated_def)
  then have "distinct (map fst (filter (\<lambda>(t, e). bt_EnvID e \<noteq> env) (gw_browserAuth s)))"
    by (rule distinct_map_filter)
  moreover have "code_view (AList.delete code (gw_pairing s)) = (code_view (gw_pairing s))(code := None)"
    by (rule ext) (simp add: code_view_def delete_conv')
  moreover have "sp_tokens (grant env code t y a) env' = Some (t', x) \<longleftrightarrow>
      (if t' = t then env' = env \<and> x = y else env' \<noteq> env \<and> holds (gw_browserAuth s) env' t' x)" for env' t' x
  proof -
    have "holds (gw_browserAuth s) env' t' x \<longleftrightarrow> sp_tokens a env' = Some (t', x)" using sim by (simp add: simulated_def)
    then show ?thesis by (cases "sp_tokens a env'") (auto simp: grant_def)
  qed
  ultimately show ?thesis
    using sim by (simp add: simulated_def holds_issue[OF d] grant_def distinct_update)
qed

lemma simulated_hist [simp]: "simulated (s\<lparr>hist := h\<rparr>) a = simulated s a"
  by (simp add: simulated_def)

lemma simulated_only_hist: "only_hist s s' \<Longrightarrow> simulated s' a = simulated s a"
  by (auto simp: only_hist_def)

lemma redeem_none:
  "run_state (redeem w None code env) s =
     (let t = base64_url (w_Rand w (hist s) 32); y = w_Now w (CallRand 32 # hist s) + 24 * hour in
      (JSON_reply 200 (JObj [(''bearerToken'', JStr t), (''token'', JStr t), (''tokenType'', JStr ''Bearer''),
         (''expiresAt'', JStr (w_FormatTime w y))]),
       s\<lparr>hist := CallNow # CallRand 32 # hist s, gw_pairing := AList.delete code (gw_pairing s),
         gw_browserAuth := AList.update t \<lparr>bt_Token = t, bt_EnvID = env_ID env, bt_ExpiresAt = y\<rparr>
           (filter (\<lambda>(t, e). bt_EnvID e \<noteq> env_ID env) (gw_browserAuth s))\<rparr>))"
  by (simp add: redeem_def store_Save_def Let_def)

lemma sim_generate:
  assumes sim: "simulated s a" and run: "run_state (gw_answer w (InGenerate env)) s = (e, s')"
  shows "\<exists>b. spec_step w a e b \<and> simulated s' b"
proof -
  obtain code x s1 where 1: "run_state (GeneratePairingCode w env) s = ((code, x), s1)" by (metis prod.exhaust)
  then obtain h n where s1: "x = w_Now w h + 5 * minute" "s1 = s\<lparr>hist := n,
      gw_pairing := AList.update code \<lparr>pc_Code = code, pc_EnvID = env, pc_ExpiresAt = x\<rparr> (gw_pairing s)\<rparr>"
    by (auto simp: GeneratePairingCode_def randomCode_def Let_def)
  have e: "e = Generated env code" "s' = s1" using run 1 by (simp_all add: gw_answer_def)
  have "code_view (gw_pairing s1) = (code_view (gw_pairing s))(code := Some (env, x))"
    by (rule ext) (simp add: s1(2) code_view_def update_conv')
  then have "simulated s1 (a\<lparr>sp_codes := (sp_codes a)(code := Some (env, x))\<rparr>)"
    using sim by (simp add: simulated_def s1(2))
  then show ?thesis using spec_generate[OF reading_now] unfolding e s1(1) by blast
qed

lemma sim_bootstrap:
  assumes sim: "simulated s a" and run: "run_state (gw_answer w (InBootstrap r env)) s = (e, s')"
  shows "\<exists>b. spec_step w a e b \<and> simulated s' b"
proof -
  obtain reply s1 where 1: "run_state (handleBootstrap w None r env) s = (reply, s1)" by fastforce
  have e: "e = (case issued reply of Some t \<Rightarrow> Granted (env_ID env) (request_code w r) t
      | None \<Rightarrow> Refused (env_ID env) (request_code w r))" "s' = s1"
    using run 1 by (simp_all add: gw_answer_def)
  let ?code = "request_code w r"
  let ?valid = "case map_of (gw_pairing s) ?code of None \<Rightarrow> False
    | Some p \<Rightarrow> pc_EnvID p = env_ID env \<and> w_Now w (hist s) \<le> pc_ExpiresAt p"
  show ?thesis
  proof (cases ?valid)
    case True
    then obtain p where p: "map_of (gw_pairing s) ?code = Some p" "pc_EnvID p = env_ID env"
      "w_Now w (hist s) \<le> pc_ExpiresAt p" by (auto split: option.splits)
    let ?s = "s\<lparr>hist := CallNow # hist s\<rparr>"
    have r: "run_state (redeem w None ?code env) ?s = (reply, s1)"
      using 1 p by (simp add: handleBootstrap_def)
    define t where "t = base64_url (w_Rand w (hist ?s) 32)"
    define i where "i = w_Now w (CallRand 32 # hist ?s)"
    have "issued reply = Some t" using r by (auto simp: redeem_none Let_def issued_def json_string_def t_def)
    then have ev: "e = Granted (env_ID env) ?code t" using e by simp
    have sim': "simulated s1 (grant (env_ID env) ?code t (i + 24 * hour) a)"
      using r simulated_grant[of ?s a] sim by (auto simp: redeem_none Let_def t_def i_def)
    have "sp_codes a ?code = Some (env_ID env, pc_ExpiresAt p)"
      using sim p by (simp add: simulated_def code_view_def)
    then have "spec_step w a e (grant (env_ID env) ?code t (i + 24 * hour) a)"
      unfolding ev i_def by (rule spec_grant[OF _ reading_now p(3) reading_now])
    then show ?thesis using sim' e(2) by blast
  next
    case False
    then have "reply = invalid_code \<and> only_hist s s1"
      using 1 by (auto simp: handleBootstrap_def split: option.splits if_splits)
    moreover from this have "e = Refused (env_ID env) ?code" using e by (simp add: issued_def invalid_code_def)
    moreover have "spec_step w a (Refused (env_ID env) ?code) a"
      by (rule spec_refuse[OF reading_now[of w "hist s"]])
        (use False sim in \<open>auto simp: simulated_def code_view_def split: option.splits\<close>)
    ultimately show ?thesis using sim simulated_only_hist e(2) by blast
  qed
qed

lemma sim_request:
  assumes sim: "simulated s a" and run: "run_state (gw_answer w (InRequest r env i)) s = (e, s')"
  shows "\<exists>b. spec_step w a e b \<and> simulated s' b"
proof (cases "bearer_token (in_Header r)")
  case None
  then have "e = Shut env None" "s' = s" using run by (simp_all add: gw_answer_def authorizedWithStore_def)
  moreover have "spec_step w a (Shut env None) a" by (rule spec_shut[OF reading_now[of w "[]"]]) simp
  ultimately show ?thesis using sim by blast
next
  case (Some t)
  obtain ok s1 where 1: "run_state (cached_check w env t) s = (ok, s1)" by fastforce
  note c = cached_check_run[OF 1]
  have "s' = s1 \<and> e = (if ok then Opened env t else Shut env (Some t))"
    using run 1 Some by (cases ok) (simp_all add: gw_answer_def authorizedWithStore_def)
  then have s': "s' = s1" "e = (if ok then Opened env t else Shut env (Some t))" by blast+
  have tok: "sp_tokens a env = Some (t, x) \<longleftrightarrow> holds (gw_browserAuth s) env t x" for x
    using sim by (simp add: simulated_def)
  have "spec_step w a e a"
  proof (cases ok)
    case True
    then obtain b where b: "map_of (gw_browserAuth s) t = Some b" "bt_EnvID b = env" "w_Now w (hist s) < bt_ExpiresAt b"
      using c by blast
    have "sp_tokens a env = Some (t, bt_ExpiresAt b)" using b tok by (simp add: holds_def)
    then show ?thesis using s'(2) True spec_open[OF _ reading_now b(3)] by simp
  next
    case False
    have "x \<le> w_Now w (hist s)" if "sp_tokens a env = Some (t, x)" for x
      using that False c tok[of x] by (auto simp: holds_def not_less split: option.splits)
    then have "spec_step w a (Shut env (Some t)) a"
      by (intro spec_shut[OF reading_now[of w "hist s"]]) simp
    then show ?thesis using s'(2) False by simp
  qed
  then show ?thesis using sim simulated_only_hist c s'(1) by blast
qed

lemma sim_answer:
  "simulated s a \<Longrightarrow> run_state (gw_answer w i) s = (e, s') \<Longrightarrow> \<exists>b. spec_step w a e b \<and> simulated s' b"
  by (cases i) (auto dest: sim_generate sim_bootstrap sim_request)

lemma sim_answers:
  "simulated s a \<Longrightarrow> run_state (gw_answers w is) s = (es, s') \<Longrightarrow> \<exists>b. spec_run w a es b \<and> simulated s' b"
proof (induction "is" arbitrary: s a es)
  case Nil
  then show ?case by (auto intro: spec_done)
next
  case (Cons i "is")
  obtain e s1 where 1: "run_state (gw_answer w i) s = (e, s1)" by fastforce
  obtain es1 s2 where 2: "run_state (gw_answers w is) s1 = (es1, s2)" by fastforce
  have es: "es = e # es1" "s' = s2" using Cons.prems(2) 1 2 by simp_all
  obtain b where b: "spec_step w a e b" "simulated s1 b" using sim_answer[OF Cons.prems(1) 1] by blast
  then show ?case using Cons.IH[OF b(2)] 2 spec_more[OF b(1)] unfolding es by blast
qed

section \<open>Traces\<close>

text \<open>What the events so far (the latest first) say of an environment's token and of a code's environment.\<close>

fun last_grant :: "string \<Rightarrow> gw_event list \<Rightarrow> string option" where
  "last_grant env [] = None"
| "last_grant env (Granted env' code t # past) = (if env' = env then Some t else last_grant env past)"
| "last_grant env (_ # past) = last_grant env past"

fun open_code :: "string \<Rightarrow> gw_event list \<Rightarrow> string option" where
  "open_code code [] = None"
| "open_code code (Generated env code' # past) = (if code' = code then Some env else open_code code past)"
| "open_code code (Granted env code' t # past) = (if code' = code then None else open_code code past)"
| "open_code code (_ # past) = open_code code past"

text \<open>A trace is safe when every grant spends an open code of its environment and every request that is let
  in carries the token of the environment's last grant.\<close>

fun safe_trace :: "gw_event list \<Rightarrow> gw_event list \<Rightarrow> bool" where
  "safe_trace past [] = True"
| "safe_trace past (e # es) =
     ((case e of Opened env t \<Rightarrow> last_grant env past = Some t
       | Granted env code t \<Rightarrow> open_code code past = Some env
       | _ \<Rightarrow> True) \<and> safe_trace (e # past) es)"

definition told :: "gw_event list \<Rightarrow> pairing_spec \<Rightarrow> bool" where
  "told past a \<longleftrightarrow> (\<forall>env t x. sp_tokens a env = Some (t, x) \<longrightarrow> last_grant env past = Some t) \<and>
     (\<forall>code env x. sp_codes a code = Some (env, x) \<longrightarrow> open_code code past = Some env)"

lemma told_step:
  assumes "spec_step w a e b" and told: "told past a"
  shows "told (e # past) b \<and> (case e of Opened env t \<Rightarrow> last_grant env past = Some t
       | Granted env code t \<Rightarrow> open_code code past = Some env | _ \<Rightarrow> True)"
  using assms(1)
proof cases
  case (spec_grant code env x now issue t)
  then show ?thesis using told unfolding told_def by (auto simp: grant_def split: if_splits)
qed (use told in \<open>auto simp: told_def\<close>)

lemma spec_run_safe: "spec_run w a es b \<Longrightarrow> told past a \<Longrightarrow> safe_trace past es"
proof (induction es arbitrary: a past)
  case (Cons e es)
  from Cons.prems(1) obtain c where c: "spec_step w a e c" "spec_run w c es b" by (rule spec_runE)
  show ?case using told_step[OF c(1) Cons.prems(2)] Cons.IH[OF c(2)] by simp
qed simp

section \<open>Properties\<close>



text \<open>Pairing works: a code that is generated and presented for its environment within five minutes is
  granted, and the token of that grant opens the environment within a day.\<close>

theorem pairing_succeeds:
  assumes clock: "\<And>h. T \<le> w_Now w h \<and> w_Now w h \<le> T + 5 * minute"
    and code: "request_code w r = fst (fst (run_state (GeneratePairingCode w (env_ID env)) s))"
    and token: "bearer_token (in_Header r') =
      issued (fst (run_state (handleBootstrap w None r env) (snd (run_state (GeneratePairingCode w (env_ID env)) s))))"
  shows "\<exists>t. fst (run_state (gw_answers w [InGenerate (env_ID env), InBootstrap r env, InRequest r' (env_ID env) i]) s) =
    [Generated (env_ID env) (request_code w r), Granted (env_ID env) (request_code w r) t, Opened (env_ID env) t]"
proof -
  obtain c x s1 where 1: "run_state (GeneratePairingCode w (env_ID env)) s = ((c, x), s1)" by (metis prod.exhaust)
  have c: "request_code w r = c" using code 1 by simp
  obtain h where "x = w_Now w h + 5 * minute" "map_of (gw_pairing s1) c = Some \<lparr>pc_Code = c, pc_EnvID = env_ID env, pc_ExpiresAt = x\<rparr>"
    using 1 by (auto simp: GeneratePairingCode_def randomCode_def Let_def update_conv')
  moreover have "w_Now w (hist s1) \<le> w_Now w h + 5 * minute" using clock[of h] clock[of "hist s1"] by linarith
  ultimately have boot: "run_state (handleBootstrap w None r env) s1 =
      run_state (redeem w None c env) (s1\<lparr>hist := CallNow # hist s1\<rparr>)"
    by (simp add: handleBootstrap_def c)
  obtain reply s2 where 2: "run_state (handleBootstrap w None r env) s1 = (reply, s2)" by fastforce
  obtain t y h' where t: "issued reply = Some t" "y = w_Now w h' + 24 * hour"
    "map_of (gw_browserAuth s2) t = Some \<lparr>bt_Token = t, bt_EnvID = env_ID env, bt_ExpiresAt = y\<rparr>"
    using 2 by (auto simp: boot redeem_none Let_def issued_def json_string_def update_conv')
  have b: "bearer_token (in_Header r') = Some t" using token 1 2 t(1) by simp
  have "(5 :: int) * minute < 24 * hour" by (simp add: hour_def minute_def second_def)
  then have "w_Now w h < y" for h using clock[of h] clock[of h'] t(2) by linarith
  then have "fst (run_state (authorizedWithStore w None r' (env_ID env) i) s2)"
    using t(3) b by (simp add: authorizedWithStore_def cached_check_def)
  then show ?thesis
    using 1 2 c t(1) b by (auto simp: gw_answer_def split: prod.splits)
qed

section \<open>Witnesses\<close>

definition gw_empty :: pg_state where
  "gw_empty = pg_start\<lparr>gw_pairing := [], gw_browserAuth := []\<rparr>"


theorem pairing_succeeds_witness:
  "\<exists>t. fst (run_state (gw_answers pairing_world [InGenerate ''env-1'', InBootstrap plain_request example_env,
       InRequest (bearer_request zero_token) ''env-1'' []]) gw_empty) =
     [Generated ''env-1'' zero_code, Granted ''env-1'' zero_code t, Opened ''env-1'' t]"
proof -
  have e: "env_ID example_env = ''env-1''" by (simp add: example_env_def)
  have c: "fst (fst (run_state (GeneratePairingCode pairing_world (env_ID example_env)) gw_empty)) = zero_code"
    by (simp add: GeneratePairingCode_def randomCode_def zero_codes Let_def)
  have t: "issued (fst (run_state (handleBootstrap pairing_world None plain_request example_env)
      (snd (run_state (GeneratePairingCode pairing_world (env_ID example_env)) gw_empty)))) = Some zero_token"
    by (simp add: GeneratePairingCode_def randomCode_def zero_codes Let_def handleBootstrap_def redeem_none e update_conv'
        issued_def json_string_def minute_def second_def)
  have "\<exists>t. fst (run_state (gw_answers pairing_world [InGenerate (env_ID example_env), InBootstrap plain_request example_env,
       InRequest (bearer_request zero_token) (env_ID example_env) []]) gw_empty) =
     [Generated (env_ID example_env) (request_code pairing_world plain_request),
      Granted (env_ID example_env) (request_code pairing_world plain_request) t, Opened (env_ID example_env) t]"
    by (rule pairing_succeeds[where T = 0])
      (simp_all add: c t bearer_zero minute_def second_def)
  then show ?thesis by (simp only: e zero_request_code)
qed

end
