(* ===== verification/Dockerx.thy ===== *)
theory Dockerx
  imports Model
begin

text \<open>
  The package \<open>internal/dockerx\<close>: discovery of devcontainers, the rule a container falls
  under, the user the manager acts as, the address it talks to, attachment to the configured
  network, and commands run in containers. The Docker Engine API is the world's.
\<close>

section \<open>Pure helpers\<close>

text \<open>
  \<open>parseMetadata\<close>: the label is an array of objects (null elements become nil maps), or one
  object; the slice is nil when there is no label, when it reads \<open>null\<close> and when neither decoding
  succeeds, and the empty slice when it reads \<open>[]\<close>. A repeated key keeps its last value, as
  decoding into a map does.
\<close>

definition object_map :: "(string \<times> json) list \<Rightarrow> (string, json) gomap" where
  "object_map fs = fold (\<lambda>(k, v). AList.update k v) fs []"

fun unmarshal_maps :: "json list \<Rightarrow> metadata_map list option" where
  "unmarshal_maps [] = Some []"
| "unmarshal_maps (JObj fs # js) = map_option (\<lambda>ms. Some (object_map fs) # ms) (unmarshal_maps js)"
| "unmarshal_maps (JNull # js) = map_option (\<lambda>ms. None # ms) (unmarshal_maps js)"
| "unmarshal_maps (_ # js) = None"

definition parseMetadata :: "world \<Rightarrow> string \<Rightarrow> metadata" where
  "parseMetadata w raw =
     (if raw = [] then None
      else case w_json_unmarshal w raw of
        Inr (JArr js) \<Rightarrow> (case unmarshal_maps js of Some ms \<Rightarrow> Some ms | None \<Rightarrow> None)
      | Inr (JObj fs) \<Rightarrow> Some [Some (object_map fs)]
      | _ \<Rightarrow> None)"

definition string_member :: "metadata_map \<Rightarrow> string \<Rightarrow> string option" where
  "string_member m key = (case map_of (of_nil m) key of Some (JStr v) \<Rightarrow> Some v | _ \<Rightarrow> None)"

text \<open>The loop of \<open>metadataString\<close> runs from the last map to the first.\<close>

fun metadata_loop :: "metadata_map list \<Rightarrow> string \<Rightarrow> string" where
  "metadata_loop [] key = []"
| "metadata_loop (m # ms) key =
     (case string_member m key of
        Some v \<Rightarrow> if v \<noteq> [] then v else metadata_loop ms key
      | None \<Rightarrow> metadata_loop ms key)"

definition metadataString :: "metadata \<Rightarrow> string \<Rightarrow> string" where
  "metadataString metadata key = metadata_loop (rev (of_nil metadata)) key"

definition workspaceFolder :: "labels \<Rightarrow> string" where
  "workspaceFolder ls =
     (if map_get ls ''devcontainer.workspace_folder'' \<noteq> []
      then map_get ls ''devcontainer.workspace_folder''
      else map_get ls ''devcontainer.local_folder'')"

text \<open>The ranges over labels go by the order of the association lists, which is that of Docker's answer and of the
  configuration file and as arbitrary as the order of Go's range.\<close>

definition discoveryReasons :: "string \<Rightarrow> labels \<Rightarrow> DiscoveryConfig \<Rightarrow> string list" where
  "discoveryReasons name ls cfg =
     (if map_get ls ''devcontainer.local_folder'' \<noteq> [] then [''devcontainer.local_folder''] else [])
     @ (case find (\<lambda>k. HasPrefix k ''devcontainer.'' \<and> k \<noteq> ''devcontainer.local_folder'') (map fst ls) of
          None \<Rightarrow> [] | Some k \<Rightarrow> [k])
     @ map (\<lambda>(k, v). ''configured-label:'' @ k)
         (filter (\<lambda>(k, v). map_get ls k = v)
           (case disc_IncludeLabels cfg of None \<Rightarrow> [] | Some m \<Rightarrow> m))
     @ map (\<lambda>p. ''name-prefix:'' @ p)
         (filter (HasPrefix name) (disc_IncludeNamePrefixes cfg))"

definition networkEndpoint :: "container_json \<Rightarrow> string \<Rightarrow> string \<Rightarrow> endpoint_settings option" where
  "networkEndpoint inspect networkName networkID =
     (case insp_NetworkSettings inspect of
        None \<Rightarrow> None
      | Some ns \<Rightarrow>
          (case (if networkName \<noteq> [] then Option.bind (map_of (ns_Networks ns) networkName) id else None) of
             Some e \<Rightarrow> Some e
           | None \<Rightarrow>
               if networkID \<noteq> []
               then find (\<lambda>e. ep_NetworkID e = networkID) (List.map_filter snd (ns_Networks ns))
               else None))"

definition containerConnectedToNetwork :: "container_json \<Rightarrow> string \<Rightarrow> string \<Rightarrow> bool" where
  "containerConnectedToNetwork inspect networkName networkID \<longleftrightarrow>
     networkEndpoint inspect networkName networkID \<noteq> None"

text \<open>
  The last loop of \<open>containerIP\<close> reads \<open>network.IPAddress\<close> without the nil test that
  \<open>networkEndpoint\<close> has: a nil endpoint is a panic.
\<close>

fun first_ip :: "(string, endpoint_settings option) gomap \<Rightarrow> string option go" where
  "first_ip [] = Inr None"
| "first_ip ((k, None) # ns) = Inl NilDereference"
| "first_ip ((k, Some e) # ns) = (if ep_IPAddress e \<noteq> [] then Inr (Some (ep_IPAddress e)) else first_ip ns)"

definition fallback_ip :: "network_settings \<Rightarrow> string go" where
  "fallback_ip ns = map_sum id (\<lambda>r. case r of Some ip \<Rightarrow> ip | None \<Rightarrow> ns_IPAddress ns) (first_ip (ns_Networks ns))"

definition containerIP :: "container_json \<Rightarrow> string \<Rightarrow> string go" where
  "containerIP inspect preferred =
     (case insp_NetworkSettings inspect of
        None \<Rightarrow> Inr []
      | Some ns \<Rightarrow>
          (case (if preferred \<noteq> [] then networkEndpoint inspect preferred preferred else None) of
             Some e \<Rightarrow> if ep_IPAddress e \<noteq> [] then Inr (ep_IPAddress e) else fallback_ip ns
           | None \<Rightarrow> fallback_ip ns))"

section \<open>Rules\<close>

definition rule_matches :: "world \<Rightarrow> Container \<Rightarrow> Rule \<Rightarrow> bool" where
  "rule_matches w c r \<longleftrightarrow>
     Matcher_Match w (mr_LocalFolder (rule_Match r)) (ctr_LocalFolder c) \<and>
     Matcher_Match w (mr_ConfigFile (rule_Match r)) (ctr_ConfigFile c) \<and>
     Matcher_Match w (mr_Name (rule_Match r)) (ctr_Name c) \<and>
     list_all (\<lambda>(k, v). map_get (of_nil (ctr_Labels c)) k = v) (mr_Labels (rule_Match r))"

fun MatchRule :: "world \<Rightarrow> Container \<Rightarrow> Rule list \<Rightarrow> Rule option" where
  "MatchRule w c [] = None"
| "MatchRule w c (r # rs) = (if rule_matches w c r then Some r else MatchRule w c rs)"

section \<open>Commands in containers\<close>

definition Exec :: "world \<Rightarrow> string \<Rightarrow> string list \<Rightarrow> string list \<Rightarrow>
    ('z io_state_scheme, string \<times> string option) state" where
  "Exec w containerID cmd args = do {
     let conf = \<lparr>exec_Cmd = cmd @ args, exec_User = [], exec_AttachStdin = False,
                 exec_AttachStdout = True, exec_AttachStderr = True\<rparr>;
     resp \<leftarrow> ask (\<lambda>h. w_ExecCreate w h containerID conf) (CallExecCreate containerID conf);
     case resp of Inl err \<Rightarrow> State_Monad.return ([], Some err)
     | Inr execID \<Rightarrow> do {
         attach \<leftarrow> ask (\<lambda>h. w_ExecAttach w h execID) (CallExecAttach execID);
         case attach of Inl err \<Rightarrow> State_Monad.return ([], Some err)
         | Inr _ \<Rightarrow> do {
             buf \<leftarrow> ask (\<lambda>h. w_ExecRead w h execID) (CallExecRead execID);
             inspect \<leftarrow> ask (\<lambda>h. w_ExecInspect w h execID) (CallExecInspect execID);
             State_Monad.return (case inspect of
               Inl err \<Rightarrow> (buf, Some err)
             | Inr code \<Rightarrow> if code \<noteq> 0 then (buf, Some (TrimSpace buf)) else (buf, None))
           }
       }
   }"

definition ExecWithStdin :: "world \<Rightarrow> string \<Rightarrow> string list \<Rightarrow> string \<Rightarrow> string \<Rightarrow>
    ('z io_state_scheme, string option) state" where
  "ExecWithStdin w containerID cmd user input = do {
     let conf = \<lparr>exec_Cmd = cmd, exec_User = user, exec_AttachStdin = True,
                 exec_AttachStdout = True, exec_AttachStderr = True\<rparr>;
     resp \<leftarrow> ask (\<lambda>h. w_ExecCreate w h containerID conf) (CallExecCreate containerID conf);
     case resp of Inl err \<Rightarrow> State_Monad.return (Some err)
     | Inr execID \<Rightarrow> do {
         attach \<leftarrow> ask (\<lambda>h. w_ExecAttach w h execID) (CallExecAttach execID);
         case attach of Inl err \<Rightarrow> State_Monad.return (Some err)
         | Inr _ \<Rightarrow> do {
             written \<leftarrow> (if length input > 0
               then ask (\<lambda>h. w_ExecWrite w h execID input) (CallExecWrite execID input)
               else State_Monad.return (Inr ()));
             case written of Inl err \<Rightarrow> State_Monad.return (Some err)
             | Inr _ \<Rightarrow> do {
                 closed \<leftarrow> ask (\<lambda>h. w_ExecCloseWrite w h execID) (CallExecCloseWrite execID);
                 case closed of Inl err \<Rightarrow> State_Monad.return (Some err)
                 | Inr _ \<Rightarrow> do {
                     _ \<leftarrow> ask (\<lambda>h. w_ExecRead w h execID) (CallExecRead execID);
                     inspect \<leftarrow> ask (\<lambda>h. w_ExecInspect w h execID) (CallExecInspect execID);
                     State_Monad.return (case inspect of
                       Inl err \<Rightarrow> Some err
                     | Inr code \<Rightarrow> if code \<noteq> 0 then Some (''docker exec exited with code '' @ Itoa code) else None)
                   }
               }
           }
       }
   }"

definition path_kind_script :: string where
  "path_kind_script = ''p=$0; if [ -d \"$p\" ]; then echo directory; elif [ -f \"$p\" ]; then echo file; elif [ -e \"$p\" ]; then echo other; else echo missing; fi''"

definition PathKind :: "world \<Rightarrow> string \<Rightarrow> string \<Rightarrow> ('z io_state_scheme, string \<times> string option) state" where
  "PathKind w containerID path = do {
     (out, err) \<leftarrow> Exec w containerID [''sh'', ''-lc'', path_kind_script] [path];
     State_Monad.return (TrimSpace out, err)
   }"

definition lookupHome :: "world \<Rightarrow> string \<Rightarrow> string \<Rightarrow> bool \<Rightarrow> ('z io_state_scheme, string) state" where
  "lookupHome w containerID user running =
     (if \<not> running \<or> user = [] then State_Monad.return []
      else do {
        (out, err) \<leftarrow> Exec w containerID [''sh'', ''-lc'', ''getent passwd \"$0\" | cut -d: -f6''] [user];
        State_Monad.return (case err of Some _ \<Rightarrow> [] | None \<Rightarrow> TrimSpace out)
      })"

section \<open>The user and the home directory\<close>

text \<open>The body the three middle branches share, with the branch's user and source.\<close>

definition found_user :: "world \<Rightarrow> string \<Rightarrow> DefaultsConfig \<Rightarrow> bool \<Rightarrow> string \<Rightarrow> string \<Rightarrow>
    ('z io_state_scheme, string \<times> string \<times> string) state" where
  "found_user w containerID defaults running user source = do {
     home \<leftarrow> lookupHome w containerID user running;
     State_Monad.return (user, firstNonEmpty [home, def_ContainerHome defaults, ''/home/'' @ user], source)
   }"

definition rule_user :: "world \<Rightarrow> string \<Rightarrow> DefaultsConfig \<Rightarrow> bool \<Rightarrow> Rule \<Rightarrow>
    ('z io_state_scheme, string \<times> string \<times> string) state" where
  "rule_user w containerID defaults running r =
     (let user = firstNonEmpty [rule_ContainerUser r, def_ContainerUser defaults, ''vscode''] in do {
        home \<leftarrow> lookupHome w containerID user running;
        State_Monad.return (user,
          firstNonEmpty [rule_ContainerHome r, home, def_ContainerHome defaults, ''/home/'' @ user], ''rule'')
      })"

definition ResolveUser :: "world \<Rightarrow> string \<Rightarrow> string \<Rightarrow> metadata \<Rightarrow> Rule option \<Rightarrow>
    DefaultsConfig \<Rightarrow> bool \<Rightarrow> ('z io_state_scheme, string \<times> string \<times> string) state" where
  "ResolveUser w containerID configUser metadata rule defaults running =
     (case (case rule of None \<Rightarrow> None
            | Some r \<Rightarrow> if rule_ContainerUser r \<noteq> [] \<or> rule_ContainerHome r \<noteq> [] then Some r else None) of
        Some r \<Rightarrow> rule_user w containerID defaults running r
      | None \<Rightarrow>
          if metadataString metadata ''remoteUser'' \<noteq> []
          then found_user w containerID defaults running (metadataString metadata ''remoteUser'') ''metadata.remoteUser''
          else if metadataString metadata ''containerUser'' \<noteq> []
          then found_user w containerID defaults running (metadataString metadata ''containerUser'') ''metadata.containerUser''
          else if configUser \<noteq> []
          then found_user w containerID defaults running configUser ''container.Config.User''
          else State_Monad.return (firstNonEmpty [def_ContainerUser defaults, ''vscode''],
                 firstNonEmpty [def_ContainerHome defaults, ''/home/vscode''], ''default''))"

section \<open>Inspecting and listing containers\<close>

text \<open>The struct literal of \<open>recordFromInspect\<close>, and the assignments that follow it.\<close>

definition config_labels :: "container_config \<Rightarrow> labels" where
  "config_labels conf = of_nil (cc_Labels conf)"

definition base_record :: "world \<Rightarrow> container_json \<Rightarrow> container_item \<Rightarrow> container_config \<Rightarrow>
    string list \<Rightarrow> int \<Rightarrow> string \<Rightarrow> Container" where
  "base_record w inspect item conf reasons now ip = (let ls = config_labels conf in
     \<lparr>ctr_ID = insp_ID inspect, ctr_ShortID = shortID (insp_ID inspect),
      ctr_Name = TrimPrefix (insp_Name inspect) ''/'',
      ctr_Image = cc_Image conf, ctr_Labels = Some ls, ctr_Status = item_Status item,
      ctr_Running = (insp_State inspect = Some True),
      ctr_LocalFolder = map_get ls ''devcontainer.local_folder'',
      ctr_ConfigFile = map_get ls ''devcontainer.config_file'',
      ctr_WorkspaceFolder = workspaceFolder ls,
      ctr_Metadata = parseMetadata w (map_get ls ''devcontainer.metadata''),
      ctr_ComposeService = map_get ls ''com.docker.compose.service'',
      ctr_ContainerUser = [], ctr_ContainerHome = [], ctr_UserSource = [], ctr_RuleName = [],
      ctr_Rule = None, ctr_LastSeen = now, ctr_ContainerIP = ip, ctr_T3 = empty_t3,
      ctr_Sync = empty_summary, ctr_DiscoveryReasons = reasons, ctr_Warnings = []\<rparr>)"

definition finish_record :: "Container \<Rightarrow> Rule option \<Rightarrow> string \<times> string \<times> string \<Rightarrow> Container" where
  "finish_record r rule uhs = (case uhs of (user, home, source) \<Rightarrow>
     (let r2 = r\<lparr>ctr_Rule := rule, ctr_RuleName := (case rule of None \<Rightarrow> [] | Some q \<Rightarrow> rule_Name q),
                 ctr_ContainerUser := user, ctr_ContainerHome := home, ctr_UserSource := source\<rparr>
      in if user = ''root'' \<and> (case rule of None \<Rightarrow> True | Some q \<Rightarrow> rule_ContainerUser q = [])
         then r2\<lparr>ctr_Warnings := ctr_Warnings r2 @ [''resolved container user is root'']\<rparr>
         else r2))"

definition recordFromInspect :: "world \<Rightarrow> container_json \<Rightarrow> container_item \<Rightarrow> Config \<Rightarrow>
    ('z io_state_scheme, Container option go) state" where
  "recordFromInspect w inspect item cfg = (case insp_Config inspect of
     None \<Rightarrow> State_Monad.return (Inl NilDereference)
   | Some conf \<Rightarrow>
     (let reasons = discoveryReasons (TrimPrefix (insp_Name inspect) ''/'') (config_labels conf) (cfg_Discovery cfg)
      in if length reasons = 0 then State_Monad.return (Inr None)
      else do {
        now \<leftarrow> time_Now w;
        case containerIP inspect (TrimSpace (disc_ConnectToNetwork (cfg_Discovery cfg))) of
          Inl p \<Rightarrow> State_Monad.return (Inl p)
        | Inr ip \<Rightarrow> do {
            let r = base_record w inspect item conf reasons now ip;
            let rule = MatchRule w r (cfg_Rules cfg);
            uhs \<leftarrow> ResolveUser w (insp_ID inspect) (cc_User conf) (ctr_Metadata r) rule
              (cfg_Defaults cfg) (insp_State inspect = Some True);
            State_Monad.return (Inr (Some (finish_record r rule uhs)))
          }
      }))"

definition ensureConnectedToNetwork :: "world \<Rightarrow> container_json \<Rightarrow> string \<Rightarrow>
    ('z io_state_scheme, container_json \<times> bool \<times> string option) state" where
  "ensureConnectedToNetwork w inspect network0 =
     (let networkName = TrimSpace network0 in
      if networkName = [] \<or> insp_ID inspect = [] then State_Monad.return (inspect, False, None)
      else do {
        resource \<leftarrow> ask (\<lambda>h. w_NetworkInspect w h networkName) (CallNetworkInspect networkName);
        case resource of Inl err \<Rightarrow> State_Monad.return (inspect, False, Some err)
        | Inr networkID \<Rightarrow>
          if containerConnectedToNetwork inspect networkName networkID
          then State_Monad.return (inspect, False, None)
          else do {
            connect \<leftarrow> ask (\<lambda>h. w_NetworkConnect w h networkID (insp_ID inspect))
              (CallNetworkConnect networkID (insp_ID inspect));
            refreshed \<leftarrow> ask (\<lambda>h. w_ContainerInspect w h (insp_ID inspect))
              (CallContainerInspect (insp_ID inspect));
            State_Monad.return (case connect of
              Inl err \<Rightarrow> (case refreshed of
                Inr r \<Rightarrow> if containerConnectedToNetwork r networkName networkID then (r, True, None)
                        else (inspect, False, Some err)
              | Inl _ \<Rightarrow> (inspect, False, Some err))
            | Inr _ \<Rightarrow> (case refreshed of
                Inl _ \<Rightarrow> (inspect, True, None)
              | Inr r \<Rightarrow> (r, True, None)))
          }
      })"

text \<open>What \<open>ListDevcontainers\<close> does with the outcome of the attachment.\<close>

definition after_attach :: "Container \<Rightarrow> string \<Rightarrow> container_json \<times> bool \<times> string option \<Rightarrow> Container go" where
  "after_attach record networkName outcome = (case outcome of (refreshed, connected, err) \<Rightarrow>
     (case err of
        Some e \<Rightarrow> Inr (record\<lparr>ctr_Warnings := ctr_Warnings record @
          [''failed to connect to docker network '' @ networkName @ '': '' @ e]\<rparr>)
      | None \<Rightarrow> (case containerIP refreshed networkName of
          Inl p \<Rightarrow> Inl p
        | Inr ip \<Rightarrow> Inr (record\<lparr>ctr_ContainerIP := ip\<rparr>))))"

text \<open>One round of the loop of \<open>ListDevcontainers\<close>, and the loop.\<close>

definition list_item :: "world \<Rightarrow> Config \<Rightarrow> string \<Rightarrow> container_item \<Rightarrow>
    ('z io_state_scheme, Container list go) state" where
  "list_item w cfg networkName item = do {
     r \<leftarrow> ask (\<lambda>h. w_ContainerInspect w h (item_ID item)) (CallContainerInspect (item_ID item));
     case r of Inl err \<Rightarrow> State_Monad.return (Inr [])
     | Inr inspect \<Rightarrow> bind_sum (recordFromInspect w inspect item cfg) (\<lambda>o1. case o1 of
         None \<Rightarrow> State_Monad.return (Inr [])
       | Some record \<Rightarrow>
           if networkName \<noteq> [] \<and> ctr_Running record then do {
             outcome \<leftarrow> ensureConnectedToNetwork w inspect networkName;
             State_Monad.return (map_sum id (\<lambda>c. [c]) (after_attach record networkName outcome))
           }
           else State_Monad.return (Inr [record]))
   }"

fun list_loop :: "world \<Rightarrow> Config \<Rightarrow> string \<Rightarrow> container_item list \<Rightarrow>
    ('z io_state_scheme, Container list go) state" where
  "list_loop w cfg networkName [] = State_Monad.return (Inr [])"
| "list_loop w cfg networkName (item # items) =
     bind_sum (list_item w cfg networkName item) (\<lambda>here.
     bind_sum (list_loop w cfg networkName items) (\<lambda>out. State_Monad.return (Inr (here @ out))))"

definition ListDevcontainers :: "world \<Rightarrow> Config \<Rightarrow> ('z io_state_scheme, Container list res go) state" where
  "ListDevcontainers w cfg = do {
     l \<leftarrow> ask (w_ContainerList w) CallContainerList;
     case l of Inl err \<Rightarrow> State_Monad.return (Inr (Inl err))
     | Inr items \<Rightarrow>
         bind_sum (list_loop w cfg (TrimSpace (disc_ConnectToNetwork (cfg_Discovery cfg))) items)
           (\<lambda>out. State_Monad.return (Inr (Inr out)))
   }"


section \<open>The client itself\<close>

text \<open>
  A client only holds the API handle of the Docker library, which is the world; making one
  fails when the environment it is read from is wrong. The events asked for are those of
  containers that start or end.
\<close>

definition dockerx_New :: "world \<Rightarrow> ('z io_state_scheme, unit res) state" where
  "dockerx_New w = ask (w_DockerNew w) CallDockerNew"

definition dockerx_Close :: "('z io_state_scheme, unit) state" where
  "dockerx_Close = ask (\<lambda>_. ()) CallDockerClose"

definition events_filter :: "(string \<times> string) list" where
  "events_filter = (''type'', ''container'') # map (\<lambda>action. (''event'', action)) [''start'', ''die'', ''destroy'', ''restart'']"

definition Events :: "('z io_state_scheme, unit) state" where
  "Events = ask (\<lambda>_. ()) (CallEvents events_filter)"

section \<open>Lemmas: matching and discovery\<close>

lemma MatchRule_find: "MatchRule w c rs = find (rule_matches w c) rs"
  by (induction rs) auto

lemma MatchRule_in: "MatchRule w c rs = Some r \<Longrightarrow> r \<in> set rs \<and> rule_matches w c r"
  by (induction rs) (auto split: if_splits)

lemma MatchRule_Some_iff:
  "MatchRule w c rs = Some r \<longleftrightarrow>
     (\<exists>pre post. rs = pre @ r # post \<and> rule_matches w c r \<and> (\<forall>q\<in>set pre. \<not> rule_matches w c q))"
proof (induction rs)
  case Nil
  then show ?case by simp
next
  case (Cons q rs)
  show ?case
  proof (cases "rule_matches w c q")
    case True
    then show ?thesis by (auto simp: Cons_eq_append_conv)
  next
    case False
    with Cons show ?thesis by (auto simp: Cons_eq_append_conv) (metis append_Cons set_ConsD)
  qed
qed

text \<open>A map of the metadata that says nothing about a key: no string, or the empty one.\<close>

definition silent :: "string \<Rightarrow> metadata_map \<Rightarrow> bool" where
  "silent key m \<longleftrightarrow> string_member m key \<in> {None, Some []}"

lemma metadata_loop_skip:
  "list_all (silent key) pre \<Longrightarrow> metadata_loop (pre @ ms) key = metadata_loop ms key"
  by (induction pre) (auto simp: silent_def)

lemma metadata_loop_all_silent: "list_all (silent key) ms \<Longrightarrow> metadata_loop ms key = []"
  using metadata_loop_skip[of key ms "[]"] by simp

lemma metadata_loop_found:
  assumes "metadata_loop ms key \<noteq> []"
  shows "\<exists>pre m post. ms = pre @ m # post \<and> string_member m key = Some (metadata_loop ms key) \<and>
    list_all (silent key) pre"
  using assms
proof (induction ms)
  case Nil
  then show ?case by simp
next
  case (Cons m ms)
  show ?case
  proof (cases "silent key m")
    case True
    then have eq: "metadata_loop (m # ms) key = metadata_loop ms key"
      using metadata_loop_skip[of key "[m]" ms] by simp
    with Cons obtain pre m' post where "ms = pre @ m' # post"
      "string_member m' key = Some (metadata_loop ms key)" "list_all (silent key) pre" by auto
    with True eq show ?thesis by (intro exI[of _ "m # pre"] exI[of _ m'] exI[of _ post]) simp
  next
    case False
    then show ?thesis
      by (intro exI[of _ "[]"] exI[of _ m] exI[of _ ms]) (auto simp: silent_def)
  qed
qed

definition discovered :: "string \<Rightarrow> labels \<Rightarrow> DiscoveryConfig \<Rightarrow> bool" where
  "discovered name ls cfg \<longleftrightarrow>
     map_get ls ''devcontainer.local_folder'' \<noteq> [] \<or>
     list_ex (\<lambda>(k, v). prefix ''devcontainer.'' k \<and> k \<noteq> ''devcontainer.local_folder'') ls \<or>
     list_ex (\<lambda>(k, v). map_get ls k = v) (case disc_IncludeLabels cfg of None \<Rightarrow> [] | Some m \<Rightarrow> m) \<or>
     list_ex (\<lambda>p. prefix p name) (disc_IncludeNamePrefixes cfg)"

lemma case_find_empty: "(case find P xs of None \<Rightarrow> [] | Some k \<Rightarrow> [k]) = [] \<longleftrightarrow> \<not> list_ex P xs"
  by (induction xs) auto

lemma discoveryReasons_nonempty: "discoveryReasons name ls cfg \<noteq> [] \<longleftrightarrow> discovered name ls cfg"
  unfolding discoveryReasons_def discovered_def append_is_Nil_conv case_find_empty
  by (auto simp: filter_empty_conv HasPrefix_iff list_ex_iff split: option.splits)

lemma discovered_perm:
  assumes "mset ls = mset ls'" "distinct (map fst ls)"
  shows "discovered name ls cfg = discovered name ls' cfg"
  using map_get_perm[OF assms] mset_eq_setD[OF assms(1)]
  by (simp add: discovered_def list_ex_iff)

section \<open>Lemmas: addresses\<close>

definition addresses :: "container_json \<Rightarrow> string list" where
  "addresses inspect = (case insp_NetworkSettings inspect of None \<Rightarrow> []
     | Some ns \<Rightarrow> ns_IPAddress ns # map ep_IPAddress (List.map_filter snd (ns_Networks ns)))"

definition nil_free :: "container_json \<Rightarrow> bool" where
  "nil_free inspect = (case insp_NetworkSettings inspect of None \<Rightarrow> True
     | Some ns \<Rightarrow> list_all (\<lambda>(k, e). e \<noteq> None) (ns_Networks ns))"

lemma in_endpoints: "e \<in> set (List.map_filter snd ns) \<longleftrightarrow> (\<exists>k. (k, Some e) \<in> set ns)"
  by (force simp: List.map_filter_def)

lemma first_ip_no_panic: "list_all (\<lambda>(k, e). e \<noteq> None) ns \<Longrightarrow> first_ip ns \<noteq> Inl p"
  by (induction ns rule: first_ip.induct) auto

lemma first_ip_Some:
  "first_ip ns = Inr (Some ip) \<Longrightarrow> ip \<noteq> [] \<and> ip \<in> ep_IPAddress ` set (List.map_filter snd ns)"
  by (induction ns rule: first_ip.induct) (auto simp: map_filter_simps split: if_splits)

lemma first_ip_None:
  "first_ip ns = Inr None \<Longrightarrow> e \<in> set (List.map_filter snd ns) \<Longrightarrow> ep_IPAddress e = []"
  by (induction ns rule: first_ip.induct) (auto simp: map_filter_simps split: if_splits)

lemma networkEndpoint_in:
  assumes "networkEndpoint i n d = Some e"
  shows "ep_IPAddress e \<in> set (addresses i)"
proof -
  obtain ns where ns: "insp_NetworkSettings i = Some ns"
    using assms by (auto simp: networkEndpoint_def split: option.splits)
  have "e \<in> set (List.map_filter snd (ns_Networks ns))"
    using assms ns unfolding in_endpoints
    by (auto simp: networkEndpoint_def find_Some_iff bind_eq_Some_conv in_endpoints[symmetric]
        split: option.splits if_splits dest!: map_of_SomeD) (auto simp: in_endpoints)
  then show ?thesis by (simp add: addresses_def ns)
qed

lemma fallback_ip_in: "fallback_ip ns = Inr ip \<Longrightarrow>
    ip \<in> insert (ns_IPAddress ns) (ep_IPAddress ` set (List.map_filter snd (ns_Networks ns)))"
  by (cases "first_ip (ns_Networks ns)")
    (auto simp: fallback_ip_def dest: first_ip_Some split: option.splits)

lemma containerIP_in_addresses:
  assumes "containerIP i p = Inr ip" "ip \<noteq> []"
  shows "ip \<in> set (addresses i)"
proof -
  obtain ns where ns: "insp_NetworkSettings i = Some ns"
    using assms by (auto simp: containerIP_def split: option.splits)
  have "ip \<in> set (addresses i) \<or> fallback_ip ns = Inr ip"
    using assms(1) ns networkEndpoint_in[of i p p]
    by (auto simp: containerIP_def split: option.splits if_splits)
  then show ?thesis
    using fallback_ip_in[of ns ip] by (auto simp: addresses_def ns)
qed

lemma containerIP_no_panic: "nil_free i \<Longrightarrow> containerIP i p \<noteq> Inl q"
  using first_ip_no_panic
  by (fastforce simp: containerIP_def fallback_ip_def nil_free_def map_sum_def
      split: option.splits if_splits sum.splits)

lemma containerIP_empty:
  assumes "containerIP i p = Inr []"
  shows "list_all (\<lambda>a. a = []) (addresses i)"
proof (cases "insp_NetworkSettings i")
  case None
  then show ?thesis by (simp add: addresses_def)
next
  case (Some ns)
  then have "fallback_ip ns = Inr []"
    using assms by (auto simp: containerIP_def split: option.splits if_splits)
  then have "first_ip (ns_Networks ns) = Inr None \<and> ns_IPAddress ns = []"
    using first_ip_Some by (cases "first_ip (ns_Networks ns)") (fastforce simp: fallback_ip_def split: option.splits)+
  then show ?thesis
    using first_ip_None Some by (fastforce simp: addresses_def list_all_iff)
qed

section \<open>Lemmas: which calls are made\<close>

fun exec_call :: "string \<Rightarrow> call \<Rightarrow> bool" where
  "exec_call cid (CallExecCreate c _) \<longleftrightarrow> c = cid"
| "exec_call cid (CallExecAttach _) = True"
| "exec_call cid (CallExecWrite _ _) = True"
| "exec_call cid (CallExecCloseWrite _) = True"
| "exec_call cid (CallExecRead _) = True"
| "exec_call cid (CallExecInspect _) = True"
| "exec_call cid _ = False"

lemma Exec_io [call_rules]: "(\<And>c. exec_call cid c \<Longrightarrow> P c) \<Longrightarrow> io_only P (Exec w cid cmd args)"
  unfolding Exec_def Let_def by (intro call_rules) auto

lemma ExecWithStdin_io [call_rules]:
  "(\<And>c. exec_call cid c \<Longrightarrow> P c) \<Longrightarrow> io_only P (ExecWithStdin w cid cmd user input)"
  unfolding ExecWithStdin_def Let_def by (intro call_rules) auto

lemma PathKind_io [call_rules]: "(\<And>c. exec_call cid c \<Longrightarrow> P c) \<Longrightarrow> io_only P (PathKind w cid path)"
  unfolding PathKind_def by (intro call_rules) auto

lemma lookupHome_io [call_rules]:
  "(\<And>c. exec_call cid c \<Longrightarrow> P c) \<Longrightarrow> io_only P (lookupHome w cid user running)"
  unfolding lookupHome_def by (intro call_rules) auto

lemma ResolveUser_io [call_rules]:
  "(\<And>c. exec_call cid c \<Longrightarrow> P c) \<Longrightarrow> io_only P (ResolveUser w cid cu md rule defaults running)"
  unfolding ResolveUser_def rule_user_def found_user_def Let_def by (intro call_rules) auto

lemma recordFromInspect_io [call_rules]:
  "(\<And>c. exec_call (insp_ID i) c \<Longrightarrow> P c) \<Longrightarrow> P CallNow \<Longrightarrow> io_only P (recordFromInspect w i item cfg)"
  unfolding recordFromInspect_def Let_def by (intro call_rules) auto


section \<open>Lemmas: the user and the record of a container\<close>

definition resolved_source :: "string \<Rightarrow> metadata \<Rightarrow> Rule option \<Rightarrow> string" where
  "resolved_source configUser md rule =
     (if \<exists>r. rule = Some r \<and> (rule_ContainerUser r \<noteq> [] \<or> rule_ContainerHome r \<noteq> []) then ''rule''
      else if metadataString md ''remoteUser'' \<noteq> [] then ''metadata.remoteUser''
      else if metadataString md ''containerUser'' \<noteq> [] then ''metadata.containerUser''
      else if configUser \<noteq> [] then ''container.Config.User'' else ''default'')"

lemma fst_bind: "fst (run_state (State_Monad.bind m f) s) =
    (case run_state m s of (a, s') \<Rightarrow> fst (run_state (f a) s'))"
  by (simp split: prod.split)

lemma found_user_result:
  assumes "run_state (found_user w cid d running user source) s = ((u, h, src), s')"
  shows "u = user \<and> src = source \<and> h \<noteq> [] \<and>
    (\<not> running \<longrightarrow> s' = s \<and> (def_ContainerHome d \<noteq> [] \<longrightarrow> h = def_ContainerHome d))"
  using assms by (auto simp: found_user_def lookupHome_def split: prod.splits if_splits)

lemma rule_user_result:
  assumes "run_state (rule_user w cid d running r) s = ((u, h, src), s')"
  shows "u = firstNonEmpty [rule_ContainerUser r, def_ContainerUser d, ''vscode''] \<and> src = ''rule'' \<and> h \<noteq> [] \<and>
    (\<not> running \<longrightarrow> s' = s \<and> (def_ContainerHome d \<noteq> [] \<longrightarrow>
       h = firstNonEmpty [rule_ContainerHome r, def_ContainerHome d]))"
  using assms by (auto simp: rule_user_def Let_def lookupHome_def split: prod.splits if_splits)

lemma ResolveUser_result:
  assumes "run_state (ResolveUser w cid cu md rule d running) s = ((u, h, src), s')"
  shows "u \<noteq> [] \<and> h \<noteq> [] \<and> src = resolved_source cu md rule \<and>
    u = (if src = ''rule'' then firstNonEmpty [rule_ContainerUser (the rule), def_ContainerUser d, ''vscode'']
         else firstNonEmpty [metadataString md ''remoteUser'', metadataString md ''containerUser'', cu,
           def_ContainerUser d, ''vscode'']) \<and>
    (\<not> running \<longrightarrow> s' = s \<and> (def_ContainerHome d \<noteq> [] \<longrightarrow>
       h = firstNonEmpty [if src = ''rule'' then rule_ContainerHome (the rule) else [], def_ContainerHome d]))"
proof (cases "\<exists>r. rule = Some r \<and> (rule_ContainerUser r \<noteq> [] \<or> rule_ContainerHome r \<noteq> [])")
  case True
  then obtain r where r: "rule = Some r" "rule_ContainerUser r \<noteq> [] \<or> rule_ContainerHome r \<noteq> []" by blast
  then have "run_state (rule_user w cid d running r) s = ((u, h, src), s')"
    using assms by (auto simp: ResolveUser_def)
  from rule_user_result[OF this] r show ?thesis by (auto simp: resolved_source_def)
next
  case False
  then have none: "(case rule of None \<Rightarrow> None
      | Some r \<Rightarrow> if rule_ContainerUser r \<noteq> [] \<or> rule_ContainerHome r \<noteq> [] then Some r else None) = None"
    by (auto split: option.split)
  from False have src: "resolved_source cu md rule =
      (if metadataString md ''remoteUser'' \<noteq> [] then ''metadata.remoteUser''
       else if metadataString md ''containerUser'' \<noteq> [] then ''metadata.containerUser''
       else if cu \<noteq> [] then ''container.Config.User'' else ''default'')"
    by (simp only: resolved_source_def if_False)
  show ?thesis
    using assms unfolding ResolveUser_def none option.case src
    by (auto dest!: found_user_result split: if_splits)
qed

text \<open>
  The user and the home the code's comments and names promise, by the source: the first non-empty of
  these, \<open>looked\<close> being what the container's user database says of the user.
\<close>

definition resolved_user :: "string \<Rightarrow> metadata \<Rightarrow> Rule option \<Rightarrow> DefaultsConfig \<Rightarrow> string" where
  "resolved_user cu md rule d =
     (if resolved_source cu md rule = ''rule'' then firstNonEmpty [rule_ContainerUser (the rule), def_ContainerUser d, ''vscode'']
      else firstNonEmpty [metadataString md ''remoteUser'', metadataString md ''containerUser'', cu,
        def_ContainerUser d, ''vscode''])"

definition resolved_home :: "string \<Rightarrow> metadata \<Rightarrow> Rule option \<Rightarrow> DefaultsConfig \<Rightarrow> string \<Rightarrow> string" where
  "resolved_home cu md rule d looked = firstNonEmpty
     (if resolved_source cu md rule = ''default'' then [def_ContainerHome d, ''/home/vscode'']
      else (if resolved_source cu md rule = ''rule'' then [rule_ContainerHome (the rule)] else []) @
        [looked, def_ContainerHome d, ''/home/'' @ resolved_user cu md rule d])"

lemma lookupHome_not_running: "run_state (lookupHome w cid user False) s = ([], s)"
  by (simp add: lookupHome_def)

lemma found_user_home:
  assumes "run_state (found_user w cid d running user source) s = ((u, h, src), s')"
  obtains looked where "h = firstNonEmpty [looked, def_ContainerHome d, ''/home/'' @ user]" "running \<or> looked = []"
proof -
  obtain looked s1 where l: "run_state (lookupHome w cid user running) s = (looked, s1)" by (metis prod.exhaust)
  have "running \<or> looked = []" using l by (cases running) (simp_all add: lookupHome_not_running)
  moreover have "h = firstNonEmpty [looked, def_ContainerHome d, ''/home/'' @ user]"
    using assms by (auto simp: found_user_def l simp del: firstNonEmpty.simps)
  ultimately show ?thesis using that by blast
qed

lemma rule_user_home:
  assumes "run_state (rule_user w cid d running r) s = ((u, h, src), s')"
  obtains looked where "h = firstNonEmpty [rule_ContainerHome r, looked, def_ContainerHome d,
      ''/home/'' @ firstNonEmpty [rule_ContainerUser r, def_ContainerUser d, ''vscode'']]" "running \<or> looked = []"
proof -
  let ?user = "firstNonEmpty [rule_ContainerUser r, def_ContainerUser d, ''vscode'']"
  obtain looked s1 where l: "run_state (lookupHome w cid ?user running) s = (looked, s1)" by (metis prod.exhaust)
  have "running \<or> looked = []" using l by (cases running) (simp_all add: lookupHome_not_running)
  moreover have "h = firstNonEmpty [rule_ContainerHome r, looked, def_ContainerHome d, ''/home/'' @ ?user]"
    using assms by (auto simp: rule_user_def Let_def l simp del: firstNonEmpty.simps)
  ultimately show ?thesis using that by blast
qed

lemma ResolveUser_home:
  assumes "run_state (ResolveUser w cid cu md rule d running) s = ((u, h, src), s')"
  shows "\<exists>looked. h = resolved_home cu md rule d looked \<and> (running \<or> looked = [])"
proof (cases "\<exists>r. rule = Some r \<and> (rule_ContainerUser r \<noteq> [] \<or> rule_ContainerHome r \<noteq> [])")
  case True
  then obtain r where r: "rule = Some r" "rule_ContainerUser r \<noteq> [] \<or> rule_ContainerHome r \<noteq> []" by blast
  then have "run_state (rule_user w cid d running r) s = ((u, h, src), s')"
    using assms by (auto simp: ResolveUser_def)
  then show ?thesis
  proof (rule rule_user_home)
    fix looked
    assume h: "h = firstNonEmpty [rule_ContainerHome r, looked, def_ContainerHome d,
      ''/home/'' @ firstNonEmpty [rule_ContainerUser r, def_ContainerUser d, ''vscode'']]" and l: "running \<or> looked = []"
    have src: "resolved_source cu md rule = ''rule''" using True by (simp only: resolved_source_def if_True)
    have "h = resolved_home cu md rule d looked"
      unfolding resolved_home_def resolved_user_def src h by (simp del: firstNonEmpty.simps add: r(1))
    with l show ?thesis by blast
  qed
next
  case False
  then have none: "(case rule of None \<Rightarrow> None
      | Some r \<Rightarrow> if rule_ContainerUser r \<noteq> [] \<or> rule_ContainerHome r \<noteq> [] then Some r else None) = None"
    by (auto split: option.split)
  from False have src: "resolved_source cu md rule =
      (if metadataString md ''remoteUser'' \<noteq> [] then ''metadata.remoteUser''
       else if metadataString md ''containerUser'' \<noteq> [] then ''metadata.containerUser''
       else if cu \<noteq> [] then ''container.Config.User'' else ''default'')"
    by (simp only: resolved_source_def if_False)
  show ?thesis
  proof (cases "metadataString md ''remoteUser'' = [] \<and> metadataString md ''containerUser'' = [] \<and> cu = []")
    case True
    then have "h = firstNonEmpty [def_ContainerHome d, ''/home/vscode'']"
      using assms by (simp only: ResolveUser_def none option.case) (simp del: firstNonEmpty.simps)
    then show ?thesis unfolding resolved_home_def src using True by (intro exI[of _ "[]"]) (simp del: firstNonEmpty.simps)
  next
    case found: False
    then obtain user source where run: "run_state (found_user w cid d running user source) s = ((u, h, src), s')"
        "user = resolved_user cu md rule d"
    proof -
      have "resolved_source cu md rule \<noteq> ''rule''" unfolding src by simp
      then have ru: "resolved_user cu md rule d = firstNonEmpty
          [metadataString md ''remoteUser'', metadataString md ''containerUser'', cu, def_ContainerUser d, ''vscode'']"
        unfolding resolved_user_def by (simp only: if_False)
      note run = assms[unfolded ResolveUser_def none option.case]
      consider (r) "metadataString md ''remoteUser'' \<noteq> []"
        | (c) "metadataString md ''remoteUser'' = []" "metadataString md ''containerUser'' \<noteq> []"
        | (i) "metadataString md ''remoteUser'' = []" "metadataString md ''containerUser'' = []" "cu \<noteq> []"
        using found by blast
      then show ?thesis
      proof cases
        case r
        have "metadataString md ''remoteUser'' = resolved_user cu md rule d" unfolding ru by (simp add: r)
        with run[unfolded if_P[OF r]] show ?thesis by (rule that)
      next
        case c
        have "metadataString md ''containerUser'' = resolved_user cu md rule d" unfolding ru by (simp add: c)
        with run[unfolded c(1) if_P[OF c(2)] simp_thms if_False] show ?thesis by (rule that)
      next
        case i
        have "cu = resolved_user cu md rule d" unfolding ru by (simp add: i)
        with run[unfolded i(1,2) if_P[OF i(3)] simp_thms if_False] show ?thesis by (rule that)
      qed
    qed
    have "resolved_source cu md rule \<noteq> ''default'' \<and> resolved_source cu md rule \<noteq> ''rule''"
      using found unfolding src by auto
    then have "resolved_home cu md rule d looked = firstNonEmpty [looked, def_ContainerHome d, ''/home/'' @ user]" for looked
      unfolding resolved_home_def run(2) by (simp only: if_False append_Nil)
    then show ?thesis using found_user_home[OF run(1)] by metis
  qed
qed

lemma ResolveUser_nonempty:
  assumes "run_state (ResolveUser w cid cu md rule d running) s = ((u, h, src), s')"
  shows "u \<noteq> [] \<and> h \<noteq> [] \<and> src = resolved_source cu md rule"
  using ResolveUser_result[OF assms] by blast

text \<open>What a listed container satisfies, whatever the world answers.\<close>

definition container_ok :: "world \<Rightarrow> Config \<Rightarrow> Container \<Rightarrow> bool" where
  "container_ok w cfg c \<longleftrightarrow>
     ctr_DiscoveryReasons c = discoveryReasons (ctr_Name c) (of_nil (ctr_Labels c)) (cfg_Discovery cfg) \<and>
     ctr_DiscoveryReasons c \<noteq> [] \<and> ctr_ShortID c = shortID (ctr_ID c) \<and>
     ctr_Rule c = MatchRule w c (cfg_Rules cfg) \<and>
     ctr_RuleName c = (case ctr_Rule c of None \<Rightarrow> [] | Some r \<Rightarrow> rule_Name r) \<and>
     ctr_ContainerUser c \<noteq> [] \<and> ctr_ContainerHome c \<noteq> [] \<and> ctr_T3 c = empty_t3 \<and>
     (ctr_ContainerUser c = ''root'' \<and> (\<forall>r. ctr_Rule c = Some r \<longrightarrow> rule_ContainerUser r = []) \<longrightarrow>
        ctr_Warnings c \<noteq> [])"

text \<open>The record of a container against the inspection it was made from.\<close>

definition described :: "world \<Rightarrow> Config \<Rightarrow> container_json \<Rightarrow> Container \<Rightarrow> bool" where
  "described w cfg i c \<longleftrightarrow> (\<exists>conf looked. insp_Config i = Some conf \<and>
     ctr_ID c = insp_ID i \<and> ctr_Name c = TrimPrefix (insp_Name i) ''/'' \<and> ctr_Image c = cc_Image conf \<and>
     ctr_Running c = (insp_State i = Some True) \<and> ctr_Labels c = Some (of_nil (cc_Labels conf)) \<and>
     ctr_Metadata c = parseMetadata w (map_get (of_nil (cc_Labels conf)) ''devcontainer.metadata'') \<and>
     ctr_UserSource c = resolved_source (cc_User conf) (ctr_Metadata c) (ctr_Rule c) \<and>
     ctr_ContainerUser c = resolved_user (cc_User conf) (ctr_Metadata c) (ctr_Rule c) (cfg_Defaults cfg) \<and>
     ctr_ContainerHome c = resolved_home (cc_User conf) (ctr_Metadata c) (ctr_Rule c) (cfg_Defaults cfg) looked \<and>
     (ctr_Running c \<or> looked = []))"

text \<open>It was made from what Docker answered when asked about it, during the run with this history.\<close>

definition inspected :: "world \<Rightarrow> Config \<Rightarrow> call list \<Rightarrow> Container \<Rightarrow> bool" where
  "inspected w cfg hs c \<longleftrightarrow> (\<exists>h cid i. suffix (CallContainerInspect cid # h) hs \<and>
     w_ContainerInspect w h cid = Inr i \<and> described w cfg i c)"

lemma inspected_later: "inspected w cfg hs c \<Longrightarrow> inspected w cfg (new @ hs) c"
  unfolding inspected_def by (meson suffix_appendI)

lemma described_update [simp]:
  "described w cfg i (c\<lparr>ctr_ContainerIP := ip\<rparr>) = described w cfg i c"
  "described w cfg i (c\<lparr>ctr_Warnings := ws\<rparr>) = described w cfg i c"
  by (simp_all add: described_def)

lemma described_finish:
  assumes "insp_Config i = Some conf" "r = base_record w i item conf reasons now ip"
    and "run_state (ResolveUser w (insp_ID i) (cc_User conf) (ctr_Metadata r) rule (cfg_Defaults cfg)
      (insp_State i = Some True)) s = ((u, h, src), s')"
  shows "described w cfg i (finish_record r rule (u, h, src))"
proof -
  obtain looked where "h = resolved_home (cc_User conf) (ctr_Metadata r) rule (cfg_Defaults cfg) looked"
    "insp_State i = Some True \<or> looked = []"
    using ResolveUser_home[OF assms(3)] by blast
  moreover have "src = resolved_source (cc_User conf) (ctr_Metadata r) rule"
    "u = resolved_user (cc_User conf) (ctr_Metadata r) rule (cfg_Defaults cfg)"
    using ResolveUser_result[OF assms(3)] unfolding resolved_user_def by (elim conjE; simp only:)+
  ultimately show ?thesis
    using assms(1) unfolding described_def
    by (intro exI[of _ conf] exI[of _ looked]) (simp add: assms(2) finish_record_def base_record_def Let_def config_labels_def)
qed

lemma MatchRule_cong:
  "ctr_LocalFolder c = ctr_LocalFolder c' \<Longrightarrow> ctr_ConfigFile c = ctr_ConfigFile c' \<Longrightarrow>
   ctr_Name c = ctr_Name c' \<Longrightarrow> ctr_Labels c = ctr_Labels c' \<Longrightarrow> MatchRule w c rs = MatchRule w c' rs"
  by (induction rs) (auto simp: rule_matches_def)

lemma MatchRule_finish [simp]: "MatchRule w (finish_record r rule uhs) rs = MatchRule w r rs"
  by (rule MatchRule_cong) (auto simp: finish_record_def Let_def split: prod.split)

lemma container_ok_finish:
  assumes "u \<noteq> []" "h \<noteq> []" "reasons \<noteq> []" "rule = MatchRule w r (cfg_Rules cfg)"
    and "reasons = discoveryReasons (TrimPrefix (insp_Name i) ''/'') (config_labels conf) (cfg_Discovery cfg)"
    and "r = base_record w i item conf reasons now ip"
  shows "container_ok w cfg (finish_record r rule (u, h, src))"
proof -
  have "ctr_DiscoveryReasons r = reasons" "ctr_Name r = TrimPrefix (insp_Name i) ''/''"
    "ctr_Labels r = Some (config_labels conf)" "ctr_ShortID r = shortID (ctr_ID r)" "ctr_T3 r = empty_t3"
    by (simp_all add: assms(6) base_record_def Let_def)
  then show ?thesis
    unfolding container_ok_def MatchRule_finish assms(4)[symmetric]
    using assms(1-3,5) by (auto simp: finish_record_def Let_def split: option.splits)
qed

lemma recordFromInspect_result:
  assumes "run_state (recordFromInspect w i item cfg) s = (Inr (Some c), s')"
  shows "container_ok w cfg c \<and> described w cfg i c \<and> ctr_ID c = insp_ID i \<and> ctr_Running c = (insp_State i = Some True)"
proof -
  obtain conf where conf: "insp_Config i = Some conf"
    using assms by (cases "insp_Config i") (auto simp: recordFromInspect_def)
  define reasons where
    "reasons = discoveryReasons (TrimPrefix (insp_Name i) ''/'') (config_labels conf) (cfg_Discovery cfg)"
  have ne: "reasons \<noteq> []"
    using assms by (auto simp: recordFromInspect_def conf reasons_def split: if_splits)
  obtain ip where ip: "containerIP i (TrimSpace (disc_ConnectToNetwork (cfg_Discovery cfg))) = Inr ip"
    using assms ne
    by (cases "containerIP i (TrimSpace (disc_ConnectToNetwork (cfg_Discovery cfg)))")
      (auto simp: recordFromInspect_def conf reasons_def)
  define r where "r = base_record w i item conf reasons (w_Now w (hist s)) ip"
  define rule where "rule = MatchRule w r (cfg_Rules cfg)"
  obtain u h src s2 where run: "run_state (ResolveUser w (insp_ID i) (cc_User conf) (ctr_Metadata r) rule
      (cfg_Defaults cfg) (insp_State i = Some True)) (s\<lparr>hist := CallNow # hist s\<rparr>) = ((u, h, src), s2)"
    by (metis prod.exhaust)
  have c: "c = finish_record r rule (u, h, src)"
    using assms ne ip run
    by (simp add: recordFromInspect_def conf Let_def reasons_def[symmetric] r_def[symmetric] rule_def[symmetric])
  show ?thesis
    using ResolveUser_nonempty[OF run] container_ok_finish[OF _ _ ne rule_def reasons_def r_def]
      described_finish[OF conf r_def run]
    unfolding c by (auto simp: finish_record_def Let_def r_def base_record_def)
qed

section \<open>Lemmas: network attachment\<close>

definition is_connect :: "call \<Rightarrow> bool" where
  "is_connect c \<longleftrightarrow> (case c of CallNetworkConnect _ _ \<Rightarrow> True | _ \<Rightarrow> False)"

lemma is_connect_simps [simp]:
  "is_connect (CallNetworkConnect n c)" "\<not> is_connect (CallContainerInspect x)"
  "\<not> is_connect (CallNetworkInspect n)" "\<not> is_connect CallNow" "\<not> is_connect CallContainerList"
  "exec_call cid k \<Longrightarrow> \<not> is_connect k"
  by (auto simp: is_connect_def split: call.splits)

definition attach_call :: "container_json \<Rightarrow> string \<Rightarrow> call \<Rightarrow> bool" where
  "attach_call i n c \<longleftrightarrow> c = CallNetworkInspect n \<or> c = CallContainerInspect (insp_ID i) \<or>
     (\<exists>nid. c = CallNetworkConnect nid (insp_ID i) \<and> \<not> containerConnectedToNetwork i n nid)"

lemma ensureConnected_cases:
  assumes "run_state (ensureConnectedToNetwork w i n) s = ((i', connected, err), s')"
  obtains new where "s' = s\<lparr>hist := new @ hist s\<rparr>" "list_all (attach_call i (TrimSpace n)) new"
    "length (filter is_connect new) \<le> 1" "connected \<longleftrightarrow> err = None \<and> list_ex is_connect new"
    "\<not> connected \<longrightarrow> i' = i"
proof -
  have "\<exists>new. s' = s\<lparr>hist := new @ hist s\<rparr> \<and> list_all (attach_call i (TrimSpace n)) new \<and>
    length (filter is_connect new) \<le> 1 \<and> (connected \<longleftrightarrow> err = None \<and> list_ex is_connect new) \<and>
    (\<not> connected \<longrightarrow> i' = i)"
  proof (cases "TrimSpace n = [] \<or> insp_ID i = []")
    case True
    with assms show ?thesis
      by (auto simp: ensureConnectedToNetwork_def Let_def intro!: exI[of _ "[]"])
  next
    case False
    let ?n = "TrimSpace n"
    let ?h1 = "CallNetworkInspect ?n # hist s"
    show ?thesis
    proof (cases "w_NetworkInspect w (hist s) ?n")
      case (Inl e)
      with assms False show ?thesis
        by (auto simp: ensureConnectedToNetwork_def Let_def attach_call_def
            intro!: exI[of _ "[CallNetworkInspect ?n]"])
    next
      case (Inr nid)
      show ?thesis
      proof (cases "containerConnectedToNetwork i ?n nid")
        case True
        with assms False Inr show ?thesis
          by (auto simp: ensureConnectedToNetwork_def Let_def attach_call_def
              intro!: exI[of _ "[CallNetworkInspect ?n]"])
      next
        case not: False
        with assms False Inr show ?thesis
          by (auto simp: ensureConnectedToNetwork_def Let_def attach_call_def split: sum.splits if_splits
              intro!: exI[of _ "[CallContainerInspect (insp_ID i), CallNetworkConnect nid (insp_ID i),
                CallNetworkInspect ?n]"])
      qed
    qed
  qed
  then show ?thesis using that by blast
qed

lemma ensureConnected_io [call_rules]:
  "(\<And>c. attach_call i (TrimSpace n) c \<Longrightarrow> P c) \<Longrightarrow> io_only P (ensureConnectedToNetwork w i n)"
proof (rule io_onlyI)
  fix s :: "'a io_state_scheme"
  assume P: "\<And>c. attach_call i (TrimSpace n) c \<Longrightarrow> P c"
  obtain i' c e s' where run: "run_state (ensureConnectedToNetwork w i n) s = ((i', c, e), s')"
    by (metis prod.exhaust)
  obtain new where "s' = s\<lparr>hist := new @ hist s\<rparr>" "list_all (attach_call i (TrimSpace n)) new"
    using run by (rule ensureConnected_cases)
  then have "s' = s\<lparr>hist := new @ hist s\<rparr> \<and> list_all P new"
    using P by (simp add: list_all_iff)
  then show "\<exists>new. snd (run_state (ensureConnectedToNetwork w i n) s) = s\<lparr>hist := new @ hist s\<rparr> \<and> list_all P new"
    unfolding run by (intro exI[of _ new]) simp
qed

text \<open>
  One round of the loop: the listed record (if any) is well formed, and a container that was
  attached is the running one of that record.
\<close>

definition attached_in :: "Container list \<Rightarrow> call \<Rightarrow> bool" where
  "attached_in out k \<longleftrightarrow>
     (\<forall>nid cid. k = CallNetworkConnect nid cid \<longrightarrow> list_ex (\<lambda>c. ctr_ID c = cid \<and> ctr_Running c) out)"

lemma attached_in_other: "\<not> is_connect k \<Longrightarrow> attached_in out k"
  by (auto simp: attached_in_def)

lemma container_ok_update [simp]:
  "container_ok w cfg (c\<lparr>ctr_ContainerIP := ip\<rparr>) = container_ok w cfg c"
  "container_ok w cfg c \<Longrightarrow> container_ok w cfg (c\<lparr>ctr_Warnings := ctr_Warnings c @ ws\<rparr>)"
  by (auto simp: container_ok_def intro!: MatchRule_cong)


lemma attached_in_append:
  "attached_in xs k \<Longrightarrow> attached_in (xs @ ys) k" "attached_in ys k \<Longrightarrow> attached_in (xs @ ys) k"
  by (auto simp: attached_in_def)

lemma after_attach_result:
  assumes "container_ok w cfg c" "described w cfg i c" "after_attach c n outcome = Inr c'"
  shows "container_ok w cfg c' \<and> described w cfg i c' \<and> ctr_ID c' = ctr_ID c \<and> ctr_Running c' = ctr_Running c"
  using assms by (auto simp: after_attach_def split: prod.splits option.splits sum.splits)

lemma list_item_result:
  assumes "run_state (list_item w cfg n item) s = (Inr here, s')"
  shows "list_all (container_ok w cfg) here \<and> list_all (inspected w cfg (hist s')) here \<and>
    (\<exists>new. s' = s\<lparr>hist := new @ hist s\<rparr> \<and> list_all (attached_in here) new)"
proof -
  let ?ci = "CallContainerInspect (item_ID item)"
  let ?s1 = "s\<lparr>hist := ?ci # hist s\<rparr>"
  show ?thesis
  proof (cases "w_ContainerInspect w (hist s) (item_ID item)")
    case (Inl e)
    then show ?thesis
      using assms by (auto simp: list_item_def attached_in_other intro!: exI[of _ "[?ci]"])
  next
    case (Inr i)
    obtain o1 s2 where rec: "run_state (recordFromInspect w i item cfg) ?s1 = (o1, s2)"
      by (metis prod.exhaust)
    obtain n1 where n1: "s2 = ?s1\<lparr>hist := n1 @ hist ?s1\<rparr>" "list_all (\<lambda>k. \<not> is_connect k) n1"
      by (rule io_runE[OF rec, where P = "\<lambda>k. \<not> is_connect k"]) (auto intro: call_rules)
    from assms Inr rec obtain o2 where o2: "o1 = Inr o2"
      by (cases o1) (auto simp: list_item_def)
    show ?thesis
    proof (cases o2)
      case None
      with assms Inr rec o2 n1 show ?thesis
        by (auto simp: list_item_def list_all_iff attached_in_other intro!: exI[of _ "n1 @ [?ci]"])
    next
      case (Some c)
      note ok = recordFromInspect_result[OF rec[unfolded o2 Some]]
      have seen: "inspected w cfg (new @ ?ci # hist s) c'" if "described w cfg i c'" for new c'
        using Inr that unfolding inspected_def
        by (intro exI[of _ "hist s"] exI[of _ "item_ID item"] exI[of _ i]) (simp add: suffix_def)
      show ?thesis
      proof (cases "n \<noteq> [] \<and> ctr_Running c")
        case False
        with assms Inr rec o2 Some n1 ok seen[of c n1] show ?thesis
          by (auto simp: list_item_def list_all_iff attached_in_other intro!: exI[of _ "n1 @ [?ci]"])
      next
        case True
        obtain i' conn err s3 where ens:
          "run_state (ensureConnectedToNetwork w i n) s2 = ((i', conn, err), s3)" by (metis prod.exhaust)
        obtain n2 where n2: "s3 = s2\<lparr>hist := n2 @ hist s2\<rparr>" "list_all (attach_call i (TrimSpace n)) n2"
          using ens by (rule ensureConnected_cases)
        have "run_state (list_item w cfg n item) s =
            (map_sum id (\<lambda>c. [c]) (after_attach c n (i', conn, err)), s3)"
          using True by (simp add: list_item_def Inr rec o2 Some ens)
        then have s': "s' = s3" and "map_sum id (\<lambda>c. [c]) (after_attach c n (i', conn, err)) = Inr here"
          using assms by simp_all
        then obtain c' where c': "after_attach c n (i', conn, err) = Inr c'" "here = [c']"
          by (cases "after_attach c n (i', conn, err)") auto
        then have here: "here = [c'] \<and> container_ok w cfg c' \<and> described w cfg i c' \<and> ctr_ID c' = insp_ID i \<and> ctr_Running c'"
          using after_attach_result[OF _ _ c'(1)] ok True by auto
        have "attached_in [c'] k" if "attach_call i (TrimSpace n) k" for k
          using that here unfolding attach_call_def attached_in_def by auto
        then have "list_all (attached_in [c']) n2"
          using n2(2) unfolding list_all_iff by blast
        moreover have "list_all (attached_in [c']) n1"
          using n1(2) attached_in_other unfolding list_all_iff by blast
        moreover have "s' = s\<lparr>hist := (n2 @ n1 @ [?ci]) @ hist s\<rparr>"
          using n1(1) n2(1) s' by simp
        ultimately show ?thesis
          using here attached_in_other[of ?ci "[c']"] seen[of c' "n2 @ n1"] by (intro conjI exI[of _ "n2 @ n1 @ [?ci]"]) simp_all
      qed
    qed
  qed
qed

lemma list_loop_result:
  assumes "run_state (list_loop w cfg n items) s = (Inr out, s')"
  shows "list_all (container_ok w cfg) out \<and> list_all (inspected w cfg (hist s')) out \<and>
    (\<exists>new. s' = s\<lparr>hist := new @ hist s\<rparr> \<and> list_all (attached_in out) new)"
  using assms
proof (induction items arbitrary: s out)
  case Nil
  then show ?case by (auto intro!: exI[of _ "[]"])
next
  case (Cons item items)
  then obtain here s1 rest where
    1: "run_state (list_item w cfg n item) s = (Inr here, s1)" and
    2: "run_state (list_loop w cfg n items) s1 = (Inr rest, s')" and out: "out = here @ rest"
    by (auto split: prod.splits sum.splits)
  from list_item_result[OF 1] obtain n1 where n1: "list_all (container_ok w cfg) here"
    "list_all (inspected w cfg (hist s1)) here" "s1 = s\<lparr>hist := n1 @ hist s\<rparr>" "list_all (attached_in here) n1" by blast
  from Cons.IH[OF 2] obtain n2 where n2: "list_all (container_ok w cfg) rest"
    "list_all (inspected w cfg (hist s')) rest" "s' = s1\<lparr>hist := n2 @ hist s1\<rparr>" "list_all (attached_in rest) n2" by blast
  have "list_all (attached_in out) (n2 @ n1)"
    using n1(4) n2(4) attached_in_append unfolding out list_all_iff by auto
  moreover have "list_all (inspected w cfg (hist s')) out"
    using n1(2) n2(2) inspected_later[of w cfg "hist s1" _ n2] n2(3) unfolding out list_all_iff by auto
  ultimately show ?case
    using n1 n2 out by (intro conjI exI[of _ "n2 @ n1"]) auto
qed

section \<open>Lemmas: the listing returns\<close>

text \<open>
  What the Engine API documents of an inspection: it holds the container's configuration, and the
  networks are given with their endpoints. Without either the listing panics.
\<close>

definition complete_answers :: "world \<Rightarrow> bool" where
  "complete_answers w \<longleftrightarrow> (\<forall>h cid i. w_ContainerInspect w h cid = Inr i \<longrightarrow> insp_Config i \<noteq> None \<and> nil_free i)"

lemma containerIP_returns: "nil_free i \<Longrightarrow> \<exists>ip. containerIP i p = Inr ip"
  using containerIP_no_panic by (cases "containerIP i p") auto

lemma recordFromInspect_returns:
  assumes "insp_Config i \<noteq> None" "nil_free i"
  shows "\<exists>o1 s'. run_state (recordFromInspect w i item cfg) s = (Inr o1, s')"
proof -
  obtain conf where "insp_Config i = Some conf" using assms(1) by blast
  moreover obtain ip where "containerIP i (TrimSpace (disc_ConnectToNetwork (cfg_Discovery cfg))) = Inr ip"
    using containerIP_returns[OF assms(2)] by blast
  ultimately show ?thesis
    by (auto simp: recordFromInspect_def Let_def split: prod.split)
qed

lemma ensureConnected_nil_free:
  assumes "complete_answers w" "nil_free i"
    and "run_state (ensureConnectedToNetwork w i n) s = ((i', connected, err), s')"
  shows "nil_free i'"
  using assms unfolding complete_answers_def
  by (auto simp: ensureConnectedToNetwork_def Let_def split: if_splits sum.splits)

lemma list_item_returns:
  assumes "complete_answers w"
  shows "\<exists>here s'. run_state (list_item w cfg n item) s = (Inr here, s')"
proof (cases "w_ContainerInspect w (hist s) (item_ID item)")
  case (Inl e)
  then show ?thesis by (simp add: list_item_def)
next
  case (Inr i)
  then have i: "insp_Config i \<noteq> None" "nil_free i" using assms unfolding complete_answers_def by blast+
  let ?s1 = "s\<lparr>hist := CallContainerInspect (item_ID item) # hist s\<rparr>"
  obtain o1 s2 where rec: "run_state (recordFromInspect w i item cfg) ?s1 = (Inr o1, s2)"
    using recordFromInspect_returns[OF i] by blast
  obtain i' conn err s3 where ens: "run_state (ensureConnectedToNetwork w i n) s2 = ((i', conn, err), s3)"
    by (metis prod.exhaust)
  have "\<exists>here. map_sum id (\<lambda>c. [c]) (after_attach c n (i', conn, err)) = Inr here" for c
    using containerIP_returns[OF ensureConnected_nil_free[OF assms i(2) ens], of n]
    by (auto simp: after_attach_def split: option.split)
  then show ?thesis
    using Inr rec ens by (cases o1) (auto simp: list_item_def)
qed

lemma list_loop_returns:
  assumes "complete_answers w"
  shows "\<exists>out s'. run_state (list_loop w cfg n items) s = (Inr out, s')"
proof (induction items arbitrary: s)
  case (Cons item items)
  obtain here s1 where 1: "run_state (list_item w cfg n item) s = (Inr here, s1)"
    using list_item_returns[OF assms] by blast
  obtain out s2 where "run_state (list_loop w cfg n items) s1 = (Inr out, s2)" using Cons by blast
  with 1 show ?case by simp
qed simp

lemma ListDevcontainers_returns:
  assumes "complete_answers w" "w_ContainerList w (hist s) = Inr items"
  shows "\<exists>out s'. run_state (ListDevcontainers w cfg) s = (Inr (Inr out), s')"
proof -
  obtain out s' where "run_state (list_loop w cfg (TrimSpace (disc_ConnectToNetwork (cfg_Discovery cfg))) items)
      (s\<lparr>hist := CallContainerList # hist s\<rparr>) = (Inr out, s')"
    using list_loop_returns[OF assms(1)] by blast
  with assms(2) show ?thesis by (auto simp: ListDevcontainers_def)
qed

section \<open>Properties\<close>

text \<open>The rule of a container is the first rule of the configuration that matches it: every
  earlier rule fails to match.\<close>

theorem MatchRule_first:
  "MatchRule w c rules = Some r \<longleftrightarrow>
     (\<exists>pre post. rules = pre @ r # post \<and> rule_matches w c r \<and> \<not> list_ex (rule_matches w c) pre)"
  by (simp add: MatchRule_Some_iff list_ex_iff)

text \<open>A container is taken for a devcontainer exactly when it has a non-empty local folder
  label, or another label of the \<open>devcontainer.\<close> family, or one of the configured labels with the
  configured value, or one of the configured name prefixes; in particular it does not depend on the
  order in which Go visits the label map.\<close>

theorem discoveryReasons_iff:
  assumes "mset ls = mset ls'" and "distinct (map fst ls)"
  shows "(discoveryReasons name ls cfg \<noteq> []) = discovered name ls cfg \<and>
         (discoveryReasons name ls cfg = []) = (discoveryReasons name ls' cfg = [])"
  using discovered_perm[OF assms] discoveryReasons_nonempty by blast

theorem discoveryReasons_iff_witness:
  "discovered ''web'' [(''a'', ''1''), (''devcontainer.metadata'', [])] (cfg_Discovery Default) \<and>
   discoveryReasons ''web'' [(''devcontainer.metadata'', []), (''a'', ''1'')] (cfg_Discovery Default) \<noteq> []"
  using discoveryReasons_iff[of "[(''a'', ''1''), (''devcontainer.metadata'', [])]"
      "[(''devcontainer.metadata'', []), (''a'', ''1'')]" "''web''" "cfg_Discovery Default"]
  by (auto simp: discovered_def map_get_def prefix_def)

text \<open>An included label configured with an empty value selects every container that lacks the
  label: a missing key of a Go map reads as the empty string.\<close>

theorem empty_label_selects_unlabelled:
  assumes "disc_IncludeLabels cfg = Some m" and "(k, []) \<in> set m" and "map_of ls k = None"
  shows "''configured-label:'' @ k \<in> set (discoveryReasons name ls cfg)"
  using assms by (force simp: discoveryReasons_def map_get_def)

theorem empty_label_selects_unlabelled_witness:
  "''configured-label:tier'' \<in> set (discoveryReasons ''postgres'' []
     \<lparr>disc_IncludeNamePrefixes = [''vsc-''], disc_IncludeLabels = Some [(''tier'', [])], disc_ConnectToNetwork = []\<rparr>)"
  using empty_label_selects_unlabelled[of "\<lparr>disc_IncludeNamePrefixes = [''vsc-''],
      disc_IncludeLabels = Some [(''tier'', [])], disc_ConnectToNetwork = []\<rparr>" "[(''tier'', [])]" "''tier''" "[]"]
  by simp

text \<open>\<open>metadataString\<close> returns the string that the last metadata entry with a non-empty
  string for the key has, and the empty string only when no entry has one.\<close>

theorem metadataString_last:
  "(if metadataString md key = [] then list_all (silent key) (of_nil md)
    else \<exists>pre m post. of_nil md = pre @ m # post \<and> string_member m key = Some (metadataString md key) \<and>
           list_all (silent key) post)"
proof (cases "metadataString md key = []")
  case True
  have "list_all (silent key) (of_nil md)"
  proof (rule ccontr)
    assume "\<not> list_all (silent key) (of_nil md)"
    then have "\<not> list_all (silent key) (rev (of_nil md))" by simp
    then obtain pre m post where "rev (of_nil md) = pre @ m # post" "\<not> silent key m" "list_all (silent key) pre"
      using split_list_first_prop[of "rev (of_nil md)" "\<lambda>m. \<not> silent key m"] by (auto simp: list_all_iff)
    then have "metadata_loop (rev (of_nil md)) key \<noteq> []"
      by (auto simp: metadata_loop_skip silent_def)
    with True show False by (simp add: metadataString_def)
  qed
  with True show ?thesis by simp
next
  case False
  then obtain pre m post where "rev (of_nil md) = pre @ m # post" "list_all (silent key) pre"
    "string_member m key = Some (metadataString md key)"
    using metadata_loop_found[of "rev (of_nil md)" key] by (auto simp: metadataString_def)
  then have "of_nil md = rev post @ m # rev pre" "list_all (silent key) (rev pre)"
    by (simp_all add: rev_swap)
  with False \<open>string_member m key = _\<close> have "\<exists>pre m post. of_nil md = pre @ m # post \<and>
      string_member m key = Some (metadataString md key) \<and> list_all (silent key) post"
    by (intro exI[of _ "rev post"] exI[of _ m] exI[of _ "rev pre"]) simp
  with False show ?thesis by simp
qed

text \<open>\<open>ResolveUser\<close> always finds a user and a home directory, and takes the user from the
  rule, the metadata's \<open>remoteUser\<close>, its \<open>containerUser\<close>, the image's user and the default, in this
  order. For a container that does not run, no command is executed and, once the default home is set
  (as it is in every loaded configuration), the home is the rule's or that default, whoever the user is.\<close>

theorem ResolveUser_spec:
  assumes "run_state (ResolveUser w cid cu md rule d running) s = ((u, h, src), s')"
  shows "u \<noteq> [] \<and> h \<noteq> [] \<and> src = resolved_source cu md rule \<and>
    u = (if src = ''rule'' then firstNonEmpty [rule_ContainerUser (the rule), def_ContainerUser d, ''vscode'']
         else firstNonEmpty [metadataString md ''remoteUser'', metadataString md ''containerUser'', cu,
           def_ContainerUser d, ''vscode'']) \<and>
    (\<not> running \<longrightarrow> s' = s \<and> (def_ContainerHome d \<noteq> [] \<longrightarrow>
       h = firstNonEmpty [if src = ''rule'' then rule_ContainerHome (the rule) else [], def_ContainerHome d]))"
  by (rule ResolveUser_result[OF assms])

theorem ResolveUser_spec_witness:
  "fst (run_state (ResolveUser offline_world ''c1'' ''app'' (Some [Some [(''remoteUser'', JStr ''node'')]]) None
     (cfg_Defaults Default) False) \<lparr>hist = []\<rparr>) = (''node'', ''/home/vscode'', ''metadata.remoteUser'')"
proof -
  obtain u h src s' where run: "run_state (ResolveUser offline_world ''c1'' ''app''
      (Some [Some [(''remoteUser'', JStr ''node'')]]) None (cfg_Defaults Default) False) \<lparr>hist = []\<rparr> = ((u, h, src), s')"
    by (metis prod.exhaust)
  show ?thesis
    using ResolveUser_spec[OF run] unfolding run
    by (simp add: resolved_source_def metadataString_def string_member_def Default_def)
qed

text \<open>\<open>containerIP\<close> prefers the address of the configured network; what it returns otherwise
  is an address of some network or the default address, it is empty only when they all are, and it
  panics only when the API reports a nil endpoint.\<close>

theorem containerIP_spec:
  "(case containerIP i preferred of
      Inl p \<Rightarrow> \<not> nil_free i
    | Inr ip \<Rightarrow> if ip = [] then list_all (\<lambda>a. a = []) (addresses i) else ip \<in> set (addresses i)) \<and>
   (case networkEndpoint i preferred preferred of
      None \<Rightarrow> True
    | Some e \<Rightarrow> preferred = [] \<or> ep_IPAddress e = [] \<or> containerIP i preferred = Inr (ep_IPAddress e))"
proof
  show "case containerIP i preferred of Inl p \<Rightarrow> \<not> nil_free i
    | Inr ip \<Rightarrow> if ip = [] then list_all (\<lambda>a. a = []) (addresses i) else ip \<in> set (addresses i)"
    using containerIP_no_panic containerIP_in_addresses containerIP_empty
    by (auto split: sum.split)
  show "case networkEndpoint i preferred preferred of None \<Rightarrow> True
    | Some e \<Rightarrow> preferred = [] \<or> ep_IPAddress e = [] \<or> containerIP i preferred = Inr (ep_IPAddress e)"
    by (auto simp: containerIP_def networkEndpoint_def split: option.splits)
qed


text \<open>Attaching a container to the configured network: nothing but that network and that
  container is asked about, there is at most one connect request and none when the container is
  already attached, it is reported as newly attached exactly when a connect request was made and no
  error is returned, and otherwise the old inspection is kept.\<close>

theorem ensureConnected_spec:
  assumes "run_state (ensureConnectedToNetwork w i n) s = ((i', connected, err), s')"
  shows "list_all (attach_call i (TrimSpace n)) (new_calls (hist s) (hist s')) \<and>
    length (filter is_connect (new_calls (hist s) (hist s'))) \<le> 1 \<and>
    connected = (err = None \<and> list_ex is_connect (new_calls (hist s) (hist s'))) \<and>
    (connected \<or> i' = i)"
proof -
  obtain new where "s' = s\<lparr>hist := new @ hist s\<rparr>" "list_all (attach_call i (TrimSpace n)) new"
    "length (filter is_connect new) \<le> 1" "connected \<longleftrightarrow> err = None \<and> list_ex is_connect new"
    "\<not> connected \<longrightarrow> i' = i"
    using assms by (rule ensureConnected_cases)
  then show ?thesis by auto
qed

text \<open>Two small worlds for the examples: one container, not yet attached to the network \<open>dcm\<close>.\<close>

definition one_container :: "(string, endpoint_settings option) gomap \<Rightarrow> container_json" where
  "one_container nets = \<lparr>insp_ID = ''c1'', insp_Name = ''/vsc-app'', insp_State = Some True,
     insp_Config = Some \<lparr>cc_Labels = None, cc_Image = ''img'', cc_User = ''vscode''\<rparr>,
     insp_NetworkSettings = Some \<lparr>ns_IPAddress = [], ns_Networks = nets\<rparr>\<rparr>"

definition dcm_endpoint :: endpoint_settings where
  "dcm_endpoint = \<lparr>ep_NetworkID = ''net1'', ep_IPAddress = ''172.20.0.5''\<rparr>"

definition docker_world :: world where
  "docker_world = offline_world\<lparr>
     w_ContainerList := \<lambda>_. Inr [\<lparr>item_ID = ''c1'', item_Status = ''Up''\<rparr>],
     w_ContainerInspect := \<lambda>h _. Inr (one_container
       (if list_ex is_connect h then [(''dcm'', Some dcm_endpoint)] else [])),
     w_NetworkInspect := \<lambda>_ _. Inr ''net1'',
     w_NetworkConnect := \<lambda>_ _ _. Inr ()\<rparr>"

definition dcm_config :: Config where
  "dcm_config = Default\<lparr>cfg_Discovery := \<lparr>disc_IncludeNamePrefixes = [''vsc-''],
     disc_IncludeLabels = Some [], disc_ConnectToNetwork = ''dcm''\<rparr>\<rparr>"

lemma TrimSpace_dcm: "TrimSpace ''dcm'' = ''dcm''"
  by code_simp

theorem ensureConnected_spec_witness:
  "fst (snd (fst (run_state (ensureConnectedToNetwork docker_world (one_container []) ''dcm'') \<lparr>hist = []\<rparr>)))"
proof -
  let ?h = "[CallContainerInspect ''c1'', CallNetworkConnect ''net1'' ''c1'', CallNetworkInspect ''dcm'']"
  have run: "run_state (ensureConnectedToNetwork docker_world (one_container []) ''dcm'') \<lparr>hist = []\<rparr> =
      ((one_container [(''dcm'', Some dcm_endpoint)], True, None), \<lparr>hist = ?h\<rparr>)"
    by (simp add: ensureConnectedToNetwork_def Let_def TrimSpace_dcm docker_world_def one_container_def
        containerConnectedToNetwork_def networkEndpoint_def List.map_filter_def)
  show ?thesis using ensureConnected_spec[OF run] unfolding run by simp
qed


lemma docker_world_run:
  "(case run_state (ListDevcontainers docker_world dcm_config) \<lparr>hist = []\<rparr> of
      (Inr (Inr out), s) \<Rightarrow> map ctr_ContainerIP out = [''172.20.0.5''] \<and>
         List.member (hist s) (CallNetworkConnect ''net1'' ''c1'')
    | _ \<Rightarrow> False)"
  by code_simp


text \<open>A command with input is reported as successful only after the whole protocol: the exec
  was created with the given command and user, attached, given the whole input (when there is any),
  its input closed, its output drained, and its exit code read as 0.\<close>

theorem ExecWithStdin_success:
  assumes "run_state (ExecWithStdin w cid cmd user input) s = (None, s')"
  shows "\<exists>e. new_calls (hist s) (hist s') =
      [CallExecInspect e, CallExecRead e, CallExecCloseWrite e] @
      (if input = [] then [] else [CallExecWrite e input]) @
      [CallExecAttach e, CallExecCreate cid \<lparr>exec_Cmd = cmd, exec_User = user, exec_AttachStdin = True,
         exec_AttachStdout = True, exec_AttachStderr = True\<rparr>] \<and>
    w_ExecInspect w (tl (hist s')) e = Inr 0"
  using assms new_calls_append[of "hist s" "[_, _, _, _, _]"] new_calls_append[of "hist s" "[_, _, _, _, _, _]"]
  by (auto simp: ExecWithStdin_def Let_def split: sum.splits if_splits)

definition exec_world :: world where
  "exec_world = offline_world\<lparr>w_ExecCreate := \<lambda>_ _ _. Inr ''e1'', w_ExecAttach := \<lambda>_ _. Inr (),
     w_ExecWrite := \<lambda>_ _ _. Inr (), w_ExecCloseWrite := \<lambda>_ _. Inr (), w_ExecInspect := \<lambda>_ _. Inr 0\<rparr>"

theorem ExecWithStdin_success_witness:
  "\<exists>e. CallExecWrite e ''data'' \<in>
     set (hist (snd (run_state (ExecWithStdin exec_world ''c1'' [''cat''] ''vscode'' ''data'') \<lparr>hist = []\<rparr>)))"
proof -
  let ?r = "run_state (ExecWithStdin exec_world ''c1'' [''cat''] ''vscode'' ''data'') \<lparr>hist = []\<rparr>"
  have "fst ?r = None"
    by (simp add: ExecWithStdin_def exec_world_def)
  then have run: "?r = (None, snd ?r)" by (metis prod.collapse)
  have "new_calls [] (hist (snd ?r)) = hist (snd ?r)" by (simp add: new_calls_def)
  then show ?thesis using ExecWithStdin_success[OF run] by auto
qed

end
