(* ===== verification/Sync.thy ===== *)
theory Sync
  imports Mutagen Dockerx Codec
begin

text \<open>
  The controller of \<open>internal/syncx/controller.go\<close>: the session a rule's sync entry asks for,
  the check of its two endpoints, and \<open>Reconcile\<close>, which brings the daemon's sessions in line
  with the containers. \<open>Reconcile\<close> is a client of the interface of \<open>Mutagen\<close>: its lemmas
  are proved for any provider of that interface and instantiated with the Mutagen client. They
  show which sessions are reported and with which status, and that a reconciliation pauses,
  resumes, creates and terminates only what it has to.
\<close>

section \<open>Names and endpoints\<close>

definition sessionName :: "string \<Rightarrow> string \<Rightarrow> int \<Rightarrow> SyncEntry \<Rightarrow> string" where
  "sessionName containerID rule index sync =
     (let sum = sha1_Sum (containerID @ ''|'' @ rule @ ''|'' @ Itoa index @ ''|'' @
                 se_Manager sync @ ''|'' @ se_Container sync)
      in ''dcm-'' @ shortID containerID @ ''-'' @ Itoa index @ ''-'' @ take 8 (hex_EncodeToString sum))"

definition desiredSession :: "Container \<Rightarrow> string \<Rightarrow> int \<Rightarrow> SyncEntry \<Rightarrow> Session" where
  "desiredSession container rule index sync =
     (let mode = firstNonEmpty [se_Mode sync, ''two-way''];
          name = sessionName (ctr_ID container) rule index sync;
          containerURL = ''docker://'' @ ctr_ContainerUser container @ ''@'' @ ctr_ID container @ se_Container sync;
          (alpha, beta) = (if mode = ''pull'' then (containerURL, se_Manager sync)
                           else (se_Manager sync, containerURL))
      in \<lparr>ses_ID = name, ses_Name = name, ses_ContainerID = ctr_ID container, ses_Rule = rule,
          ses_SyncIndex = index, ses_Mode = mode, ses_Alpha = alpha, ses_Beta = beta,
          ses_Status = ''desired'', ses_Error = [],
          ses_Labels = [(labelOwned, ''true''), (labelContainer, ctr_ID container),
                        (labelRule, rule), (labelSyncIndex, Itoa index)],
          ses_Desired = True\<rparr>)"

definition localKind :: "world \<Rightarrow> string \<Rightarrow> ('z io_state_scheme, string) state" where
  "localKind w path = do {
     r \<leftarrow> ask (\<lambda>h. w_Stat w h path) (CallStat path);
     State_Monad.return (case r of
       StatNotExist \<Rightarrow> ''missing''
     | StatError \<Rightarrow> ''other''
     | StatOk PathDir \<Rightarrow> ''directory''
     | StatOk PathRegular \<Rightarrow> ''file''
     | StatOk PathIrregular \<Rightarrow> ''other'')
   }"

definition endpoint_error :: "SyncEntry \<Rightarrow> string \<Rightarrow> string \<Rightarrow> string option" where
  "endpoint_error sync managerKind containerKind =
     (if managerKind = ''missing'' \<and> containerKind = ''missing''
      then Some (''both endpoints are missing: '' @ se_Manager sync @ '' and '' @ se_Container sync)
      else if managerKind \<noteq> ''missing'' \<and> containerKind \<noteq> ''missing'' \<and> managerKind \<noteq> containerKind
      then Some (''endpoint type mismatch: manager is '' @ managerKind @ '', container is '' @ containerKind)
      else None)"

definition validateEndpoints :: "world \<Rightarrow> string \<Rightarrow> SyncEntry \<Rightarrow> ('z io_state_scheme, string option) state" where
  "validateEndpoints w containerID sync = do {
     managerKind \<leftarrow> localKind w (se_Manager sync);
     (containerKind, err) \<leftarrow> PathKind w containerID (se_Container sync);
     State_Monad.return (case err of Some e \<Rightarrow> Some e | None \<Rightarrow> endpoint_error sync managerKind containerKind)
   }"

section \<open>Reconciliation\<close>

type_synonym live_sessions = "(string, liveSession) gomap"

text \<open>
  What the daemon has: \<open>None\<close> when it could not be reached or listed (\<open>mutagenAvailable\<close> is
  false and \<open>live\<close> stays empty).
\<close>

definition open_daemon :: "'st session_client \<Rightarrow> ('st, live_sessions option go) state" where
  "open_daemon client = do {
     err \<leftarrow> sc_ensureConnected client;
     case err of Some _ \<Rightarrow> State_Monad.return (Inr None)
     | None \<Rightarrow> bind_sum (sc_listOwned client) (\<lambda>listed. State_Monad.return (Inr (case listed of
         Inl _ \<Rightarrow> None | Inr l \<Rightarrow> Some l)))
   }"

text \<open>The body of the inner loop: the session it appends.\<close>

definition reconcile_sync :: "world \<Rightarrow> ('z io_state_scheme) session_client \<Rightarrow> live_sessions option \<Rightarrow>
    SyncDefaults \<Rightarrow> Container \<Rightarrow> Session \<Rightarrow> SyncEntry \<Rightarrow> ('z io_state_scheme, Session go) state" where
  "reconcile_sync w client live defaults container session sync =
     (if \<not> ctr_Running container then
        bind_sum (case live of None \<Rightarrow> State_Monad.return (Inr None)
                  | Some _ \<Rightarrow> sc_pause client (ses_Name session))
          (\<lambda>_. State_Monad.return (Inr (session\<lparr>ses_Status := ''paused''\<rparr>)))
      else do {
        err \<leftarrow> validateEndpoints w (ctr_ID container) sync;
        case err of
          Some e \<Rightarrow> State_Monad.return (Inr (session\<lparr>ses_Status := ''configuration-error'', ses_Error := e\<rparr>))
        | None \<Rightarrow> (case live of
            None \<Rightarrow> State_Monad.return (Inr (session\<lparr>ses_Status := ''mutagen-daemon-unavailable'',
                      ses_Error := ''unable to connect to Mutagen daemon''\<rparr>))
          | Some l \<Rightarrow> (case map_of l (ses_Name session) of
              Some existing \<Rightarrow>
                bind_sum (sc_resume client (ses_Name session)) (\<lambda>_. State_Monad.return (Inr
                  (session\<lparr>ses_ID := firstNonEmpty [ls_ID existing, ses_ID session],
                           ses_Status := firstNonEmpty [ls_Status existing, ''ready'']\<rparr>)))
            | None \<Rightarrow>
                bind_sum (sc_create client session sync defaults) (\<lambda>failed. State_Monad.return (Inr
                  (case failed of
                     Some e \<Rightarrow> session\<lparr>ses_Status := ''create-error'', ses_Error := e\<rparr>
                   | None \<Rightarrow> session\<lparr>ses_Status := ''ready''\<rparr>)))))
      })"

text \<open>The loops carry \<open>sessions\<close> and \<open>desiredNames\<close>.\<close>

fun sync_loop :: "world \<Rightarrow> ('z io_state_scheme) session_client \<Rightarrow> live_sessions option \<Rightarrow> SyncDefaults \<Rightarrow>
    Container \<Rightarrow> string \<Rightarrow> nat \<Rightarrow> SyncEntry list \<Rightarrow> Session list \<times> string list \<Rightarrow>
    ('z io_state_scheme, (Session list \<times> string list) go) state" where
  "sync_loop w client live defaults container rule index [] acc = State_Monad.return (Inr acc)"
| "sync_loop w client live defaults container rule index (sync # syncs) (sessions, names) =
     (let session = desiredSession container rule (int index) sync in
      bind_sum (reconcile_sync w client live defaults container session sync) (\<lambda>done.
        sync_loop w client live defaults container rule (Suc index) syncs
          (sessions @ [done], ses_Name session # names)))"

fun container_loop :: "world \<Rightarrow> ('z io_state_scheme) session_client \<Rightarrow> live_sessions option \<Rightarrow> SyncDefaults \<Rightarrow>
    Container list \<Rightarrow> Session list \<times> string list \<Rightarrow> ('z io_state_scheme, (Session list \<times> string list) go) state" where
  "container_loop w client live defaults [] acc = State_Monad.return (Inr acc)"
| "container_loop w client live defaults (container # containers) acc =
     (case ctr_Rule container of
        None \<Rightarrow> container_loop w client live defaults containers acc
      | Some rule \<Rightarrow>
          if length (rule_Syncs rule) = 0 then container_loop w client live defaults containers acc
          else bind_sum (sync_loop w client live defaults container (rule_Name rule) 0 (rule_Syncs rule) acc)
                 (container_loop w client live defaults containers))"

text \<open>The code ranges over the live sessions in no particular order. The order of the association list, which is the
  one the daemon lists them in, stands for it: the daemon may list them in any order.\<close>

fun terminate_loop :: "('z io_state_scheme) session_client \<Rightarrow> string list \<Rightarrow> live_sessions \<Rightarrow>
    ('z io_state_scheme, unit go) state" where
  "terminate_loop client names [] = State_Monad.return (Inr ())"
| "terminate_loop client names ((name, existing) # live) =
     (let target = firstNonEmpty [ls_ID existing, ls_Name existing] in
      if name \<notin> set names \<and> target \<noteq> []
      then bind_sum (sc_terminate client target) (\<lambda>_. terminate_loop client names live)
      else terminate_loop client names live)"

definition Reconcile :: "world \<Rightarrow> ('z io_state_scheme) session_client \<Rightarrow> Container list \<Rightarrow> Config \<Rightarrow>
    ('z io_state_scheme, Session list go) state" where
  "Reconcile w client containers cfg =
     (if \<not> sync_Enabled (cfg_Sync cfg) then State_Monad.return (Inr [])
      else bind_sum (open_daemon client) (\<lambda>live.
        bind_sum (container_loop w client live (sync_Defaults (cfg_Sync cfg)) containers ([], [])) (\<lambda>(sessions, names).
        bind_sum (case live of None \<Rightarrow> State_Monad.return (Inr ()) | Some l \<Rightarrow> terminate_loop client names l) (\<lambda>_.
        State_Monad.return (Inr sessions)))))"

section \<open>What a reconciliation has to do\<close>

text \<open>Every sync entry of every container that has a rule, in the order of the loops.\<close>

type_synonym entry = "Container \<times> SyncEntry \<times> Session"

fun rule_entries :: "Container \<Rightarrow> string \<Rightarrow> nat \<Rightarrow> SyncEntry list \<Rightarrow> entry list" where
  "rule_entries c r n [] = []"
| "rule_entries c r n (e # es) = (c, e, desiredSession c r (int n) e) # rule_entries c r (Suc n) es"

definition container_entries :: "Container \<Rightarrow> entry list" where
  "container_entries c = (case ctr_Rule c of None \<Rightarrow> []
   | Some r \<Rightarrow> rule_entries c (rule_Name r) 0 (rule_Syncs r))"

definition desired_entries :: "Container list \<Rightarrow> entry list" where
  "desired_entries cs = concat (map container_entries cs)"

definition entry_name :: "entry \<Rightarrow> string" where
  "entry_name = (\<lambda>(c, e, d). ses_Name d)"

definition desired_sessions :: "Container list \<Rightarrow> Session list" where
  "desired_sessions cs = map (\<lambda>(c, e, d). d) (desired_entries cs)"

definition desired_names :: "Container list \<Rightarrow> string list" where
  "desired_names cs = map entry_name (desired_entries cs)"

text \<open>The calls one entry may lead to, given what the daemon has.\<close>

definition entry_call :: "live_sessions option \<Rightarrow> entry \<Rightarrow> call \<Rightarrow> bool" where
  "entry_call live = (\<lambda>(c, e, d) k.
     connection_call k \<or>
     (ctr_Running c \<and> (k = CallStat (se_Manager e) \<or> exec_call (ctr_ID c) k)) \<or>
     (case live of None \<Rightarrow> False
      | Some l \<Rightarrow>
          (\<not> ctr_Running c \<and> pauses (ses_Name d) k) \<or>
          (ctr_Running c \<and> map_of l (ses_Name d) \<noteq> None \<and> resumes (ses_Name d) k) \<or>
          (ctr_Running c \<and> map_of l (ses_Name d) = None \<and> creates (ses_Name d) k)))"

definition leftover_call :: "live_sessions option \<Rightarrow> string list \<Rightarrow> call \<Rightarrow> bool" where
  "leftover_call live names k = (case live of None \<Rightarrow> False
   | Some l \<Rightarrow> list_ex (\<lambda>(n, e). n \<notin> set names \<and> terminates (firstNonEmpty [ls_ID e, ls_Name e]) k) l)"

definition reconcile_call :: "Container list \<Rightarrow> live_sessions option \<Rightarrow> call \<Rightarrow> bool" where
  "reconcile_call cs live k \<longleftrightarrow>
     connection_call k \<or> list_ex (\<lambda>x. entry_call live x k) (desired_entries cs) \<or>
     leftover_call live (desired_names cs) k"

text \<open>The session reported for an entry: the desired one, but for identifier, status and error.\<close>

definition reported :: "live_sessions option \<Rightarrow> Session \<Rightarrow> entry \<Rightarrow> bool" where
  "reported live s = (\<lambda>(c, e, d).
     s = d\<lparr>ses_ID := ses_ID s, ses_Status := ses_Status s, ses_Error := ses_Error s\<rparr> \<and>
     (if \<not> ctr_Running c then ses_Status s = ''paused'' \<and> ses_ID s = ses_ID d
      else ses_Status s = ''configuration-error'' \<or>
        (case live of None \<Rightarrow> ses_Status s = ''mutagen-daemon-unavailable''
         | Some l \<Rightarrow> (case map_of l (ses_Name d) of
             Some x \<Rightarrow> ses_Status s = firstNonEmpty [ls_Status x, ''ready''] \<and>
                       ses_ID s = firstNonEmpty [ls_ID x, ses_ID d]
           | None \<Rightarrow> ses_Status s \<in> {''ready'', ''create-error''}))))"

lemma localKind_io [call_rules]: "P (CallStat path) \<Longrightarrow> io_only P (localKind w path)"
  unfolding localKind_def by (intro call_rules)

lemma validateEndpoints_io [call_rules]:
  "P (CallStat (se_Manager e)) \<Longrightarrow> (\<And>k. exec_call cid k \<Longrightarrow> P k) \<Longrightarrow> io_only P (validateEndpoints w cid e)"
  unfolding validateEndpoints_def by (intro call_rules) auto

text \<open>What a loop over entries promises: it appends one report per entry and adds their names.\<close>

definition appends :: "live_sessions option \<Rightarrow> Session list \<times> string list \<Rightarrow> entry list \<Rightarrow>
    Session list \<times> string list \<Rightarrow> bool" where
  "appends live acc ds acc' \<longleftrightarrow>
     (\<exists>new. fst acc' = fst acc @ new \<and> list_all2 (reported live) new ds) \<and>
     set (snd acc') = set (snd acc) \<union> set (map entry_name ds)"

lemma appends_Nil: "appends live acc [] acc"
  by (simp add: appends_def)

lemma appends_one: "reported live s x \<Longrightarrow> appends live (ss, names) [x] (ss @ [s], entry_name x # names)"
  by (auto simp: appends_def)

lemma appends_trans:
  assumes "appends live a ds b" "appends live b ds' c"
  shows "appends live a (ds @ ds') c"
proof -
  obtain n1 n2 where "fst b = fst a @ n1" "list_all2 (reported live) n1 ds"
    "fst c = fst b @ n2" "list_all2 (reported live) n2 ds'"
    using assms unfolding appends_def by auto
  then show ?thesis
    using assms unfolding appends_def by (auto intro!: exI[of _ "n1 @ n2"] list_all2_appendI)
qed

context session_service
begin

lemma open_daemon_keeps: "keeps inv connection_call no_panic (open_daemon client)"
  unfolding open_daemon_def
  by (rule keeps_bind[OF connect_law])
    (auto intro!: keeps_return keeps_ok[OF list_law] split: option.split)

lemma reconcile_sync_keeps:
  assumes "entry_call live (c, e, d) = P"
  shows "keeps inv P (returns (\<lambda>s. reported live s (c, e, d))) (reconcile_sync w client live defaults c d e)"
proof -
  have validate: "ctr_Running c \<Longrightarrow> keeps inv P (\<lambda>_. True) (validateEndpoints w (ctr_ID c) e)"
    by (intro keeps_io inv_hist validateEndpoints_io) (auto simp: assms[symmetric] entry_call_def)
  have pause: "\<not> ctr_Running c \<Longrightarrow> live = Some l \<Longrightarrow> keeps inv P no_panic (sc_pause client (ses_Name d))" for l
    by (rule keeps_mono[OF pause_law]) (auto simp: assms[symmetric] entry_call_def)
  have resume: "ctr_Running c \<Longrightarrow> live = Some l \<Longrightarrow> map_of l (ses_Name d) = Some x \<Longrightarrow>
      keeps inv P no_panic (sc_resume client (ses_Name d))" for l x
    by (rule keeps_mono[OF resume_law]) (auto simp: assms[symmetric] entry_call_def)
  have create: "ctr_Running c \<Longrightarrow> live = Some l \<Longrightarrow> map_of l (ses_Name d) = None \<Longrightarrow>
      keeps inv P no_panic (sc_create client d e defaults)" for l
    by (rule keeps_mono[OF create_law]) (auto simp: assms[symmetric] entry_call_def)
  show ?thesis
  proof (cases "ctr_Running c")
    case False
    then show ?thesis
      unfolding reconcile_sync_def
      by (cases live) (auto simp: reported_def intro!: keeps_return keeps_ok[OF keeps_return] keeps_ok[OF pause])
  next
    case True
    show ?thesis
      unfolding reconcile_sync_def if_not_P[OF not_not[THEN iffD2, OF True]]
      by (rule keeps_bind[OF validate[OF True]])
        (auto simp: True reported_def intro!: keeps_return keeps_ok[OF resume] keeps_ok[OF create]
          split: option.split)
  qed
qed

lemma sync_loop_keeps:
  assumes "\<And>x k. x \<in> set (rule_entries c r n es) \<Longrightarrow> entry_call live x k \<Longrightarrow> P k"
  shows "keeps inv P (returns (appends live acc (rule_entries c r n es)))
    (sync_loop w client live defaults c r n es acc)"
  using assms
proof (induction es arbitrary: n acc)
  case Nil
  then show ?case by (auto intro: keeps_return simp: appends_Nil)
next
  case (Cons e es)
  obtain ss names where acc: "acc = (ss, names)" by fastforce
  let ?d = "desiredSession c r (int n) e"
  have 1: "keeps inv P (returns (\<lambda>s. reported live s (c, e, ?d))) (reconcile_sync w client live defaults c ?d e)"
    by (rule keeps_mono[OF reconcile_sync_keeps[OF refl]]) (use Cons.prems in auto)
  show ?case
    unfolding sync_loop.simps Let_def acc
  proof (rule keeps_returns[OF 1])
    fix s assume s: "reported live s (c, e, ?d)"
    let ?acc = "(ss @ [s], ses_Name ?d # names)"
    have "appends live (ss, names) [(c, e, ?d)] ?acc"
      using appends_one[OF s] by (simp add: entry_name_def)
    then show "keeps inv P (returns (appends live (ss, names) (rule_entries c r n (e # es))))
        (sync_loop w client live defaults c r (Suc n) es ?acc)"
      using appends_trans by (intro keeps_returns_mono[OF Cons.IH]) (use Cons.prems in fastforce)+
  qed
qed

lemma container_loop_keeps:
  assumes "\<And>x k. x \<in> set (desired_entries cs) \<Longrightarrow> entry_call live x k \<Longrightarrow> P k"
  shows "keeps inv P (returns (appends live acc (desired_entries cs))) (container_loop w client live defaults cs acc)"
  using assms
proof (induction cs arbitrary: acc)
  case Nil
  then show ?case by (auto intro: keeps_return simp: appends_Nil desired_entries_def)
next
  case (Cons c cs)
  have split: "desired_entries (c # cs) = container_entries c @ desired_entries cs"
    by (simp add: desired_entries_def)
  have IH: "keeps inv P (returns (appends live acc (desired_entries cs))) (container_loop w client live defaults cs acc)" for acc
    by (rule Cons.IH) (use Cons.prems in \<open>auto simp: split\<close>)
  have skip: "container_entries c = [] \<Longrightarrow> ?case"
    if "container_loop w client live defaults (c # cs) acc = container_loop w client live defaults cs acc"
    using IH by (simp only: split that append_Nil)
  show ?case
  proof (cases "ctr_Rule c")
    case None
    then show ?thesis by (intro skip) (simp_all add: container_entries_def)
  next
    case (Some r)
    show ?thesis
    proof (cases "rule_Syncs r")
      case Nil
      then show ?thesis using Some by (intro skip) (simp_all add: container_entries_def)
    next
      case (Cons e es)
      then have entries: "container_entries c = rule_entries c (rule_Name r) 0 (rule_Syncs r)"
        and loop: "container_loop w client live defaults (c # cs) acc =
          bind_sum (sync_loop w client live defaults c (rule_Name r) 0 (rule_Syncs r) acc)
            (container_loop w client live defaults cs)"
        using Some by (simp_all add: container_entries_def)
      have 1: "keeps inv P (returns (appends live acc (container_entries c)))
          (sync_loop w client live defaults c (rule_Name r) 0 (rule_Syncs r) acc)"
        unfolding entries by (rule sync_loop_keeps) (use Cons.prems in \<open>auto simp: split entries\<close>)
      show ?thesis
        unfolding loop split
        by (rule keeps_returns[OF 1], rule keeps_returns_mono[OF IH]) (rule appends_trans)
    qed
  qed
qed

lemma terminate_loop_keeps:
  assumes "\<And>k. leftover_call (Some l) names k \<Longrightarrow> P k"
  shows "keeps inv P no_panic (terminate_loop client names l)"
  using assms
proof (induction l)
  case Nil
  then show ?case by (auto intro: keeps_return)
next
  case (Cons x l)
  obtain n e where x: "x = (n, e)" by fastforce
  let ?t = "firstNonEmpty [ls_ID e, ls_Name e]"
  have IH: "keeps inv P no_panic (terminate_loop client names l)"
    by (rule Cons.IH) (use Cons.prems in \<open>auto simp: leftover_call_def\<close>)
  have "n \<notin> set names \<Longrightarrow> keeps inv P no_panic (sc_terminate client ?t)"
    by (rule keeps_mono[OF terminate_law]) (use Cons.prems in \<open>auto simp: leftover_call_def x simp del: firstNonEmpty.simps\<close>)
  then show ?case
    unfolding x terminate_loop.simps Let_def by (intro keeps_if keeps_bind_sum IH) auto
qed


lemma Reconcile_run:
  assumes run: "run_state (Reconcile w client cs cfg) s = (r, s')" and "inv s" and on: "sync_Enabled (cfg_Sync cfg)"
  shows "\<exists>live s1 ss new. run_state (open_daemon client) s = (Inr live, s1) \<and> r = Inr ss \<and>
    list_all2 (reported live) ss (desired_entries cs) \<and> inv s' \<and>
    hist s' = new @ hist s1 \<and> list_all (reconcile_call cs live) new"
proof -
  obtain r1 s1 where 1: "run_state (open_daemon client) s = (r1, s1)" by fastforce
  obtain live where live: "r1 = Inr live" and inv1: "inv s1"
    using keepsE[OF open_daemon_keeps 1 \<open>inv s\<close>] by (auto simp: no_panic_def isl_def split: sum.splits)
      (metis sum.exhaust_sel)
  let ?P = "reconcile_call cs live" and ?d = "sync_Defaults (cfg_Sync cfg)"
  define rest where "rest = bind_sum (container_loop w client live ?d cs ([], [])) (\<lambda>(sessions, names).
      bind_sum (case live of None \<Rightarrow> State_Monad.return (Inr ()) | Some l \<Rightarrow> terminate_loop client names l) (\<lambda>_.
      State_Monad.return (Inr sessions)))"
  have loop: "keeps inv ?P (returns (appends live ([], []) (desired_entries cs)))
      (container_loop w client live ?d cs ([], []))"
    by (rule container_loop_keeps) (auto simp: reconcile_call_def list_ex_iff Bex_def)
  have "keeps inv ?P (returns (\<lambda>ss. list_all2 (reported live) ss (desired_entries cs))) rest"
    unfolding rest_def
  proof (rule keeps_returns[OF loop], clarify)
    fix ss names assume a: "appends live ([], []) (desired_entries cs) (ss, names)"
    then have names: "set names = set (desired_names cs)" and ss: "list_all2 (reported live) ss (desired_entries cs)"
      by (auto simp: appends_def desired_names_def)
    have "keeps inv ?P no_panic (case live of None \<Rightarrow> State_Monad.return (Inr ()) | Some l \<Rightarrow> terminate_loop client names l)"
      by (auto intro!: keeps_return terminate_loop_keeps simp: reconcile_call_def leftover_call_def names
          split: option.split)
    then show "keeps inv ?P (returns (\<lambda>ss. list_all2 (reported live) ss (desired_entries cs)))
        (bind_sum (case live of None \<Rightarrow> State_Monad.return (Inr ()) | Some l \<Rightarrow> terminate_loop client names l)
          (\<lambda>_. State_Monad.return (Inr ss)))"
      by (rule keeps_ok) (auto intro: keeps_return simp: ss)
  qed
  moreover have "run_state rest s1 = (r, s')"
    using run 1 on live unfolding Reconcile_def rest_def by simp
  ultimately obtain new where "inv s'" "returns (\<lambda>ss. list_all2 (reported live) ss (desired_entries cs)) r"
    "hist s' = new @ hist s1" "list_all ?P new"
    using inv1 by (rule keepsE)
  then show ?thesis
    using 1 live by (cases r) (auto intro!: exI[of _ live])
qed

lemma Reconcile_inv: "inv s \<Longrightarrow> inv (snd (run_state (Reconcile w client cs cfg) s)) \<and>
    no_panic (fst (run_state (Reconcile w client cs cfg) s))"
  using Reconcile_run[of w cs cfg s] by (cases "sync_Enabled (cfg_Sync cfg)")
    (metis no_panic_Inr(1) prod.collapse, simp add: Reconcile_def)

end

section \<open>Names\<close>

lemma sessionName_not_empty [simp]: "sessionName cid r i e \<noteq> []"
  by (simp add: sessionName_def Let_def)

lemma append_sep_eq:
  assumes "(a :: string) @ sep # x = b @ sep # y" "sep \<notin> set a" "sep \<notin> set b"
  shows "a = b"
proof -
  have "Cut (a @ sep # x) sep = Cut (b @ sep # y) sep" by (simp only: assms(1))
  then show ?thesis using assms(2,3) by simp
qed

text \<open>The index can be read back from a name, given the length of the identifier's part.\<close>

lemma sessionName_inj:
  assumes eq: "sessionName cid r (int i) e = sessionName cid' r' (int i') e'"
    and len: "length (shortID cid) = length (shortID cid')"
  shows "shortID cid = shortID cid' \<and> i = i'"
proof -
  obtain x y where "shortID cid @ CHR ''-'' # Itoa (int i) @ CHR ''-'' # x =
      shortID cid' @ CHR ''-'' # Itoa (int i') @ CHR ''-'' # y"
    using eq unfolding sessionName_def Let_def by auto
  then have "shortID cid = shortID cid'" "Itoa (int i) @ CHR ''-'' # x = Itoa (int i') @ CHR ''-'' # y"
    using len by auto
  then show ?thesis
    using append_sep_eq[OF _ Itoa_nat_no_dash Itoa_nat_no_dash] Itoa_nat_inj by blast
qed

lemma desiredSession_name [simp]: "ses_Name (desiredSession c r i e) = sessionName (ctr_ID c) r i e"
  by (simp add: desiredSession_def Let_def split: prod.split)

lemma rule_entries_names:
  "x \<in> set (map entry_name (rule_entries c r n es)) \<Longrightarrow> \<exists>i e. n \<le> i \<and> x = sessionName (ctr_ID c) r (int i) e"
proof (induction es arbitrary: n)
  case (Cons e es)
  show ?case
  proof (cases "x = sessionName (ctr_ID c) r (int n) e")
    case False
    then have "x \<in> set (map entry_name (rule_entries c r (Suc n) es))"
      using Cons.prems by (simp add: entry_name_def)
    then show ?thesis using Cons.IH by (meson Suc_leD)
  qed blast
qed simp

lemma distinct_rule_entries: "distinct (map entry_name (rule_entries c r n es))"
proof (induction es arbitrary: n)
  case (Cons e es)
  have "sessionName (ctr_ID c) r (int n) e \<notin> set (map entry_name (rule_entries c r (Suc n) es))"
    using rule_entries_names sessionName_inj by fastforce
  then show ?case using Cons.IH by (simp add: entry_name_def)
qed simp

lemma container_entries_names:
  "x \<in> set (map entry_name (container_entries c)) \<Longrightarrow> \<exists>r i e. x = sessionName (ctr_ID c) r (int i) e"
  using rule_entries_names unfolding container_entries_def by (fastforce split: option.splits)

lemma desired_entries_simps [simp]:
  "desired_entries [] = []" "desired_entries (c # cs) = container_entries c @ desired_entries cs"
  by (simp_all add: desired_entries_def)

lemma distinct_names:
  assumes "list_all (\<lambda>c. 12 \<le> length (ctr_ID c)) cs" "distinct (map (\<lambda>c. shortID (ctr_ID c)) cs)"
  shows "distinct (desired_names cs)"
  using assms
proof (induction cs)
  case (Cons c cs)
  have "x \<notin> set (desired_names cs)" if x: "x \<in> set (map entry_name (container_entries c))" for x
  proof
    assume "x \<in> set (desired_names cs)"
    then obtain c' where c': "c' \<in> set cs" "x \<in> set (map entry_name (container_entries c'))"
      unfolding desired_names_def desired_entries_def by auto
    obtain r i e r' i' e' where "x = sessionName (ctr_ID c) r (int i) e" "x = sessionName (ctr_ID c') r' (int i') e'"
      using container_entries_names[OF x] container_entries_names[OF c'(2)] by blast
    moreover have "length (shortID (ctr_ID c)) = length (shortID (ctr_ID c'))"
      using Cons.prems(1) c'(1) by (auto simp: shortID_length list_all_iff)
    ultimately have "shortID (ctr_ID c) = shortID (ctr_ID c')"
      using sessionName_inj by metis
    then show False using Cons.prems(2) c'(1) by auto
  qed
  moreover have "distinct (map entry_name (container_entries c))"
    unfolding container_entries_def using distinct_rule_entries by (auto split: option.split)
  ultimately show ?case
    using Cons.IH Cons.prems unfolding desired_names_def by auto
qed (simp add: desired_names_def)

section \<open>Kinds of calls\<close>

fun creation :: "call \<Rightarrow> bool" where
  "creation (CallSyncCreate _ _ _) = True"
| "creation _ = False"

fun termination_call :: "call \<Rightarrow> bool" where
  "termination_call (CallSyncTerminate _ _ _) = True"
| "termination_call _ = False"

fun session_op :: "call \<Rightarrow> bool" where
  "session_op (CallSyncCreate _ _ _) = True"
| "session_op (CallSyncPause _ _ _) = True"
| "session_op (CallSyncResume _ _ _) = True"
| "session_op (CallSyncTerminate _ _ _) = True"
| "session_op _ = False"

lemma not_session_op:
  "connection_call k \<Longrightarrow> \<not> session_op k" "exec_call cid k \<Longrightarrow> \<not> session_op k"
  by (cases k; simp)+

lemma op_of_kind:
  "creation k \<Longrightarrow> session_op k" "termination_call k \<Longrightarrow> session_op k"
  "creation k \<Longrightarrow> \<not> pauses n k \<and> \<not> resumes n k \<and> \<not> terminates n k"
  "termination_call k \<Longrightarrow> \<not> pauses n k \<and> \<not> resumes n k \<and> \<not> creates n k"
  by (cases k; simp)+

lemma entry_call_None: "entry_call None x k \<Longrightarrow> \<not> session_op k"
  by (auto simp: entry_call_def not_session_op split: prod.splits)

lemma reconcile_call_None: "reconcile_call cs None k \<Longrightarrow> \<not> session_op k"
  by (auto simp: reconcile_call_def leftover_call_def list_ex_iff not_session_op dest: entry_call_None)

text \<open>When the daemon has exactly the desired sessions there is nothing to create or terminate.\<close>

lemma entry_call_no_creation:
  assumes "entry_call (Some l) (c, e, d) k" "ses_Name d \<in> set (map fst l)"
  shows "\<not> creation k \<and> \<not> termination_call k"
proof -
  have some: "map_of l (ses_Name d) \<noteq> None" using assms(2) by (simp add: map_of_eq_None_iff)
  show ?thesis
    using assms(1) some unfolding entry_call_def by (cases k) auto
qed

lemma reconcile_call_stable:
  assumes "reconcile_call cs (Some l) k" "set (map fst l) = set (desired_names cs)"
  shows "\<not> creation k \<and> \<not> termination_call k"
proof -
  have "\<not> leftover_call (Some l) (desired_names cs) k"
    using assms(2) by (force simp: leftover_call_def list_ex_iff)
  moreover have "\<not> creation k \<and> \<not> termination_call k" if "connection_call k"
    using that not_session_op op_of_kind by blast
  moreover have "\<not> creation k \<and> \<not> termination_call k" if "x \<in> set (desired_entries cs)" "entry_call (Some l) x k" for x
  proof -
    obtain c e d where x: "x = (c, e, d)" by (cases x)
    have "ses_Name d \<in> set (map fst l)"
      using that(1) assms(2) by (force simp: x desired_names_def entry_name_def)
    then show ?thesis using that(2) entry_call_no_creation unfolding x by blast
  qed
  ultimately show ?thesis
    using assms(1) by (auto simp: reconcile_call_def list_ex_iff)
qed

text \<open>A change of the entries that leaves their two paths alone, such as another mode.\<close>

definition retune :: "(SyncEntry \<Rightarrow> SyncEntry) \<Rightarrow> Container \<Rightarrow> Container" where
  "retune f c = c\<lparr>ctr_Rule := map_option (\<lambda>r. r\<lparr>rule_Syncs := map f (rule_Syncs r)\<rparr>) (ctr_Rule c)\<rparr>"

lemma rule_entries_retune:
  assumes "\<And>e. se_Manager (f e) = se_Manager e \<and> se_Container (f e) = se_Container e" "ctr_ID c' = ctr_ID c"
  shows "map entry_name (rule_entries c' r n (map f es)) = map entry_name (rule_entries c r n es)"
  using assms by (induction es arbitrary: n) (simp_all add: entry_name_def sessionName_def)

lemma desired_names_retune:
  assumes "\<And>e. se_Manager (f e) = se_Manager e \<and> se_Container (f e) = se_Container e"
  shows "desired_names (map (retune f) cs) = desired_names cs"
proof (induction cs)
  case (Cons c cs)
  have "map entry_name (container_entries (retune f c)) = map entry_name (container_entries c)"
    using rule_entries_retune[OF assms, of "retune f c" c]
    by (auto simp: container_entries_def retune_def split: option.split)
  then show ?case using Cons unfolding desired_names_def by simp
qed (simp add: desired_names_def)

lemma open_daemon_run:
  assumes "run_state (open_daemon (mutagen_service w)) s = (r, s')" "mut_inv s"
  shows "\<exists>new. hist s' = new @ hist s \<and> list_all connection_call new"
  by (rule keepsE[OF mutagen.open_daemon_keeps assms]) blast

text \<open>The daemon is away: it cannot be reached, or it does not list its sessions.\<close>

definition daemon_away :: "world \<Rightarrow> 'z mut_state_scheme \<Rightarrow> bool" where
  "daemon_away w s = (case run_state (ensureConnected w) s of
       (Some _, _) \<Rightarrow> True
     | (None, s1) \<Rightarrow> (case fst (run_state (listOwned w) s1) of Inr (Inl _) \<Rightarrow> True | _ \<Rightarrow> False))"

lemma open_daemon_away:
  assumes "daemon_away w s"
  shows "\<exists>s1. run_state (open_daemon (mutagen_service w)) s = (Inr None, s1)"
proof -
  obtain e s1 where 1: "run_state (ensureConnected w) s = (e, s1)" by fastforce
  obtain l s2 where 2: "run_state (listOwned w) s1 = (l, s2)" by fastforce
  show ?thesis
    using assms 1 2 by (cases e) (auto simp: daemon_away_def open_daemon_def mutagen_service_def split: sum.splits)
qed

lemma list_all_no_op:
  "list_all connection_call ks \<Longrightarrow> list_all (\<lambda>k. \<not> session_op k) ks"
  "list_all connection_call ks \<Longrightarrow> list_all (\<lambda>k. \<not> creation k \<and> \<not> termination_call k) ks"
  using not_session_op op_of_kind unfolding list_all_iff by blast+


section \<open>What is reported, entry by entry\<close>

text \<open>
  The check of an entry's endpoints, by what the manager's file system and the container answer:
  it fails with the container's error, or when both paths are missing, or when both exist and are
  of different kinds. The second component is the state after both have been asked.
\<close>

definition stat_word :: "stat_result \<Rightarrow> string" where
  "stat_word m = (if m = StatNotExist then ''missing'' else if m = StatOk PathDir then ''directory''
     else if m = StatOk PathRegular then ''file'' else ''other'')"

definition endpoint_check :: "world \<Rightarrow> Container \<Rightarrow> SyncEntry \<Rightarrow> 'z io_state_scheme \<Rightarrow> string option \<times> 'z io_state_scheme" where
  "endpoint_check w c e t =
     (let m = w_Stat w (hist t) (se_Manager e);
          asked = run_state (PathKind w (ctr_ID c) (se_Container e)) (t\<lparr>hist := CallStat (se_Manager e) # hist t\<rparr>);
          kind = fst (fst asked)
      in (if snd (fst asked) \<noteq> None then snd (fst asked)
          else if kind = ''missing'' then
            (if m = StatNotExist then Some (''both endpoints are missing: '' @ se_Manager e @ '' and '' @ se_Container e) else None)
          else if m = StatNotExist \<or> stat_word m = kind then None
          else Some (''endpoint type mismatch: manager is '' @ stat_word m @ '', container is '' @ kind), snd asked))"

text \<open>
  The session reported for an entry reached in the state \<open>t\<close> and left in \<open>t'\<close>: the desired
  session, paused when the container does not run; otherwise with the fault of its endpoints, or
  that the daemon is away, or as the daemon has it, or as the attempt to create it ended.
\<close>

definition report :: "world \<Rightarrow> ('z io_state_scheme) session_client \<Rightarrow> live_sessions option \<Rightarrow> SyncDefaults \<Rightarrow>
    'z io_state_scheme \<Rightarrow> entry \<Rightarrow> Session \<Rightarrow> 'z io_state_scheme \<Rightarrow> bool" where
  "report w client live defaults t = (\<lambda>(c, e, d) s t'.
     if \<not> ctr_Running c then
       s = d\<lparr>ses_Status := ''paused''\<rparr> \<and>
       t' = (if live = None then t else snd (run_state (sc_pause client (ses_Name d)) t))
     else (case endpoint_check w c e t of
       (Some fault, t0) \<Rightarrow> s = d\<lparr>ses_Status := ''configuration-error'', ses_Error := fault\<rparr> \<and> t' = t0
     | (None, t0) \<Rightarrow> (case live of
         None \<Rightarrow> s = d\<lparr>ses_Status := ''mutagen-daemon-unavailable'',
             ses_Error := ''unable to connect to Mutagen daemon''\<rparr> \<and> t' = t0
       | Some l \<Rightarrow> (case map_of l (ses_Name d) of
           Some x \<Rightarrow> t' = snd (run_state (sc_resume client (ses_Name d)) t0) \<and>
             s = d\<lparr>ses_ID := (if ls_ID x = [] then ses_ID d else ls_ID x),
                   ses_Status := (if ls_Status x = [] then ''ready'' else ls_Status x)\<rparr>
         | None \<Rightarrow>
             if fst (run_state (sc_create client d e defaults) t0) = Inr None
             then s = d\<lparr>ses_Status := ''ready''\<rparr> \<and> t' = snd (run_state (sc_create client d e defaults) t0)
             else \<exists>err. run_state (sc_create client d e defaults) t0 = (Inr (Some err), t') \<and>
               s = d\<lparr>ses_Status := ''create-error'', ses_Error := err\<rparr>))))"

fun reports :: "world \<Rightarrow> ('z io_state_scheme) session_client \<Rightarrow> live_sessions option \<Rightarrow> SyncDefaults \<Rightarrow>
    'z io_state_scheme \<Rightarrow> entry list \<Rightarrow> Session list \<Rightarrow> 'z io_state_scheme \<Rightarrow> bool" where
  "reports w client live defaults t [] ss t' \<longleftrightarrow> ss = [] \<and> t' = t"
| "reports w client live defaults t (x # xs) ss t' \<longleftrightarrow> (\<exists>s rest t1. ss = s # rest \<and>
     report w client live defaults t x s t1 \<and> reports w client live defaults t1 xs rest t')"

lemma reports_length: "reports w client live defaults t xs ss t' \<Longrightarrow> length ss = length xs"
  by (induction xs arbitrary: t ss) auto

lemma reports_append:
  "reports w client live defaults t xs a t1 \<Longrightarrow> reports w client live defaults t1 ys b t2 \<Longrightarrow>
   reports w client live defaults t (xs @ ys) (a @ b) t2"
  by (induction xs arbitrary: t a) (auto, blast)

lemma validateEndpoints_check:
  "run_state (validateEndpoints w (ctr_ID c) e) t = endpoint_check w c e t"
  by (auto simp: validateEndpoints_def localKind_def endpoint_check_def endpoint_error_def stat_word_def Let_def
      split: prod.split option.split stat_result.split path_info.split)

lemma reconcile_sync_report:
  assumes "run_state (reconcile_sync w client live defaults c d e) t = (Inr s, t')"
  shows "report w client live defaults t (c, e, d) s t'"
proof (cases "ctr_Running c")
  case False
  then show ?thesis
    using assms by (cases live) (auto simp: reconcile_sync_def report_def split: prod.splits sum.splits)
next
  case True
  obtain fault t0 where check: "endpoint_check w c e t = (fault, t0)" by fastforce
  show ?thesis
  proof (cases fault)
    case (Some err)
    then show ?thesis
      using assms True check by (simp add: reconcile_sync_def report_def validateEndpoints_check)
  next
    case fit: None
    show ?thesis
    proof (cases live)
      case None
      then show ?thesis
        using assms True check fit by (simp add: reconcile_sync_def report_def validateEndpoints_check)
    next
      case (Some l)
      then show ?thesis
        using assms True check fit
        by (cases "map_of l (ses_Name d)")
          (auto simp: reconcile_sync_def report_def validateEndpoints_check split: prod.splits sum.splits option.splits)
    qed
  qed
qed

lemma sync_loop_reports:
  assumes "run_state (sync_loop w client live defaults c r n es acc) t = (Inr acc', t')"
  shows "\<exists>new. fst acc' = fst acc @ new \<and> reports w client live defaults t (rule_entries c r n es) new t'"
  using assms
proof (induction es arbitrary: n acc t)
  case (Cons e es)
  obtain ss names where acc: "acc = (ss, names)" by fastforce
  let ?d = "desiredSession c r (int n) e"
  from Cons.prems obtain s t1 where 1: "run_state (reconcile_sync w client live defaults c ?d e) t = (Inr s, t1)"
    and 2: "run_state (sync_loop w client live defaults c r (Suc n) es (ss @ [s], ses_Name ?d # names)) t1 = (Inr acc', t')"
    unfolding acc by (auto split: prod.splits sum.splits)
  from Cons.IH[OF 2] reconcile_sync_report[OF 1] show ?case unfolding acc by force
qed simp

lemma container_loop_reports:
  assumes "run_state (container_loop w client live defaults cs acc) t = (Inr acc', t')"
  shows "\<exists>new. fst acc' = fst acc @ new \<and> reports w client live defaults t (desired_entries cs) new t'"
  using assms
proof (induction cs arbitrary: acc t)
  case (Cons c cs)
  show ?case
  proof (cases "container_entries c = []")
    case True
    then have "container_loop w client live defaults (c # cs) acc = container_loop w client live defaults cs acc"
      by (cases "ctr_Rule c"; cases "rule_Syncs (the (ctr_Rule c))") (auto simp: container_entries_def)
    then show ?thesis using Cons True by simp
  next
    case False
    then obtain r where r: "ctr_Rule c = Some r" "rule_Syncs r \<noteq> []"
      by (cases "ctr_Rule c"; cases "rule_Syncs (the (ctr_Rule c))") (auto simp: container_entries_def)
    with Cons.prems obtain acc1 t1 where
      1: "run_state (sync_loop w client live defaults c (rule_Name r) 0 (rule_Syncs r) acc) t = (Inr acc1, t1)"
      and 2: "run_state (container_loop w client live defaults cs acc1) t1 = (Inr acc', t')"
      by (auto split: prod.splits sum.splits)
    obtain a where a: "fst acc1 = fst acc @ a" "reports w client live defaults t (container_entries c) a t1"
      using sync_loop_reports[OF 1] r by (auto simp: container_entries_def)
    obtain b where b: "fst acc' = fst acc1 @ b" "reports w client live defaults t1 (desired_entries cs) b t'"
      using Cons.IH[OF 2] by blast
    show ?thesis using a(1) b(1) reports_append[OF a(2) b(2)] by auto
  qed
qed simp

lemma Reconcile_reported:
  assumes run: "run_state (Reconcile w client cs cfg) s = (Inr ss, s')" and on: "sync_Enabled (cfg_Sync cfg)"
    and daemon: "run_state (open_daemon client) s = (Inr live, s1)"
  shows "\<exists>s2. reports w client live (sync_Defaults (cfg_Sync cfg)) s1 (desired_entries cs) ss s2"
proof -
  obtain names s2 where "run_state (container_loop w client live (sync_Defaults (cfg_Sync cfg)) cs ([], [])) s1 =
      (Inr (ss, names), s2)"
    using run on daemon by (auto simp: Reconcile_def split: prod.splits sum.splits)
  from container_loop_reports[OF this] show ?thesis by auto
qed

section \<open>Properties\<close>

definition example_sync :: SyncEntry where
  "example_sync = \<lparr>se_Mode = ''push'', se_Manager = ''/sync/gitconfig'', se_Container = ''/home/vscode/.gitconfig'',
     se_Replica = False, se_IgnoreVCS = None, se_Ignores = [],
     se_Permissions = \<lparr>perm_DefaultFileMode = [], perm_DefaultDirectoryMode = []\<rparr>\<rparr>"

definition example_container :: "string \<Rightarrow> Container" where
  "example_container cid = \<lparr>ctr_ID = cid, ctr_ShortID = shortID cid, ctr_Name = ''vsc-x'', ctr_Image = [],
     ctr_Labels = Some [], ctr_Status = ''Up'', ctr_Running = True, ctr_LocalFolder = [], ctr_ConfigFile = [],
     ctr_WorkspaceFolder = [], ctr_Metadata = None, ctr_ComposeService = [], ctr_ContainerUser = ''vscode'',
     ctr_ContainerHome = ''/home/vscode'', ctr_UserSource = [], ctr_RuleName = ''default'',
     ctr_Rule = Some ((named_rule ''default'')\<lparr>rule_Syncs := [example_sync]\<rparr>), ctr_LastSeen = 0,
     ctr_ContainerIP = [], ctr_T3 = empty_t3, ctr_Sync = empty_summary, ctr_DiscoveryReasons = [], ctr_Warnings = []\<rparr>"

definition two_containers :: "Container list" where
  "two_containers = [example_container ''0123456789abcdef'', example_container ''fedcba9876543210'']"

text \<open>The desired sessions of a reconciliation have pairwise different names, so that a session
  the daemon has can be attributed to one entry, as soon as the containers' identifiers have at
  least the twelve bytes of the short form and differ in them.\<close>

theorem sessionNames_distinct:
  assumes "list_all (\<lambda>c. 12 \<le> length (ctr_ID c)) cs" and "distinct (map (\<lambda>c. shortID (ctr_ID c)) cs)"
  shows "distinct (map ses_Name (desired_sessions cs))"
  using distinct_names[OF assms]
  by (simp add: desired_names_def desired_sessions_def entry_name_def comp_def case_prod_unfold)

theorem sessionNames_distinct_witness: "distinct (map ses_Name (desired_sessions two_containers))"
  by (rule sessionNames_distinct) (simp_all add: two_containers_def example_container_def shortID_def)

text \<open>The direction of a session: \<open>pull\<close> has the container as its source and the manager's
  path as its target, every other mode the reverse, and a synchronization is one-way exactly for
  \<open>push\<close> and \<open>pull\<close>; the labels name the container, the rule and the index of the entry.\<close>

theorem desiredSession_direction:
  "let d = desiredSession c r i e;
       url = ''docker://'' @ ctr_ContainerUser c @ ''@'' @ ctr_ID c @ se_Container e in
   (ses_Alpha d, ses_Beta d) = (if se_Mode e = ''pull'' then (url, se_Manager e) else (se_Manager e, url)) \<and>
   (mutagenMode (ses_Mode d) replica \<in> {''one-way-safe'', ''one-way-replica''}) =
     (se_Mode e \<in> {''push'', ''pull''}) \<and>
   map_get (ses_Labels d) labelContainer = ctr_ID c \<and> map_get (ses_Labels d) labelRule = r \<and>
   map_get (ses_Labels d) labelSyncIndex = Itoa i \<and> map_get (ses_Labels d) labelOwned = ''true''"
proof (cases "se_Mode e = []")
  case True
  then show ?thesis
    by (simp add: desiredSession_def Let_def mutagenMode_def map_get_def labelOwned_def labelContainer_def
        labelRule_def labelSyncIndex_def)
next
  case False
  then show ?thesis
    by (auto simp: desiredSession_def Let_def mutagenMode_def map_get_def labelOwned_def labelContainer_def
        labelRule_def labelSyncIndex_def)
qed

text \<open>The endpoints of an entry are accepted exactly when the container answers and the two
  kinds fit: at least one endpoint exists, and when both do they are of the same kind.\<close>

theorem validateEndpoints_iff:
  "(fst (run_state (validateEndpoints w cid e) s) = None) =
     (let (mk, s1) = run_state (localKind w (se_Manager e)) s;
          ((ck, err), s2) = run_state (PathKind w cid (se_Container e)) s1
      in err = None \<and> \<not> (mk = ''missing'' \<and> ck = ''missing'') \<and>
         (mk = ''missing'' \<or> ck = ''missing'' \<or> mk = ck))"
  by (auto simp: validateEndpoints_def endpoint_error_def split: prod.split option.split)

text \<open>Claim C14. A reconciliation reports exactly one session for every sync entry of every container that
  has a rule, in that order, each with the status and the error of its branch and no other: paused when
  the container does not run; a configuration error exactly when the check of its endpoints, made when the
  entry is reached, fails, with that fault; unavailable when the daemon is away; the daemon's identifier
  and status when it has the session; and otherwise ready exactly when the daemon created it, else with the
  error of the creation. It does not panic and leaves the client consistent.\<close>

theorem Reconcile_reports:
  assumes "run_state (Reconcile w (mutagen_service w) cs cfg) s = (r, s')"
    and "mut_inv s" and "sync_Enabled (cfg_Sync cfg)"
  shows "\<exists>live s1 ss s2. run_state (open_daemon (mutagen_service w)) s = (Inr live, s1) \<and> r = Inr ss \<and>
    reports w (mutagen_service w) live (sync_Defaults (cfg_Sync cfg)) s1 (desired_entries cs) ss s2 \<and> mut_inv s'"
proof -
  obtain live s1 ss where 1: "run_state (open_daemon (mutagen_service w)) s = (Inr live, s1)" "r = Inr ss" "mut_inv s'"
    using mutagen.Reconcile_run[OF assms] by blast
  from Reconcile_reported[OF assms(1)[unfolded 1(2)] assms(3) 1(1)] 1 show ?thesis by blast
qed

theorem Reconcile_reports_witness:
  "\<exists>live s1 ss. run_state (open_daemon (mutagen_service daemon_world)) mut_start = (Inr live, s1) \<and>
     fst (run_state (Reconcile daemon_world (mutagen_service daemon_world) two_containers Default) mut_start) = Inr ss \<and>
     length ss = 2"
proof -
  let ?r = "run_state (Reconcile daemon_world (mutagen_service daemon_world) two_containers Default) mut_start"
  have "length (desired_entries two_containers) = 2"
    by (simp add: two_containers_def example_container_def container_entries_def named_rule_def)
  moreover have "\<exists>live s1 ss s2. run_state (open_daemon (mutagen_service daemon_world)) mut_start = (Inr live, s1) \<and>
      fst ?r = Inr ss \<and> reports daemon_world (mutagen_service daemon_world) live (sync_Defaults (cfg_Sync Default)) s1
        (desired_entries two_containers) ss s2 \<and> mut_inv (snd ?r)"
    by (rule Reconcile_reports[where cfg = Default])
      (simp_all add: mut_start_def newMutagenClient_def mut_inv_def client_ok_def Default_def)
  ultimately show ?thesis using reports_length by metis
qed

text \<open>Claim C13. After it has listed the daemon's sessions a reconciliation pauses only desired sessions of
  containers that are not running, resumes only desired sessions the daemon has, creates only
  desired sessions it does not have, terminates only sessions that are not desired, and probes
  only the endpoints of running containers.\<close>

theorem Reconcile_calls:
  assumes "run_state (open_daemon (mutagen_service w)) s = (Inr live, s1)"
    and "run_state (Reconcile w (mutagen_service w) cs cfg) s = (r, s')"
    and "mut_inv s" and "sync_Enabled (cfg_Sync cfg)"
  shows "list_all (reconcile_call cs live) (new_calls (hist s1) (hist s'))"
  using mutagen.Reconcile_run[OF assms(2-4)] assms(1) by auto

theorem Reconcile_calls_witness:
  "list_all (reconcile_call two_containers (Some []))
     (new_calls (hist (snd (run_state (open_daemon (mutagen_service daemon_world)) mut_start)))
       (hist (snd (run_state (Reconcile daemon_world (mutagen_service daemon_world) two_containers Default) mut_start))))"
proof (rule Reconcile_calls)
  show "run_state (open_daemon (mutagen_service daemon_world)) mut_start =
      (Inr (Some []), snd (run_state (open_daemon (mutagen_service daemon_world)) mut_start))"
    by (simp add: open_daemon_def mutagen_service_def ensureConnected_def verifyDaemonVersion_def listOwned_def
        list_request_def daemon_world_def mut_start_def newMutagenClient_def)
  show "run_state (Reconcile daemon_world (mutagen_service daemon_world) two_containers Default) mut_start =
      (fst (run_state (Reconcile daemon_world (mutagen_service daemon_world) two_containers Default) mut_start),
       snd (run_state (Reconcile daemon_world (mutagen_service daemon_world) two_containers Default) mut_start))"
    by simp
qed (simp_all add: mut_start_def newMutagenClient_def mut_inv_def client_ok_def Default_def)

text \<open>Claim C27. When the daemon cannot be reached or cannot list its sessions, nothing is created, paused,
  resumed or terminated: a daemon that is away loses no session.\<close>

theorem Reconcile_unavailable:
  assumes away: "daemon_away w s"
    and run: "run_state (Reconcile w (mutagen_service w) cs cfg) s = (r, s')" and inv: "mut_inv s"
  shows "list_all (\<lambda>k. \<not> session_op k) (new_calls (hist s) (hist s'))"
proof (cases "sync_Enabled (cfg_Sync cfg)")
  case True
  obtain s1 where open_none: "run_state (open_daemon (mutagen_service w)) s = (Inr None, s1)"
    using open_daemon_away[OF away] by blast
  obtain n1 where n1: "hist s1 = n1 @ hist s" "list_all connection_call n1"
    using open_daemon_run[OF open_none inv] by blast
  obtain n2 where n2: "hist s' = n2 @ hist s1" "list_all (reconcile_call cs None) n2"
    using mutagen.Reconcile_run[OF run inv True] open_none by auto
  have "new_calls (hist s) (hist s') = n2 @ n1"
    using n1(1) n2(1) new_calls_append[of "hist s" "n2 @ n1"] by simp
  then show ?thesis
    using n1(2) n2(2) list_all_no_op(1) reconcile_call_None unfolding list_all_iff by auto
qed (use run in \<open>simp add: Reconcile_def\<close>)

theorem Reconcile_unavailable_witness:
  "list_all (\<lambda>k. \<not> session_op k) (new_calls (hist mut_start)
     (hist (snd (run_state (Reconcile offline_world (mutagen_service offline_world) two_containers Default) mut_start))))"
proof (rule Reconcile_unavailable)
  show "daemon_away offline_world mut_start"
    by (simp add: daemon_away_def ensureConnected_def offline_world_def mut_start_def newMutagenClient_def)
  show "run_state (Reconcile offline_world (mutagen_service offline_world) two_containers Default) mut_start =
      (fst (run_state (Reconcile offline_world (mutagen_service offline_world) two_containers Default) mut_start),
       snd (run_state (Reconcile offline_world (mutagen_service offline_world) two_containers Default) mut_start))"
    by simp
qed (simp add: mut_start_def newMutagenClient_def mut_inv_def client_ok_def)

text \<open>Claim C28. A daemon that has exactly the sessions of a configuration is left with them: no session is
  created or terminated. This also holds after the entries have been given other modes, replica
  flags, ignores or permissions, since a session's name does not depend on them: such a change
  of the configuration never reaches a session that exists.\<close>

theorem Reconcile_keeps_sessions:
  assumes "\<And>e. se_Manager (f e) = se_Manager e \<and> se_Container (f e) = se_Container e"
    and "run_state (open_daemon (mutagen_service w)) s = (Inr (Some l), s1)"
    and "set (map fst l) = set (desired_names cs)"
    and "run_state (Reconcile w (mutagen_service w) (map (retune f) cs) cfg) s = (r, s')" and "mut_inv s"
  shows "list_all (\<lambda>k. \<not> creation k \<and> \<not> termination_call k) (new_calls (hist s) (hist s'))"
proof (cases "sync_Enabled (cfg_Sync cfg)")
  case True
  obtain n1 where n1: "hist s1 = n1 @ hist s" "list_all connection_call n1"
    using open_daemon_run[OF assms(2,5)] by blast
  obtain n2 where n2: "hist s' = n2 @ hist s1" "list_all (reconcile_call (map (retune f) cs) (Some l)) n2"
    using mutagen.Reconcile_run[OF assms(4,5) True] assms(2) by auto
  have "new_calls (hist s) (hist s') = n2 @ n1"
    using n1(1) n2(1) new_calls_append[of "hist s" "n2 @ n1"] by simp
  moreover have "set (map fst l) = set (desired_names (map (retune f) cs))"
    using assms(3) desired_names_retune[of f cs] assms(1) by simp
  ultimately show ?thesis
    using n1(2) n2(2) list_all_no_op(2) reconcile_call_stable unfolding list_all_iff by auto
qed (use assms(4) in \<open>simp add: Reconcile_def\<close>)

definition synced_world :: world where
  "synced_world = daemon_world\<lparr>w_SyncList := \<lambda>_ _. RpcOk [\<lparr>mst_Session = Some \<lparr>ms_Identifier = ''sync_1'',
     ms_Name = sessionName ''0123456789abcdef'' ''default'' 0 example_sync, ms_Paused = False\<rparr>,
     mst_Status = Status_Watching, mst_LastError = []\<rparr>]\<rparr>"

theorem Reconcile_keeps_sessions_witness:
  "list_all (\<lambda>k. \<not> creation k \<and> \<not> termination_call k) (new_calls (hist mut_start)
     (hist (snd (run_state (Reconcile synced_world (mutagen_service synced_world)
       (map (retune (\<lambda>e. e\<lparr>se_Mode := ''pull''\<rparr>)) [example_container ''0123456789abcdef'']) Default) mut_start))))"
  (is "list_all _ (new_calls _ (hist (snd ?run)))")
proof (rule Reconcile_keeps_sessions)
  let ?o = "run_state (open_daemon (mutagen_service synced_world)) mut_start"
  let ?n = "sessionName ''0123456789abcdef'' ''default'' 0 example_sync"
  show "?o = (Inr (Some [(?n, \<lparr>ls_ID = ''sync_1'', ls_Name = ?n, ls_Status = ''ready''\<rparr>)]), snd ?o)"
    by (simp add: open_daemon_def mutagen_service_def ensureConnected_def verifyDaemonVersion_def listOwned_def
        list_request_def daemon_world_def synced_world_def mut_start_def newMutagenClient_def live_entry_def
        mutagenStatus_def)
  show "set (map fst [(?n, \<lparr>ls_ID = ''sync_1'', ls_Name = ?n, ls_Status = ''ready''\<rparr>)]) =
      set (desired_names [example_container ''0123456789abcdef''])"
    by (simp add: desired_names_def example_container_def container_entries_def named_rule_def entry_name_def)
  show "?run = (fst ?run, snd ?run)" by simp
qed (simp_all add: mut_start_def newMutagenClient_def mut_inv_def client_ok_def)

end
