(* ===== verification/GoPath.thy ===== *)
theory GoPath
  imports Prelude
begin

text \<open>
  The parts of Go's \<open>path\<close>, \<open>path/filepath\<close> (on Unix) and \<open>net\<close> packages the gateway, the
  service and the command use: \<open>Clean\<close>, \<open>Join\<close>, \<open>Base\<close>, \<open>IsAbs\<close>, \<open>SplitHostPort\<close>
  and \<open>JoinHostPort\<close>; and \<open>singleJoiningSlash\<close> of the gateway. The lemmas show what a cleaned
  path is made of, that cleaning is idempotent, and that a joined address splits again.
\<close>

section \<open>Clean\<close>

text \<open>
  \<open>Clean\<close> works through the elements between slashes with a stack of those kept (top first):
  empty and \<open>.\<close> elements are dropped, \<open>..\<close> removes the element before it, and is dropped at
  the root.
\<close>

definition dot :: string where "dot = ''.''"
definition dotdot :: string where "dotdot = ''..''"

fun clean_elems :: "bool \<Rightarrow> string list \<Rightarrow> string list \<Rightarrow> string list" where
  "clean_elems rooted st [] = rev st"
| "clean_elems rooted st (x # xs) =
     (if x = [] \<or> x = dot then clean_elems rooted st xs
      else if x = dotdot then
        (if st \<noteq> [] \<and> hd st \<noteq> dotdot then clean_elems rooted (tl st) xs
         else if rooted then clean_elems rooted st xs
         else clean_elems rooted (dotdot # st) xs)
      else clean_elems rooted (x # st) xs)"

fun join_slash :: "string list \<Rightarrow> string" where
  "join_slash [] = []"
| "join_slash [x] = x"
| "join_slash (x # y # xs) = x @ CHR ''/'' # join_slash (y # xs)"

definition is_rooted :: "string \<Rightarrow> bool" where
  "is_rooted p \<longleftrightarrow> HasPrefix p ''/''"

definition path_Clean :: "string \<Rightarrow> string" where
  "path_Clean p =
     (if p = [] then ''.''
      else let out = join_slash (clean_elems (is_rooted p) [] (Split p CHR ''/'')) in
        if is_rooted p then CHR ''/'' # out else if out = [] then ''.'' else out)"

definition path_Join :: "string list \<Rightarrow> string" where
  "path_Join elems = (case filter (\<lambda>e. e \<noteq> []) elems of [] \<Rightarrow> [] | es \<Rightarrow> path_Clean (join_slash es))"

definition filepath_Clean :: "string \<Rightarrow> string" where "filepath_Clean = path_Clean"
definition filepath_Join :: "string list \<Rightarrow> string" where "filepath_Join = path_Join"
definition filepath_IsAbs :: "string \<Rightarrow> bool" where "filepath_IsAbs p \<longleftrightarrow> is_rooted p"

text \<open>\<open>filepath.Dir\<close>: what comes up to the last slash, cleaned.\<close>

definition filepath_Dir :: "string \<Rightarrow> string" where
  "filepath_Dir p = path_Clean (rev (dropWhile (\<lambda>c. c \<noteq> CHR ''/'') (rev p)))"

definition filepath_Base :: "string \<Rightarrow> string" where
  "filepath_Base p =
     (if p = [] then ''.''
      else let s = last (Split (TrimRightChar p CHR ''/'') CHR ''/'') in if s = [] then ''/'' else s)"

text \<open>\<open>singleJoiningSlash\<close> of the gateway.\<close>

definition singleJoiningSlash :: "string \<Rightarrow> string \<Rightarrow> string" where
  "singleJoiningSlash a b = path_Join [''/'', TrimPrefix a ''/'', TrimPrefix b ''/'']"

section \<open>Host and port\<close>

fun index_byte :: "string \<Rightarrow> char \<Rightarrow> nat option" where
  "index_byte [] c = None"
| "index_byte (x # s) c = (if x = c then Some 0 else map_option Suc (index_byte s c))"

definition last_index :: "string \<Rightarrow> char \<Rightarrow> nat option" where
  "last_index s c = map_option (\<lambda>i. length s - 1 - i) (index_byte (rev s) c)"

definition addr_error :: "string \<Rightarrow> string \<Rightarrow> 'a res" where
  "addr_error addr why = Inl (''address '' @ addr @ '': '' @ why)"

definition split_rest :: "string \<Rightarrow> string \<Rightarrow> nat \<Rightarrow> nat \<Rightarrow> nat \<Rightarrow> (string \<times> string) res" where
  "split_rest hostport host i j k =
     (if CHR ''['' \<in> set (drop j hostport) then addr_error hostport ''unexpected '[' in address''
      else if CHR '']'' \<in> set (drop k hostport) then addr_error hostport ''unexpected ']' in address''
      else Inr (host, drop (i + 1) hostport))"

definition SplitHostPort :: "string \<Rightarrow> (string \<times> string) res" where
  "SplitHostPort hostport =
     (case last_index hostport CHR '':'' of
        None \<Rightarrow> addr_error hostport ''missing port in address''
      | Some i \<Rightarrow>
          if hd hostport = CHR ''['' then
            (case index_byte hostport CHR '']'' of
               None \<Rightarrow> addr_error hostport ''missing ']' in address''
             | Some end \<Rightarrow>
                 if end + 1 = length hostport then addr_error hostport ''missing port in address''
                 else if end + 1 = i then split_rest hostport (take (end - 1) (drop 1 hostport)) i 1 (end + 1)
                 else if hostport ! (end + 1) = CHR '':'' then addr_error hostport ''too many colons in address''
                 else addr_error hostport ''missing port in address'')
          else if CHR '':'' \<in> set (take i hostport) then addr_error hostport ''too many colons in address''
          else split_rest hostport (take i hostport) i 0 0)"

definition JoinHostPort :: "string \<Rightarrow> string \<Rightarrow> string" where
  "JoinHostPort host port =
     (if CHR '':'' \<in> set host then ''['' @ host @ '']:'' @ port else host @ '':'' @ port)"

section \<open>What a cleaned path is made of\<close>

definition proper :: "string \<Rightarrow> bool" where
  "proper x \<longleftrightarrow> x \<noteq> [] \<and> x \<noteq> dot \<and> x \<noteq> dotdot \<and> CHR ''/'' \<notin> set x"

text \<open>A result of \<open>clean_elems\<close>: proper elements, after some \<open>..\<close> where the path is relative.\<close>

definition clean_list :: "bool \<Rightarrow> string list \<Rightarrow> bool" where
  "clean_list rooted xs \<longleftrightarrow> (\<exists>n ys. xs = replicate n dotdot @ ys \<and> list_all proper ys \<and> (rooted \<longrightarrow> n = 0))"

lemma clean_list_snoc: "clean_list r xs \<Longrightarrow> proper y \<Longrightarrow> clean_list r (xs @ [y])"
  unfolding clean_list_def by (elim exE conjE, rule_tac x = n in exI, rule_tac x = "ys @ [y]" in exI) simp

lemma clean_list_up:
  assumes "clean_list False xs" "xs = [] \<or> last xs = dotdot"
  shows "clean_list False (xs @ [dotdot])"
proof -
  obtain n ys where n: "xs = replicate n dotdot @ ys" "list_all proper ys"
    using assms(1) by (auto simp: clean_list_def)
  have "ys = []"
  proof (rule ccontr)
    assume "ys \<noteq> []"
    then have "last xs = last ys" "last ys \<in> set ys" "xs \<noteq> []" using n by auto
    then show False using n(2) assms(2) by (auto simp: list_all_iff proper_def)
  qed
  then have "xs @ [dotdot] = replicate (Suc n) dotdot @ []"
    using n by (simp add: replicate_append_same)
  then show ?thesis unfolding clean_list_def by (metis list.pred_inject(1))
qed

lemma clean_list_butlast: "clean_list r xs \<Longrightarrow> clean_list r (butlast xs)"
  unfolding clean_list_def
proof (elim exE conjE)
  fix n ys assume h: "xs = replicate n dotdot @ ys" "list_all proper ys" "r \<longrightarrow> n = 0"
  show "\<exists>n ys. butlast xs = replicate n dotdot @ ys \<and> list_all proper ys \<and> (r \<longrightarrow> n = 0)"
  proof (cases ys rule: rev_cases)
    case Nil
    then have "butlast xs = replicate (n - 1) dotdot @ []"
      using h by (cases n) (simp_all flip: replicate_append_same)
    then show ?thesis using h(3) by (metis diff_0_eq_0 list.pred_inject(1))
  next
    case (snoc zs z)
    then have "butlast xs = replicate n dotdot @ zs" using h by (simp add: butlast_append)
    then show ?thesis using h snoc by auto
  qed
qed

lemma clean_elems_clean:
  assumes "clean_list r (rev st)" "list_all (\<lambda>x. CHR ''/'' \<notin> set x) xs"
  shows "clean_list r (clean_elems r st xs)"
  using assms
proof (induction r st xs rule: clean_elems.induct)
  case (2 r st x xs)
  have down: "clean_list r (rev (tl st))"
    using clean_list_butlast[OF "2.prems"(1)] by (simp add: butlast_rev)
  have push: "proper x \<Longrightarrow> clean_list r (rev (x # st))"
    using clean_list_snoc[OF "2.prems"(1)] by simp
  have up: "\<not> r \<Longrightarrow> st = [] \<or> hd st = dotdot \<Longrightarrow> clean_list r (rev (dotdot # st))"
    using clean_list_up[of "rev st"] "2.prems"(1) by (auto simp: last_rev)
  show ?case
    using 2 down push up by (auto simp: proper_def)
qed simp

text \<open>A clean list is not changed by cleaning it.\<close>

lemma clean_elems_proper:
  "list_all proper xs \<Longrightarrow> clean_elems r st xs = rev st @ xs"
  by (induction xs arbitrary: st) (auto simp: proper_def)

lemma clean_elems_dotdots:
  "list_all (\<lambda>x. x = dotdot) st \<Longrightarrow>
     clean_elems False st (replicate n dotdot @ ys) = clean_elems False (replicate n dotdot @ st) ys"
proof (induction n arbitrary: st)
  case (Suc n)
  have "st \<noteq> [] \<Longrightarrow> hd st = dotdot" using Suc.prems by (cases st) auto
  then have "clean_elems False st (replicate (Suc n) dotdot @ ys) =
      clean_elems False (dotdot # st) (replicate n dotdot @ ys)"
    by (auto simp: dot_def dotdot_def)
  then show ?case using Suc by (simp add: replicate_app_Cons_same)
qed simp

lemma clean_elems_id:
  assumes "clean_list r xs"
  shows "clean_elems r [] xs = xs"
proof -
  obtain n ys where n: "xs = replicate n dotdot @ ys" "list_all proper ys" "r \<longrightarrow> n = 0"
    using assms by (auto simp: clean_list_def)
  show ?thesis
  proof (cases r)
    case True
    then show ?thesis using n by (simp add: clean_elems_proper)
  next
    case False
    then show ?thesis
      using n clean_elems_dotdots[of "[]" n ys] by (simp add: clean_elems_proper)
  qed
qed

lemma Split_no_sep: "x \<in> set (Split s c) \<Longrightarrow> c \<notin> set x"
  by (induction s arbitrary: x) (auto split: list.splits if_splits)

lemma Split_append_sep: "c \<notin> set x \<Longrightarrow> Split (x @ c # s) c = x # Split s c"
  by (induction x) auto

lemma Split_whole: "c \<notin> set x \<Longrightarrow> Split x c = [x]"
  by (induction x) auto

lemma Split_join:
  "xs \<noteq> [] \<Longrightarrow> list_all (\<lambda>x. CHR ''/'' \<notin> set x) xs \<Longrightarrow> Split (join_slash xs) CHR ''/'' = xs"
  by (induction xs rule: join_slash.induct) (auto simp: Split_append_sep Split_whole)

lemma clean_list_elem:
  "clean_list r xs \<Longrightarrow> x \<in> set xs \<Longrightarrow> proper x \<or> x = dotdot"
  unfolding clean_list_def list_all_iff by (elim exE conjE) auto

lemma clean_list_no_slash: "clean_list r xs \<Longrightarrow> list_all (\<lambda>x. CHR ''/'' \<notin> set x \<and> x \<noteq> []) xs"
  using clean_list_elem by (fastforce simp: list_all_iff proper_def dotdot_def)

lemma clean_split: "clean_list r (clean_elems r [] (Split p CHR ''/''))"
  by (rule clean_elems_clean) (auto simp: clean_list_def list_all_iff dest: Split_no_sep)

lemma join_slash_empty: "list_all (\<lambda>x. x \<noteq> []) xs \<Longrightarrow> join_slash xs = [] \<longleftrightarrow> xs = []"
  by (cases xs rule: join_slash.cases) auto

lemma join_slash_hd: "xs \<noteq> [] \<Longrightarrow> hd xs \<noteq> [] \<Longrightarrow> hd (join_slash xs) = hd (hd xs)"
  by (cases xs rule: join_slash.cases) auto

lemma path_Clean_nonempty [simp]: "path_Clean p \<noteq> []"
  by (simp add: path_Clean_def Let_def)

text \<open>The elements of a cleaned rooted path.\<close>

definition path_elems :: "string \<Rightarrow> string list" where
  "path_elems p = clean_elems (is_rooted p) [] (Split p CHR ''/'')"

lemma path_elems_clean: "clean_list (is_rooted p) (path_elems p)"
  by (simp add: path_elems_def clean_split)

lemma path_elems_not_rooted_hd:
  assumes "path_elems p \<noteq> []"
  shows "\<not> is_rooted (join_slash (path_elems p))"
proof -
  have "hd (path_elems p) \<in> set (path_elems p)" using assms by simp
  then have h: "hd (path_elems p) \<noteq> []" "CHR ''/'' \<notin> set (hd (path_elems p))"
    using clean_list_no_slash[OF path_elems_clean] by (auto simp: list_all_iff)
  then have "hd (join_slash (path_elems p)) \<noteq> CHR ''/''"
    using join_slash_hd[OF assms] by (metis hd_in_set)
  then show ?thesis
    using assms join_slash_empty[of "path_elems p"] clean_list_no_slash[OF path_elems_clean, of p]
    by (cases "join_slash (path_elems p)") (auto simp: is_rooted_def HasPrefix_def list_all_iff)
qed

lemma path_Clean_rooted: "is_rooted p \<Longrightarrow> path_Clean p = CHR ''/'' # join_slash (path_elems p)"
  by (auto simp: path_Clean_def path_elems_def is_rooted_def HasPrefix_def Let_def)

lemma path_Clean_relative:
  "\<not> is_rooted p \<Longrightarrow> path_Clean p = (if path_elems p = [] then ''.'' else join_slash (path_elems p))"
  using join_slash_empty[of "path_elems p"] clean_list_no_slash[OF path_elems_clean, of p]
  by (auto simp: path_Clean_def path_elems_def Let_def list_all_iff)

lemma is_rooted_Clean [simp]: "is_rooted (path_Clean p) = is_rooted p"
proof (cases "is_rooted p")
  case True
  then show ?thesis by (simp add: path_Clean_rooted is_rooted_def HasPrefix_def)
next
  case False
  then show ?thesis using path_elems_not_rooted_hd[of p]
    by (auto simp: path_Clean_relative is_rooted_def HasPrefix_def)
qed

lemma path_elems_Clean [simp]: "path_elems (path_Clean p) = path_elems p"
proof -
  have no_slash: "list_all (\<lambda>x. CHR ''/'' \<notin> set x) (path_elems p)"
    using clean_list_no_slash[OF path_elems_clean, of p] by (auto simp: list_all_iff)
  have id: "clean_elems (is_rooted p) [] (path_elems p) = path_elems p"
    by (rule clean_elems_id[OF path_elems_clean])
  show ?thesis
  proof (cases "path_elems p = []")
    case True
    then show ?thesis
      by (cases "is_rooted p")
        (simp_all add: path_Clean_rooted path_Clean_relative path_elems_def[of "''/''"] path_elems_def[of "''.''"] dot_def)
  next
    case False
    then have split: "Split (join_slash (path_elems p)) CHR ''/'' = path_elems p"
      using Split_join no_slash by blast
    show ?thesis
    proof (cases "is_rooted p")
      case True
      then show ?thesis
        using split id unfolding path_elems_def[of "path_Clean p"] is_rooted_Clean by (simp add: path_Clean_rooted)
    next
      case rel: False
      then have "path_Clean p = join_slash (path_elems p)" using False by (simp add: path_Clean_relative)
      then show ?thesis
        using split id rel unfolding path_elems_def[of "path_Clean p"] is_rooted_Clean by simp
    qed
  qed
qed

lemma path_Clean_idem [simp]: "path_Clean (path_Clean p) = path_Clean p"
  by (cases "is_rooted p")
    (metis path_Clean_rooted is_rooted_Clean path_elems_Clean, metis path_Clean_relative is_rooted_Clean path_elems_Clean)


lemma rooted_elems: "is_rooted p \<Longrightarrow> list_all proper (path_elems p)"
  using path_elems_clean[of p] by (auto simp: clean_list_def)

section \<open>Joining a base and a request path\<close>

lemma Split_append: "Split (a @ c # b) c = Split a c @ Split b c"
  by (induction a) (auto split: list.splits)

lemma clean_elems_empty: "clean_elems r st ([] # xs) = clean_elems r st xs"
  by simp

lemma clean_elems_snoc: "clean_elems r st (xs @ [[]]) = clean_elems r st xs"
  by (induction r st xs rule: clean_elems.induct) auto

lemma clean_elems_snoc_empty:
  "clean_elems r st (xs @ [[]]) = clean_elems r st xs" "clean_elems r st (xs @ [[], []]) = clean_elems r st xs"
  "clean_elems r st (xs @ ys @ [[]]) = clean_elems r st (xs @ ys)"
  using clean_elems_snoc[of r st xs] clean_elems_snoc[of r st "xs @ [[]]"] clean_elems_snoc[of r st "xs @ ys"]
  by simp_all

definition joined :: "string \<Rightarrow> string \<Rightarrow> string" where
  "joined a b = join_slash (filter (\<lambda>e. e \<noteq> []) [''/'', TrimPrefix a ''/'', TrimPrefix b ''/''])"

lemma singleJoiningSlash_joined: "singleJoiningSlash a b = path_Clean (joined a b)"
  by (simp add: singleJoiningSlash_def path_Join_def joined_def)

lemma joined_rooted [simp]: "is_rooted (joined a b)"
  by (simp add: joined_def is_rooted_def HasPrefix_def)

lemma singleJoiningSlash_eq:
  "singleJoiningSlash a b = CHR ''/'' # join_slash (path_elems (joined a b))"
  by (simp add: singleJoiningSlash_joined path_Clean_rooted)

text \<open>The elements of a joined path are those of the base and then those of the request path.\<close>

lemma path_elems_joined_b:
  "path_elems (joined [] b) = clean_elems True [] (Split (TrimPrefix b ''/'') CHR ''/'')"
  by (auto simp: path_elems_def joined_def is_rooted_def HasPrefix_def TrimPrefix_def[of "[]"])

lemma path_elems_joined_slash:
  "path_elems (joined a (b @ ''/'')) = path_elems (joined a b)"
proof (cases "TrimPrefix b ''/'' = []")
  case True
  then have "b = [] \<or> b = ''/''" by (auto simp: TrimPrefix_def HasPrefix_iff prefix_def split: if_splits)
  then have "TrimPrefix (b @ ''/'') ''/'' = [] \<or> TrimPrefix (b @ ''/'') ''/'' = ''/''"
    by (auto simp: TrimPrefix_def HasPrefix_def)
  then show ?thesis
    using True unfolding path_elems_def is_rooted_def joined_def
    by (auto simp: HasPrefix_def Split_append clean_elems_snoc_empty)
next
  case False
  then have "TrimPrefix (b @ ''/'') ''/'' = TrimPrefix b ''/'' @ ''/''"
    by (cases b) (auto simp: TrimPrefix_def HasPrefix_def split: if_splits)
  then show ?thesis
    using False unfolding path_elems_def is_rooted_def joined_def
    by (auto simp: HasPrefix_def Split_append clean_elems_snoc_empty)
qed

lemma join_slash_last:
  "xs \<noteq> [] \<Longrightarrow> last xs \<noteq> [] \<Longrightarrow> last (join_slash xs) = last (last xs)"
proof (induction xs rule: join_slash.induct)
  case (3 x y xs)
  have "join_slash (y # xs) \<noteq> []" using 3(3) by (cases xs) auto
  then show ?case using 3 by simp
qed auto

section \<open>Splitting a joined address\<close>

lemma index_byte_none [simp]: "c \<notin> set s \<Longrightarrow> index_byte s c = None"
  by (induction s) auto

lemma index_byte_append [simp]: "c \<notin> set s \<Longrightarrow> index_byte (s @ c # t) c = Some (length s)"
  by (induction s) auto

lemma last_index_append [simp]: "c \<notin> set t \<Longrightarrow> last_index (s @ c # t) c = Some (length s)"
  unfolding last_index_def by (simp flip: append_Cons) simp

lemma SplitHostPort_JoinHostPort:
  assumes "set host \<inter> {CHR ''['', CHR '']''} = {}" "set port \<inter> {CHR ''['', CHR '']'', CHR '':''} = {}"
  shows "SplitHostPort (JoinHostPort host port) = Inr (host, port)"
proof (cases "CHR '':'' \<in> set host")
  case True
  let ?a = "''['' @ host @ '']'' @ CHR '':'' # port"
  have idx: "index_byte ?a CHR '']'' = Some (length host + 1)"
    using assms(1) index_byte_append[of "CHR '']''" "CHR ''['' # host" "CHR '':'' # port"] by simp
  have li: "last_index ?a CHR '':'' = Some (length host + 2)"
    using assms(2) last_index_append[of "CHR '':''" port "CHR ''['' # host @ '']''"] by simp
  have "JoinHostPort host port = ?a" using True by (simp add: JoinHostPort_def)
  then show ?thesis
    using assms by (simp only: SplitHostPort_def idx li option.case) (simp add: split_rest_def)
next
  case False
  let ?a = "host @ CHR '':'' # port"
  have "last_index ?a CHR '':'' = Some (length host)" using assms(2) by simp
  moreover have "hd ?a \<noteq> CHR ''[''" using assms(1) by (cases host) auto
  moreover have "JoinHostPort host port = ?a" using False by (simp add: JoinHostPort_def)
  ultimately show ?thesis
    using assms False by (simp add: SplitHostPort_def split_rest_def)
qed

section \<open>Properties\<close>

text \<open>Claim C36. The path a proxied request is sent to is rooted and clean: none of its elements is empty,
  \<open>.\<close> or \<open>..\<close>, whatever the request path was, so a request cannot climb out of the backend's
  root.\<close>

theorem singleJoiningSlash_clean:
  "is_rooted (singleJoiningSlash a b) \<and>
   singleJoiningSlash a b = CHR ''/'' # join_slash (path_elems (singleJoiningSlash a b)) \<and>
   list_all (\<lambda>x. x \<noteq> [] \<and> x \<noteq> ''.'' \<and> x \<noteq> ''..'' \<and> CHR ''/'' \<notin> set x) (path_elems (singleJoiningSlash a b)) \<and>
   singleJoiningSlash [] (singleJoiningSlash a b) = singleJoiningSlash a b"
proof -
  have elems: "path_elems (singleJoiningSlash a b) = path_elems (joined a b)"
    by (simp add: singleJoiningSlash_joined)
  have proper: "list_all proper (path_elems (joined a b))" by (simp add: rooted_elems)
  have idem: "singleJoiningSlash [] (singleJoiningSlash a b) = singleJoiningSlash a b"
  proof -
    let ?t = "join_slash (path_elems (joined a b))"
    have "path_elems (joined [] (singleJoiningSlash a b)) = clean_elems True [] (Split ?t CHR ''/'')"
      unfolding path_elems_joined_b singleJoiningSlash_eq[of a b] by (simp add: TrimPrefix_def HasPrefix_def)
    also have "\<dots> = path_elems (joined a b)"
    proof (cases "path_elems (joined a b) = []")
      case False
      then have "Split ?t CHR ''/'' = path_elems (joined a b)"
        using proper by (intro Split_join) (auto simp: list_all_iff proper_def)
      then show ?thesis using proper by (simp add: clean_elems_proper)
    qed simp
    finally show ?thesis by (simp add: singleJoiningSlash_eq)
  qed
  show ?thesis
    using proper idem unfolding elems
    by (auto simp: singleJoiningSlash_eq is_rooted_def HasPrefix_def list_all_iff proper_def dot_def dotdot_def)
qed

text \<open>The joined path never ends in a slash, unless it is the root: the trailing slash of a
  request path is lost on the way to the backend.\<close>

theorem singleJoiningSlash_drops_slash:
  "singleJoiningSlash a (b @ ''/'') = singleJoiningSlash a b \<and>
   (last (singleJoiningSlash a b) = CHR ''/'') = (singleJoiningSlash a b = ''/'')"
proof -
  let ?e = "path_elems (joined a b)"
  have "?e \<noteq> [] \<Longrightarrow> last (CHR ''/'' # join_slash ?e) \<noteq> CHR ''/''"
  proof -
    assume ne: "?e \<noteq> []"
    then have "proper (last ?e)" using rooted_elems[OF joined_rooted, of a b] by (simp add: list_all_iff)
    then have l: "last ?e \<noteq> []" "CHR ''/'' \<notin> set (last ?e)" by (auto simp: proper_def)
    then have "join_slash ?e \<noteq> []"
      using join_slash_empty[of ?e] rooted_elems[OF joined_rooted, of a b] ne by (auto simp: list_all_iff proper_def)
    then show ?thesis using join_slash_last[OF ne l(1)] l last_in_set by (metis last_ConsR)
  qed
  moreover have "?e = [] \<Longrightarrow> singleJoiningSlash a b = ''/''" by (simp add: singleJoiningSlash_eq)
  ultimately show ?thesis
    unfolding singleJoiningSlash_eq path_elems_joined_slash by fastforce
qed

end
