(* ===== verification/Proxy.thy ===== *)
theory Proxy
  imports Pairing Dockerx GoPath
begin

text \<open>
  The gateway's traffic with the t3 backends, from \<open>internal/t3/gateway.go\<close>: probing a
  container, issuing backend tokens inside it, proxying HTTP requests and websockets, and JSON
  calls of the backend's API. Every path that a backend answers with 401 refreshes the backend
  token once and repeats the request. The lemmas show what a container's status is after a
  reconciliation and which requests a proxied request leads to.
\<close>

section \<open>The container interface\<close>

text \<open>The interface \<open>dockerClient\<close>: the two operations, and which calls they may make.\<close>

record 's docker_client =
  dc_Exec :: "string \<Rightarrow> string list \<Rightarrow> string list \<Rightarrow> ('s, string \<times> string option) state"
  dc_ExecWithStdin :: "string \<Rightarrow> string list \<Rightarrow> string \<Rightarrow> string \<Rightarrow> ('s, string option) state"

locale docker_service =
  fixes docker :: "('z io_state_scheme) docker_client"
  assumes exec_law: "io_only (exec_call cid) (dc_Exec docker cid cmd args)"
    and stdin_law: "io_only (exec_call cid) (dc_ExecWithStdin docker cid cmd user input)"

definition dockerx_client :: "world \<Rightarrow> ('z io_state_scheme) docker_client" where
  "dockerx_client w = \<lparr>dc_Exec = Exec w, dc_ExecWithStdin = ExecWithStdin w\<rparr>"

interpretation dockerx: docker_service "dockerx_client w"
  by unfold_locales (auto simp: dockerx_client_def intro: call_rules)

section \<open>HTTP\<close>

text \<open>\<open>http.NewRequest\<close> fails when the URL does not parse; \<open>client.Do\<close> is the world's.\<close>

definition client_Do :: "world \<Rightarrow> string \<Rightarrow> string \<Rightarrow> header \<Rightarrow> string \<Rightarrow>
    ('z io_state_scheme, http_response res) state" where
  "client_Do w method url h body =
     (case w_url_Parse w url of
        Inl err \<Rightarrow> State_Monad.return (Inl err)
      | Inr _ \<Rightarrow>
          let req = \<lparr>req_Method = method, req_URL = url, req_Header = h, req_Body = body\<rparr> in
          ask (\<lambda>hs. w_Http w hs req) (CallHttp req))"

definition header_Set :: "header \<Rightarrow> string \<Rightarrow> string \<Rightarrow> header" where
  "header_Set h k v = AList.update k [v] h"

definition header_Del :: "header \<Rightarrow> string \<Rightarrow> header" where
  "header_Del h k = AList.delete k h"

definition header_Add :: "header \<Rightarrow> string \<Rightarrow> string \<Rightarrow> header" where
  "header_Add h k v = AList.update k ((case map_of h k of None \<Rightarrow> [] | Some vs \<Rightarrow> vs) @ [v]) h"

fun copyHeader :: "header \<Rightarrow> header \<Rightarrow> header" where
  "copyHeader dst [] = dst"
| "copyHeader dst ((key, values) # src) = copyHeader (foldl (\<lambda>d v. header_Add d key v) dst values) src"

text \<open>\<open>if token != "" { Set("Authorization", "Bearer "+token) }\<close>\<close>

definition with_token :: "header \<Rightarrow> string \<Rightarrow> header" where
  "with_token h token = (if token \<noteq> [] then header_Set h ''Authorization'' (''Bearer '' @ token) else h)"

definition success :: "nat \<Rightarrow> bool" where
  "success code \<longleftrightarrow> \<not> (code < 200 \<or> 300 \<le> code)"

text \<open>\<open>Decode\<close> into a \<open>map[string]any\<close>.\<close>

definition json_kind :: "json \<Rightarrow> string" where
  "json_kind j = (case j of JNull \<Rightarrow> ''null'' | JBool _ \<Rightarrow> ''bool'' | JNum _ \<Rightarrow> ''number'' | JStr _ \<Rightarrow> ''string''
     | JArr _ \<Rightarrow> ''array'' | JObj _ \<Rightarrow> ''object'')"

definition unmarshal_error :: "json \<Rightarrow> string \<Rightarrow> string" where
  "unmarshal_error j ty = ''json: cannot unmarshal '' @ json_kind j @ '' into Go value of type '' @ ty"

definition decode_map :: "json res \<Rightarrow> (string, json) gomap res" where
  "decode_map r = bind_res r (\<lambda>j. case j of
     JObj kvs \<Rightarrow> Inr (rev kvs)
   | JNull \<Rightarrow> Inr []
   | _ \<Rightarrow> Inl (unmarshal_error j ''map[string]interface {}''))"

text \<open>The first of the keys that holds a non-empty string.\<close>

fun first_string :: "string list \<Rightarrow> (string, json) gomap \<Rightarrow> string" where
  "first_string [] m = []"
| "first_string (k # ks) m =
     (case map_of m k of Some (JStr v) \<Rightarrow> (if v \<noteq> [] then v else first_string ks m) | _ \<Rightarrow> first_string ks m)"

definition read_body :: "world \<Rightarrow> http_response \<Rightarrow> json res" where
  "read_body w resp = w_json_stream w (take json_limit (resp_Body resp))"

section \<open>Probing and backend tokens\<close>

definition probe :: "world \<Rightarrow> string \<Rightarrow> ('z io_state_scheme, string res) state" where
  "probe w backend = do {
     r \<leftarrow> client_Do w ''GET'' (backend @ ''/.well-known/t3/environment'') [] [];
     State_Monad.return (bind_res r (\<lambda>resp.
       if \<not> success (resp_StatusCode resp) then Inl (resp_Status resp)
       else bind_res (decode_map (read_body w resp)) (\<lambda>body.
         Inr (first_string [''id'', ''environmentId'', ''environmentID''] body))))
   }"

definition issueBackendToken :: "('z io_state_scheme) docker_client \<Rightarrow> string \<Rightarrow> string \<Rightarrow>
    ('z io_state_scheme, string res) state" where
  "issueBackendToken docker containerID workspace =
     (let workspace = (if workspace = [] then ''/workspace'' else workspace) in do {
       (out, err) \<leftarrow> dc_Exec docker containerID [''env'', ''T3CODE_HOME='' @ workspace, ''t3'', ''auth'', ''session'',
         ''issue'', ''--role'', ''owner'', ''--label'', ''gateway'', ''--token-only''] [];
       State_Monad.return (case err of Some e \<Rightarrow> Inl e | None \<Rightarrow> Inr (TrimSpace out))
     })"

definition RefreshBackendToken :: "('z io_state_scheme) docker_client \<Rightarrow> string \<Rightarrow> string \<Rightarrow>
    ('z io_state_scheme, string res) state" where
  "RefreshBackendToken docker containerID workspace = issueBackendToken docker containerID workspace"

section \<open>Reconciling a container's status\<close>

definition t3_enabled :: "Container \<Rightarrow> Config \<Rightarrow> bool" where
  "t3_enabled container cfg =
     (case ctr_Rule container of None \<Rightarrow> t3c_Enabled (cfg_T3 cfg)
      | Some rule \<Rightarrow> (case rt3_Enabled (rule_T3 rule) of None \<Rightarrow> t3c_Enabled (cfg_T3 cfg) | Some b \<Rightarrow> b))"

definition backend_url :: "Container \<Rightarrow> Config \<Rightarrow> string" where
  "backend_url container cfg =
     (let port = (if t3c_Port (cfg_T3 cfg) = 0 then 3773 else t3c_Port (cfg_T3 cfg))
      in ''http://'' @ ctr_ContainerIP container @ '':'' @ Itoa port)"

definition env_base_url :: "string \<Rightarrow> string \<Rightarrow> string" where
  "env_base_url publicBaseURL envID = TrimRightChar publicBaseURL CHR ''/'' @ ''/env/'' @ envID @ ''/''"

definition set_t3 :: "Container \<Rightarrow> T3Status \<Rightarrow> Container" where
  "set_t3 container t = container\<lparr>ctr_T3 := t\<rparr>"

text \<open>The part after a probe that succeeded.\<close>

definition ready_status :: "string \<Rightarrow> string \<Rightarrow> T3Status \<Rightarrow> T3Status" where
  "ready_status publicBaseURL envID t =
     t\<lparr>t3_EnvironmentID := envID, t3_HTTPBaseURL := env_base_url publicBaseURL envID,
       t3_WSBaseURL := ReplaceFirst (env_base_url publicBaseURL envID) ''http://'' ''ws://'',
       t3_Status := ''ready'', t3_Error := []\<rparr>"

definition reconcile_ready :: "('z io_state_scheme) docker_client \<Rightarrow> Container \<Rightarrow> Config \<Rightarrow> string \<Rightarrow> T3Status \<Rightarrow>
    string \<Rightarrow> ('z io_state_scheme, Container) state" where
  "reconcile_ready docker container cfg publicBaseURL t probed =
     (let envID = (if probed = [] then ctr_ShortID container else probed);
          t = ready_status publicBaseURL envID t in
      if t3c_AutoIssueBackendToken (cfg_T3 cfg) \<and> t3_BackendToken t = [] then do {
        issued \<leftarrow> issueBackendToken docker (ctr_ID container) (ctr_WorkspaceFolder container);
        State_Monad.return (set_t3 container (case issued of
          Inl err \<Rightarrow> t\<lparr>t3_Status := ''ready-no-token'', t3_Error := err\<rparr>
        | Inr token \<Rightarrow> t\<lparr>t3_BackendToken := token\<rparr>))
      }
      else State_Monad.return (set_t3 container t))"

definition ReconcileContainer :: "world \<Rightarrow> ('z io_state_scheme) docker_client \<Rightarrow> Container \<Rightarrow> Config \<Rightarrow> string \<Rightarrow>
    ('z io_state_scheme, Container) state" where
  "ReconcileContainer w docker container cfg publicBaseURL =
     (let enabled = t3_enabled container cfg; t = (ctr_T3 container)\<lparr>t3_Enabled := enabled\<rparr> in
      if \<not> enabled then State_Monad.return (set_t3 container (t\<lparr>t3_Status := ''disabled''\<rparr>))
      else if \<not> ctr_Running container then State_Monad.return (set_t3 container (t\<lparr>t3_Status := ''stopped''\<rparr>))
      else if ctr_ContainerIP container = [] then
        State_Monad.return (set_t3 container (t\<lparr>t3_Status := ''unreachable'',
          t3_Error := ''container has no IP address''\<rparr>))
      else do {
        now \<leftarrow> time_Now w;
        let t = t\<lparr>t3_BackendURL := backend_url container cfg, t3_LastProbe := now\<rparr>;
        probed \<leftarrow> probe w (backend_url container cfg);
        case probed of
          Inl err \<Rightarrow> State_Monad.return (set_t3 container (t\<lparr>t3_Status := ''not-ready'', t3_Error := err\<rparr>))
        | Inr envID \<Rightarrow> reconcile_ready docker container cfg publicBaseURL t envID
      })"

section \<open>Proxying HTTP\<close>

text \<open>
  \<open>do\<close>: one request to the backend. The body of the incoming request is read whole and put
  back, so a repeated request sends it again. It is there in full: a body that fails while it is
  read is outside the model.
\<close>

definition proxy_url :: "world \<Rightarrow> go_url \<Rightarrow> in_request \<Rightarrow> string \<Rightarrow> string" where
  "proxy_url w target r rest =
     w_url_String w (target\<lparr>url_Path := singleJoiningSlash (url_Path target) rest, url_RawQuery := in_RawQuery r\<rparr>)"

definition proxy_header :: "in_request \<Rightarrow> string \<Rightarrow> header" where
  "proxy_header r token = with_token (header_Del (in_Header r) ''Authorization'') token"

definition proxy_do :: "world \<Rightarrow> go_url \<Rightarrow> in_request \<Rightarrow> string \<Rightarrow> string \<Rightarrow>
    ('z io_state_scheme, http_response res) state" where
  "proxy_do w target r rest token =
     client_Do w (in_Method r) (proxy_url w target r rest) (proxy_header r token) (in_Body r)"

text \<open>
  The retry that \<open>proxyHTTP\<close> and \<open>backendJSON\<close> share: the token used last, and the result. The
  body of the first response is closed before the refresh, so reading it afterwards gives
  nothing.
\<close>

definition closed_body :: "http_response \<Rightarrow> http_response" where
  "closed_body resp = resp\<lparr>resp_Body := []\<rparr>"

definition with_refresh :: "('z io_state_scheme, string res) state option \<Rightarrow> string \<Rightarrow>
    (string \<Rightarrow> ('z io_state_scheme, http_response res) state) \<Rightarrow>
    ('z io_state_scheme, string \<times> http_response res) state" where
  "with_refresh refreshToken token do_request = do {
     first \<leftarrow> do_request token;
     case (first, refreshToken) of
       (Inr resp, Some refresh) \<Rightarrow>
         if resp_StatusCode resp = 401 then do {
           refreshed \<leftarrow> refresh;
           case refreshed of
             Inl _ \<Rightarrow> State_Monad.return (token, Inr (closed_body resp))
           | Inr token' \<Rightarrow> do { again \<leftarrow> do_request token'; State_Monad.return (token', again) }
         }
         else State_Monad.return (token, first)
     | _ \<Rightarrow> State_Monad.return (token, first)
   }"

definition proxyHTTP :: "world \<Rightarrow> in_request \<Rightarrow> string \<Rightarrow> T3Status \<Rightarrow> ('z io_state_scheme, string res) state option \<Rightarrow>
    ('z io_state_scheme, reply) state" where
  "proxyHTTP w r rest status refreshToken =
     (case w_url_Parse w (t3_BackendURL status) of
        Inl err \<Rightarrow> State_Monad.return (Error_reply 502 err)
      | Inr target \<Rightarrow> do {
          (_, result) \<leftarrow> with_refresh refreshToken (t3_BackendToken status) (proxy_do w target r rest);
          State_Monad.return (case result of
            Inl err \<Rightarrow> Error_reply 502 err
          | Inr resp \<Rightarrow> Relay (resp_StatusCode resp) (copyHeader [] (resp_Header resp)) (resp_Body resp))
        })"

section \<open>JSON calls of the backend\<close>

text \<open>
  \<open>backendJSON\<close>: \<open>input\<close> is the value to marshal, if any, \<open>decode\<close> reads the answer into the
  output (no caller passes a nil output). The status carries the refreshed token to later calls.
\<close>

definition backend_do :: "world \<Rightarrow> T3Status \<Rightarrow> string \<Rightarrow> string \<Rightarrow> json option \<Rightarrow> string \<Rightarrow>
    ('z io_state_scheme, http_response res) state" where
  "backend_do w status method rest input token =
     client_Do w method (TrimRightChar (t3_BackendURL status) CHR ''/'' @ rest)
       (with_token (case input of None \<Rightarrow> [] | Some _ \<Rightarrow> header_Set [] ''Content-Type'' ''application/json'') token)
       (case input of None \<Rightarrow> [] | Some j \<Rightarrow> w_json_text w j)"

definition backendJSON :: "world \<Rightarrow> T3Status \<Rightarrow> ('z io_state_scheme, string res) state option \<Rightarrow> string \<Rightarrow> string \<Rightarrow>
    json option \<Rightarrow> (json res \<Rightarrow> 'o res) \<Rightarrow> ('z io_state_scheme, T3Status \<times> 'o res) state" where
  "backendJSON w status refreshToken method rest input decode = do {
     (token, result) \<leftarrow> with_refresh refreshToken (t3_BackendToken status) (backend_do w status method rest input);
     State_Monad.return (status\<lparr>t3_BackendToken := token\<rparr>, bind_res result (\<lambda>resp.
       if \<not> success (resp_StatusCode resp)
       then Inl (resp_Status resp @ '': '' @ TrimSpace (take 4096 (resp_Body resp)))
       else decode (read_body w resp)))
   }"

definition dispatch :: "world \<Rightarrow> T3Status \<Rightarrow> ('z io_state_scheme, string res) state option \<Rightarrow> json \<Rightarrow>
    ('z io_state_scheme, T3Status \<times> string option) state" where
  "dispatch w status refreshToken command = do {
     (status', result) \<leftarrow> backendJSON w status refreshToken ''POST'' ''/api/orchestration/dispatch'' (Some command) decode_map;
     State_Monad.return (status', case result of Inl err \<Rightarrow> Some err | Inr _ \<Rightarrow> None)
   }"

section \<open>Websockets\<close>

definition issueWSToken :: "world \<Rightarrow> T3Status \<Rightarrow> ('z io_state_scheme, string res) state" where
  "issueWSToken w status = do {
     r \<leftarrow> client_Do w ''POST'' (TrimRightChar (t3_BackendURL status) CHR ''/'' @ ''/api/auth/ws-token'')
       (with_token [] (t3_BackendToken status)) [];
     State_Monad.return (bind_res r (\<lambda>resp.
       if \<not> success (resp_StatusCode resp) then Inl (resp_Status resp)
       else bind_res (decode_map (read_body w resp)) (\<lambda>payload.
         let token = first_string [''wsToken'', ''token''] payload in
         if token \<noteq> [] then Inr token else Inl ''ws token response did not include a token'')))
   }"

text \<open>
  \<open>target, _ := url.Parse(status.BackendURL)\<close> ignores the error: a URL that does not parse is a
  nil pointer. The call ends when one of the two copying goroutines does (\<open>copyWS\<close> in \<open>Loops\<close>);
  the deferred closing of both connections is not recorded among the calls.
\<close>

definition ws_url :: "world \<Rightarrow> go_url \<Rightarrow> in_request \<Rightarrow> string \<Rightarrow> string \<Rightarrow> string" where
  "ws_url w target r rest wsToken =
     w_url_String w (target\<lparr>url_Scheme := ReplaceFirst (url_Scheme target) ''http'' ''ws'',
       url_Path := singleJoiningSlash (url_Path target) rest,
       url_RawQuery := w_query_Set w (in_RawQuery r) ''wsToken'' wsToken\<rparr>)"

definition proxyWebsocket :: "world \<Rightarrow> in_request \<Rightarrow> string \<Rightarrow> T3Status \<Rightarrow>
    ('z io_state_scheme, string res) state option \<Rightarrow> ('z io_state_scheme, reply go) state" where
  "proxyWebsocket w r rest status refreshToken = do {
     first \<leftarrow> issueWSToken w status;
     issued \<leftarrow> (case (first, refreshToken) of
       (Inl err, Some refresh) \<Rightarrow> do {
         refreshed \<leftarrow> refresh;
         case refreshed of
           Inl _ \<Rightarrow> State_Monad.return first
         | Inr token \<Rightarrow> issueWSToken w (status\<lparr>t3_BackendToken := token\<rparr>)
       }
     | _ \<Rightarrow> State_Monad.return first);
     case issued of
       Inl err \<Rightarrow> State_Monad.return (Inr (Error_reply 502 err))
     | Inr wsToken \<Rightarrow> (case w_url_Parse w (t3_BackendURL status) of
         Inl _ \<Rightarrow> State_Monad.return (Inl NilDereference)
       | Inr target \<Rightarrow> do {
           upgraded \<leftarrow> ask (w_Upgrade w) CallUpgrade;
           case upgraded of
             Inl _ \<Rightarrow> State_Monad.return (Inr WS_not_upgraded)
           | Inr _ \<Rightarrow> do {
               dialed \<leftarrow> ask (\<lambda>h. w_WsDial w h (ws_url w target r rest wsToken)) (CallWsDial (ws_url w target r rest wsToken));
               case dialed of
                 Inl err \<Rightarrow> do { _ \<leftarrow> ask (\<lambda>_. ()) (CallWsClose err); State_Monad.return (Inr (WS_closed err)) }
               | Inr _ \<Rightarrow> State_Monad.return (Inr WS_piped)
             }
         })
   }"


section \<open>Which calls are made\<close>

lemma client_Do_io [call_rules]:
  "P (CallHttp \<lparr>req_Method = m, req_URL = url, req_Header = h, req_Body = b\<rparr>) \<Longrightarrow> io_only P (client_Do w m url h b)"
  unfolding client_Do_def Let_def by (auto intro: call_rules split: sum.split)

lemma probe_io [call_rules]:
  "(\<And>q. req_Method q = ''GET'' \<Longrightarrow> P (CallHttp q)) \<Longrightarrow> io_only P (probe w backend)"
  unfolding probe_def by (intro call_rules) simp

text \<open>A refresh may change the program's own state, so only its calls are bounded.\<close>

lemma with_refresh_calls:
  assumes req: "\<And>t. (t = token \<or> (\<exists>f s. refresh = Some f \<and> fst (run_state f s) = Inr t)) \<Longrightarrow> calls_within P (do_request t)"
    and ref: "\<And>f. refresh = Some f \<Longrightarrow> calls_within P f"
  shows "calls_within P (with_refresh refresh token do_request)"
proof (cases refresh)
  case None
  then show ?thesis
    unfolding with_refresh_def None prod.case option.case using req[of token]
    by (auto intro!: call_rules split: sum.split)
next
  case (Some f)
  have again: "calls_within P (State_Monad.bind f (\<lambda>r. case r of
      Inl _ \<Rightarrow> State_Monad.return (token, Inr (closed_body resp))
    | Inr t \<Rightarrow> State_Monad.bind (do_request t) (\<lambda>again. State_Monad.return (t, again))))" for resp
    unfolding calls_within_def
  proof
    fix s
    obtain r s1 where 1: "run_state f s = (r, s1)" by fastforce
    obtain n1 where n1: "hist s1 = n1 @ hist s" "list_all P n1"
      using ref[OF Some] 1 by (rule calls_withinE)
    let ?k = "case r of Inl _ \<Rightarrow> State_Monad.return (token, Inr (closed_body resp))
        | Inr t \<Rightarrow> State_Monad.bind (do_request t) (\<lambda>again. State_Monad.return (t, again))"
    have "calls_within P ?k"
      using req 1 Some by (cases r) (auto intro!: call_rules, metis fst_conv)
    then obtain n2 where "hist (snd (run_state ?k s1)) = n2 @ hist s1" "list_all P n2"
      unfolding calls_within_def by blast
    then show "\<exists>new. hist (snd (run_state (State_Monad.bind f (\<lambda>r. case r of
        Inl _ \<Rightarrow> State_Monad.return (token, Inr (closed_body resp))
      | Inr t \<Rightarrow> State_Monad.bind (do_request t) (\<lambda>again. State_Monad.return (t, again)))) s)) =
        new @ hist s \<and> list_all P new"
      using 1 n1 by (intro exI[of _ "n2 @ n1"]) (simp split: sum.splits)
  qed
  show ?thesis
    unfolding with_refresh_def Some
    by (intro calls_within_bind req) (auto intro!: call_rules again split: sum.split)
qed

context docker_service
begin

lemma issueBackendToken_io:
  "(\<And>c. exec_call cid c \<Longrightarrow> P c) \<Longrightarrow> io_only P (issueBackendToken docker cid ws)"
  unfolding issueBackendToken_def Let_def
  by (intro call_rules io_only_mono[OF exec_law]) auto

lemma ReconcileContainer_io:
  assumes "\<And>c. exec_call (ctr_ID container) c \<Longrightarrow> P c" "P CallNow" "\<And>q. req_Method q = ''GET'' \<Longrightarrow> P (CallHttp q)"
  shows "io_only P (ReconcileContainer w docker container cfg base)"
  unfolding ReconcileContainer_def reconcile_ready_def Let_def
  by (intro call_rules issueBackendToken_io assms)

end

text \<open>
  What a reconciliation makes of the status of a container whose fresh status holds only the token
  \<open>token\<close>, in the moment of the history \<open>h\<close>: the backend is asked for its identifier in this
  moment (\<open>probed\<close>), and for a token right after it (\<open>issued\<close>). Without a successful probe the
  container has no environment; with one it has the identifier found or its own short one.
\<close>

definition no_environment :: "string \<Rightarrow> string \<Rightarrow> string \<Rightarrow> T3Status \<Rightarrow> bool" where
  "no_environment token status error t \<longleftrightarrow> t3_Status t = status \<and> t3_Error t = error \<and> t3_BackendToken t = token \<and>
     t3_EnvironmentID t = [] \<and> t3_HTTPBaseURL t = [] \<and> t3_WSBaseURL t = []"

definition has_environment :: "string \<Rightarrow> string \<Rightarrow> string \<Rightarrow> string \<Rightarrow> string \<Rightarrow> T3Status \<Rightarrow> bool" where
  "has_environment base token status error i t \<longleftrightarrow> t3_Status t = status \<and> t3_Error t = error \<and> t3_BackendToken t = token \<and>
     t3_EnvironmentID t = i \<and> t3_HTTPBaseURL t = TrimRightChar base CHR ''/'' @ ''/env/'' @ i @ ''/'' \<and>
     t3_WSBaseURL t = ReplaceFirst (t3_HTTPBaseURL t) ''http://'' ''ws://''"

definition t3_outcome :: "world \<Rightarrow> Container \<Rightarrow> Config \<Rightarrow> string \<Rightarrow> string \<Rightarrow> call list \<Rightarrow> T3Status \<Rightarrow> bool" where
  "t3_outcome w c cfg base token h t \<longleftrightarrow>
     (let probed = run_state (probe w (backend_url c cfg)) (\<lparr>hist = CallNow # h\<rparr> :: io_state);
          issued = fst (run_state (issueBackendToken (dockerx_client w) (ctr_ID c) (ctr_WorkspaceFolder c)) (snd probed));
          asked = t3_enabled c cfg \<and> ctr_Running c \<and> ctr_ContainerIP c \<noteq> []
      in t3_Enabled t = t3_enabled c cfg \<and> t3_BackendURL t = (if asked then backend_url c cfg else []) \<and>
         t3_LastProbe t = (if asked then w_Now w h else 0) \<and>
         (if \<not> t3_enabled c cfg then no_environment token ''disabled'' [] t
          else if \<not> ctr_Running c then no_environment token ''stopped'' [] t
          else if ctr_ContainerIP c = [] then no_environment token ''unreachable'' ''container has no IP address'' t
          else (case fst probed of
            Inl err \<Rightarrow> no_environment token ''not-ready'' err t
          | Inr found \<Rightarrow>
              let i = (if found = [] then ctr_ShortID c else found) in
              if token \<noteq> [] \<or> \<not> t3c_AutoIssueBackendToken (cfg_T3 cfg) then has_environment base token ''ready'' [] i t
              else (case issued of
                Inl err \<Rightarrow> has_environment base [] ''ready-no-token'' err i t
              | Inr new \<Rightarrow> has_environment base new ''ready'' [] i t))))"

lemma ctr_T3_set [simp]: "ctr_T3 (set_t3 c t) = t"
  by (simp add: set_t3_def)

text \<open>A probe and a command read nothing of the state but its history.\<close>

lemma client_Do_hist:
  "run_state (client_Do w m url hdr b) s = (r, s') \<Longrightarrow>
   run_state (client_Do w m url hdr b) (\<lparr>hist = hist s\<rparr> :: io_state) = (r, \<lparr>hist = hist s'\<rparr>)"
  by (auto simp: client_Do_def Let_def split: sum.splits)

lemma probe_hist:
  assumes "run_state (probe w b) s = (r, s')"
  shows "run_state (probe w b) (\<lparr>hist = hist s\<rparr> :: io_state) = (r, \<lparr>hist = hist s'\<rparr>)"
proof -
  obtain a s1 where 1: "run_state (client_Do w ''GET'' (b @ ''/.well-known/t3/environment'') [] []) s = (a, s1)" by fastforce
  then show ?thesis using assms client_Do_hist[OF 1] by (auto simp: probe_def)
qed

lemma Exec_hist:
  "fst (run_state (Exec w cid cmd args) (\<lparr>hist = hist s\<rparr> :: io_state)) = fst (run_state (Exec w cid cmd args) s)"
  by (auto simp: Exec_def Let_def split: sum.split)

lemma issueBackendToken_fst:
  "fst (run_state (issueBackendToken (dockerx_client w) cid ws) s) =
   (case fst (run_state (Exec w cid [''env'', ''T3CODE_HOME='' @ (if ws = [] then ''/workspace'' else ws), ''t3'', ''auth'',
       ''session'', ''issue'', ''--role'', ''owner'', ''--label'', ''gateway'', ''--token-only''] []) s) of
     (out, err) \<Rightarrow> (case err of Some e \<Rightarrow> Inl e | None \<Rightarrow> Inr (TrimSpace out)))"
  by (simp add: issueBackendToken_def Let_def dockerx_client_def split_beta)

lemma issueBackendToken_hist:
  "fst (run_state (issueBackendToken (dockerx_client w) cid ws) (\<lparr>hist = hist s\<rparr> :: io_state)) =
   fst (run_state (issueBackendToken (dockerx_client w) cid ws) s)"
  unfolding issueBackendToken_fst Exec_hist ..

lemma ReconcileContainer_result:
  assumes run: "run_state (ReconcileContainer w (dockerx_client w) c cfg base) s = (c', s')"
    and t: "ctr_T3 c = empty_t3\<lparr>t3_BackendToken := token\<rparr>"
  shows "c' = set_t3 c (ctr_T3 c') \<and> t3_outcome w c cfg base token (hist s) (ctr_T3 c')"
proof (cases "t3_enabled c cfg \<and> ctr_Running c \<and> ctr_ContainerIP c \<noteq> []")
  case False
  then consider "\<not> t3_enabled c cfg" | "t3_enabled c cfg" "\<not> ctr_Running c"
    | "t3_enabled c cfg" "ctr_Running c" "ctr_ContainerIP c = []" by blast
  then show ?thesis
    using run t by cases
      (auto simp: ReconcileContainer_def Let_def t3_outcome_def no_environment_def empty_t3_def)
next
  case True
  let ?url = "backend_url c cfg"
  obtain r s1 where 1: "run_state (probe w ?url) (s\<lparr>hist := CallNow # hist s\<rparr>) = (r, s1)" by fastforce
  have probed: "run_state (probe w ?url) (\<lparr>hist = CallNow # hist s\<rparr> :: io_state) = (r, \<lparr>hist = hist s1\<rparr>)"
    using probe_hist[OF 1] by simp
  show ?thesis
  proof (cases r)
    case (Inl err)
    then show ?thesis
      using run t True 1 probed
      by (auto simp: ReconcileContainer_def Let_def t3_outcome_def no_environment_def empty_t3_def)
  next
    case (Inr found)
    let ?issue = "issueBackendToken (dockerx_client w) (ctr_ID c) (ctr_WorkspaceFolder c)"
    obtain q s2 where 2: "run_state ?issue s1 = (q, s2)" by fastforce
    have issued: "fst (run_state ?issue (\<lparr>hist = hist s1\<rparr> :: io_state)) = q"
      using issueBackendToken_hist[of w "ctr_ID c" "ctr_WorkspaceFolder c" s1] 2 by simp
    have ready: "run_state (reconcile_ready (dockerx_client w) c cfg base ((ctr_T3 c)\<lparr>t3_Enabled := True,
        t3_BackendURL := ?url, t3_LastProbe := w_Now w (hist s)\<rparr>) found) s1 = (c', s')"
      using run True 1 Inr by (simp add: ReconcileContainer_def Let_def)
    show ?thesis
      using ready t True 2 unfolding t3_outcome_def Let_def probed fst_conv snd_conv issued Inr
      by (auto simp: reconcile_ready_def ready_status_def has_environment_def empty_t3_def env_base_url_def Let_def
          split: sum.splits if_splits)
  qed
qed

section \<open>The requests of a proxied request\<close>

definition is_http :: "call \<Rightarrow> bool" where
  "is_http c = (case c of CallHttp _ \<Rightarrow> True | _ \<Rightarrow> False)"

lemma is_http_simps [simp]: "is_http (CallHttp q)" "exec_call cid c \<Longrightarrow> \<not> is_http c"
  by (simp add: is_http_def, cases c) (simp_all add: is_http_def)

lemma is_httpE: "is_http c \<Longrightarrow> (\<And>q. c = CallHttp q \<Longrightarrow> thesis) \<Longrightarrow> thesis"
  by (cases c) (simp_all add: is_http_def)

text \<open>A request to the backend on behalf of \<open>r\<close>, with one of the tokens \<open>ts\<close> or with none.\<close>

definition forwarded :: "in_request \<Rightarrow> string set \<Rightarrow> http_request \<Rightarrow> bool" where
  "forwarded r ts q \<longleftrightarrow> req_Method q = in_Method r \<and> req_Body q = in_Body r \<and>
     header_Del (req_Header q) ''Authorization'' = header_Del (in_Header r) ''Authorization'' \<and>
     (map_of (req_Header q) ''Authorization'' = None \<or>
      (\<exists>t\<in>ts. map_of (req_Header q) ''Authorization'' = Some [''Bearer '' @ t]))"

lemma delete_update: "AList.delete k (AList.update k v xs) = AList.delete k xs"
  by (induction xs) auto

lemma forwarded_proxy:
  "t \<in> ts \<Longrightarrow> forwarded r ts \<lparr>req_Method = in_Method r, req_URL = u, req_Header = proxy_header r t, req_Body = in_Body r\<rparr>"
  by (simp add: forwarded_def proxy_header_def with_token_def header_Set_def header_Del_def delete_update
      delete_idem delete_conv' update_conv')

text \<open>The tokens a refresh can produce.\<close>

definition refreshed_tokens :: "('s, string res) state option \<Rightarrow> string set" where
  "refreshed_tokens refresh = {t. \<exists>f s. refresh = Some f \<and> fst (run_state f s) = Inr t}"

lemma proxyHTTP_calls:
  assumes "\<And>f. refresh = Some f \<Longrightarrow> calls_within P f"
    and "\<And>q. forwarded r (insert (t3_BackendToken status) (refreshed_tokens refresh)) q \<Longrightarrow> P (CallHttp q)"
  shows "calls_within P (proxyHTTP w r rest status refresh)"
proof (cases "w_url_Parse w (t3_BackendURL status)")
  case (Inr target)
  have "calls_within P (proxy_do w target r rest t)"
    if "t = t3_BackendToken status \<or> (\<exists>f s. refresh = Some f \<and> fst (run_state f s) = Inr t)" for t
    unfolding proxy_do_def
    by (rule io_only_calls, rule client_Do_io, rule assms(2), rule forwarded_proxy)
      (use that in \<open>auto simp: refreshed_tokens_def\<close>)
  then show ?thesis
    unfolding proxyHTTP_def Inr sum.case by (intro call_rules with_refresh_calls assms(1))
qed (simp add: proxyHTTP_def calls_within_return)

text \<open>What was sent to a backend, oldest first: method, URL and body of each request.\<close>

definition sent :: "call list \<Rightarrow> (string \<times> string \<times> string) list" where
  "sent cs = List.map_filter
     (\<lambda>c. case c of CallHttp q \<Rightarrow> Some (req_Method q, req_URL q, req_Body q) | _ \<Rightarrow> None) (rev cs)"

lemma map_filter_app: "List.map_filter f (xs @ ys) = List.map_filter f xs @ List.map_filter f ys"
  by (simp add: List.map_filter_def)

lemma sent_simps [simp]:
  "sent [] = []" "sent (a @ b) = sent b @ sent a"
  "sent (CallHttp q # cs) = sent cs @ [(req_Method q, req_URL q, req_Body q)]"
  by (simp_all add: sent_def map_filter_app List.map_filter_def)

lemma sent_none: "\<not> is_http c \<Longrightarrow> sent (c # cs) = sent cs"
  by (cases c) (simp_all add: sent_def is_http_def map_filter_app List.map_filter_def)

lemma sent_other: "list_all (\<lambda>c. \<not> is_http c) cs \<Longrightarrow> sent cs = []"
  by (induction cs) (simp_all add: sent_none)

lemma length_sent: "length (sent cs) = length (filter is_http cs)"
proof (induction cs)
  case (Cons c cs)
  then show ?case by (cases "is_http c") (auto simp: sent_none elim: is_httpE)
qed simp

text \<open>A request is sent once, unless its URL does not parse.\<close>

lemma client_Do_sent:
  assumes "run_state (client_Do w m url h b) s = (a, s')"
  shows "\<exists>n k. hist s' = n @ hist s \<and> sent n = replicate k (m, url, b) \<and> k \<le> 1 \<and> (\<not> isl a \<longrightarrow> k = 1)"
proof (cases "w_url_Parse w url")
  case (Inl e)
  then show ?thesis using assms by (intro exI[of _ "[]"] exI[of _ 0]) (auto simp: client_Do_def)
next
  case (Inr u)
  let ?q = "\<lparr>req_Method = m, req_URL = url, req_Header = h, req_Body = b\<rparr>"
  have "hist s' = [CallHttp ?q] @ hist s" using assms Inr by (auto simp: client_Do_def Let_def)
  then show ?thesis by (intro exI[of _ "[CallHttp ?q]"] exI[of _ 1]) simp
qed

text \<open>With a refresh it is sent at most twice.\<close>

lemma with_refresh_sent:
  assumes run: "run_state (with_refresh refresh token do_request) s = (a, s')"
    and once: "\<And>t s a s'. run_state (do_request t) s = (a, s') \<Longrightarrow>
      \<exists>n k. hist s' = n @ hist s \<and> sent n = replicate k x \<and> k \<le> 1 \<and> (\<not> isl a \<longrightarrow> k = 1)"
    and f: "\<And>f. refresh = Some f \<Longrightarrow> calls_within (\<lambda>c. \<not> is_http c) f"
  shows "\<exists>n k. hist s' = n @ hist s \<and> sent n = replicate k x \<and> k \<le> 2 \<and> (\<not> isl (snd a) \<longrightarrow> 1 \<le> k)"
proof -
  obtain y s1 where 1: "run_state (do_request token) s = (y, s1)" by fastforce
  obtain n1 k1 where n1: "hist s1 = n1 @ hist s" "sent n1 = replicate k1 x" "k1 \<le> 1" "\<not> isl y \<longrightarrow> k1 = 1"
    using once[OF 1] by blast
  show ?thesis
  proof (cases "\<exists>resp f. y = Inr resp \<and> refresh = Some f \<and> resp_StatusCode resp = 401")
    case False
    then have "s' = s1 \<and> snd a = y"
      using run 1 by (auto simp: with_refresh_def split: sum.splits option.splits if_splits)
    then show ?thesis using n1 by (intro exI[of _ n1] exI[of _ k1]) auto
  next
    case True
    then obtain resp f where y: "y = Inr resp" "refresh = Some f" "resp_StatusCode resp = 401" by blast
    obtain z s2 where 2: "run_state f s1 = (z, s2)" by fastforce
    obtain n2 where n2: "hist s2 = n2 @ hist s1" "list_all (\<lambda>c. \<not> is_http c) n2"
      using f[OF y(2)] 2 by (rule calls_withinE)
    note none = sent_other[OF n2(2)]
    show ?thesis
    proof (cases z)
      case (Inl e)
      then have "s' = s2" using run 1 2 y by (simp add: with_refresh_def)
      then show ?thesis using n1 n2 none y(1) by (intro exI[of _ "n2 @ n1"] exI[of _ k1]) simp
    next
      case (Inr t)
      obtain v s3 where 3: "run_state (do_request t) s2 = (v, s3)" by fastforce
      obtain n3 k3 where n3: "hist s3 = n3 @ hist s2" "sent n3 = replicate k3 x" "k3 \<le> 1"
        using once[OF 3] by blast
      have "s' = s3" using run 1 2 3 y Inr by (simp add: with_refresh_def)
      then show ?thesis
        using n1 n2 n3 none y(1)
        by (intro exI[of _ "n3 @ n2 @ n1"] exI[of _ "k1 + k3"]) (simp add: replicate_add)
    qed
  qed
qed

lemma backendJSON_sent:
  assumes run: "run_state (backendJSON w status refresh m rest input decode) s = ((status', r), s')"
    and f: "\<And>f. refresh = Some f \<Longrightarrow> calls_within (\<lambda>c. \<not> is_http c) f"
  shows "t3_BackendURL status' = t3_BackendURL status \<and>
    (\<exists>n k. hist s' = n @ hist s \<and> k \<le> 2 \<and> (\<not> isl r \<longrightarrow> 1 \<le> k) \<and>
      sent n = replicate k (m, TrimRightChar (t3_BackendURL status) CHR ''/'' @ rest,
        case input of None \<Rightarrow> [] | Some j \<Rightarrow> w_json_text w j))"
proof -
  let ?url = "TrimRightChar (t3_BackendURL status) CHR ''/'' @ rest"
  let ?body = "case input of None \<Rightarrow> [] | Some j \<Rightarrow> w_json_text w j"
  obtain token result s1 where 1: "run_state (with_refresh refresh (t3_BackendToken status)
      (backend_do w status m rest input)) s = ((token, result), s1)"
    by (metis prod.exhaust)
  have once: "\<exists>n k. hist s' = n @ hist s \<and> sent n = replicate k (m, ?url, ?body) \<and> k \<le> 1 \<and> (\<not> isl a \<longrightarrow> k = 1)"
    if "run_state (backend_do w status m rest input t) s = (a, s')" for t s a s'
    using client_Do_sent that unfolding backend_do_def by blast
  have "\<exists>n k. hist s1 = n @ hist s \<and> sent n = replicate k (m, ?url, ?body) \<and> k \<le> 2 \<and>
      (\<not> isl (snd (token, result)) \<longrightarrow> 1 \<le> k)"
    by (rule with_refresh_sent[OF 1]) (use once f in blast)+
  then obtain n k where n: "hist s1 = n @ hist s" "sent n = replicate k (m, ?url, ?body)" "k \<le> 2" "\<not> isl result \<longrightarrow> 1 \<le> k"
    by auto
  have "s' = s1" "status' = status\<lparr>t3_BackendToken := token\<rparr>" "\<not> isl r \<longrightarrow> \<not> isl result"
    using run 1 by (auto simp: backendJSON_def bind_res_def split: sum.splits)
  then show ?thesis using n by auto
qed

lemma issueBackendToken_calls:
  "calls_within (exec_call cid) (issueBackendToken (dockerx_client w) cid ws)"
  by (rule io_only_calls, rule dockerx.issueBackendToken_io)

lemma refresh_no_http: "calls_within (\<lambda>c. \<not> is_http c) (RefreshBackendToken (dockerx_client w) cid ws)"
  unfolding RefreshBackendToken_def by (rule calls_within_mono[OF issueBackendToken_calls]) simp

section \<open>Properties\<close>

definition ready_container :: Container where
  "ready_container = \<lparr>ctr_ID = ''0123456789abcdef'', ctr_ShortID = ''0123456789ab'', ctr_Name = ''vsc-x'', ctr_Image = [],
     ctr_Labels = Some [], ctr_Status = ''Up'', ctr_Running = True, ctr_LocalFolder = [], ctr_ConfigFile = [],
     ctr_WorkspaceFolder = ''/workspaces/x'', ctr_Metadata = None, ctr_ComposeService = [], ctr_ContainerUser = ''vscode'',
     ctr_ContainerHome = ''/home/vscode'', ctr_UserSource = [], ctr_RuleName = [], ctr_Rule = None, ctr_LastSeen = 0,
     ctr_ContainerIP = ''10.0.0.2'', ctr_T3 = empty_t3, ctr_Sync = empty_summary, ctr_DiscoveryReasons = [], ctr_Warnings = []\<rparr>"

text \<open>A backend that answers every request with the given status and body.\<close>

definition backend_world :: "nat \<Rightarrow> string \<Rightarrow> world" where
  "backend_world code body = offline_world\<lparr>w_url_Parse := \<lambda>_. Inr \<lparr>url_Scheme = ''http'', url_Host = ''10.0.0.2:3773'',
       url_Path = [], url_RawQuery = []\<rparr>,
     w_json_stream := \<lambda>_. Inr (JObj [(''id'', JStr ''env-1'')]),
     w_Http := \<lambda>_ _. Inr \<lparr>resp_StatusCode = code, resp_Status = Itoa (int code), resp_Header = [], resp_Body = body\<rparr>\<rparr>"

definition t3_ready :: T3Status where
  "t3_ready = empty_t3\<lparr>t3_EnvironmentID := ''env-1'', t3_BackendURL := ''http://10.0.0.2:3773'', t3_BackendToken := ''bt''\<rparr>"



text \<open>Claim C16. A browser's credentials stay here: every request a proxied request leads to has its method,
  its body and its other headers, but the Authorization header is replaced by the backend's own
  token (the one known, or one a refresh has just issued) or missing; nothing else is called but
  the command that refreshes the token.\<close>

theorem proxyHTTP_requests:
  "let refresh = Some (RefreshBackendToken (dockerx_client w) cid ws) in
   calls_within (\<lambda>c. exec_call cid c \<or> (case c of
       CallHttp q \<Rightarrow> forwarded r (insert (t3_BackendToken status) (refreshed_tokens refresh)) q
     | _ \<Rightarrow> False))
   (proxyHTTP w r rest status refresh)"
  unfolding Let_def
proof (rule proxyHTTP_calls)
  fix f :: "('a io_state_scheme, string res) state"
  assume "Some (RefreshBackendToken (dockerx_client w) cid ws) = Some f"
  then have f: "f = issueBackendToken (dockerx_client w) cid ws" by (simp add: RefreshBackendToken_def)
  show "calls_within (\<lambda>c. exec_call cid c \<or> (case c of
       CallHttp q \<Rightarrow> forwarded r (insert (t3_BackendToken status)
         (refreshed_tokens (Some (RefreshBackendToken (dockerx_client w) cid ws ::
           ('a io_state_scheme, string res) state)))) q
     | _ \<Rightarrow> False)) f"
    unfolding f by (rule calls_within_mono[OF issueBackendToken_calls]) simp
qed simp

text \<open>A proxied request leads to at most two requests to the backend, however it answers.\<close>

theorem proxyHTTP_bounded:
  "length (filter is_http (new_calls (hist s) (hist (snd (run_state
     (proxyHTTP w r rest status (Some (RefreshBackendToken (dockerx_client w) cid ws))) s))))) \<le> 2"
proof (cases "w_url_Parse w (t3_BackendURL status)")
  case (Inr target)
  let ?f = "Some (RefreshBackendToken (dockerx_client w) cid ws)"
  obtain a s' where run: "run_state (with_refresh ?f (t3_BackendToken status) (proxy_do w target r rest)) s = (a, s')"
    by fastforce
  have refresh: "calls_within (\<lambda>c. \<not> is_http c) f" if "?f = Some f" for f
    using that by (auto intro: refresh_no_http)
  let ?x = "(in_Method r, proxy_url w target r rest, in_Body r)"
  have "\<exists>n k. hist s' = n @ hist s \<and> sent n = replicate k ?x \<and> k \<le> 2 \<and> (\<not> isl (snd a) \<longrightarrow> 1 \<le> k)"
    by (rule with_refresh_sent[OF run]) (use refresh client_Do_sent in \<open>unfold proxy_do_def, blast\<close>)+
  then obtain n k where n: "hist s' = n @ hist s" "sent n = replicate k ?x" "k \<le> 2" by blast
  have "hist (snd (run_state (proxyHTTP w r rest status ?f) s)) = hist s'"
    using run Inr by (simp add: proxyHTTP_def split: prod.split)
  then show ?thesis using n length_sent[of n] by simp
qed (simp add: proxyHTTP_def)

text \<open>When a backend answers 401 and the refresh of its token fails, the 401 is relayed with its
  headers but without its body: the body was closed before the refresh was tried.\<close>

theorem failed_refresh_loses_body:
  assumes "w_url_Parse w (t3_BackendURL status) = Inr target"
    and "run_state (proxy_do w target r rest (t3_BackendToken status)) s = (Inr resp, s1)"
    and "resp_StatusCode resp = 401" and "run_state refresh s1 = (Inl err, s2)"
  shows "fst (run_state (proxyHTTP w r rest status (Some refresh)) s) = Relay 401 (copyHeader [] (resp_Header resp)) []"
  using assms by (simp add: proxyHTTP_def with_refresh_def closed_body_def)

theorem failed_refresh_loses_body_witness:
  "fst (run_state (proxyHTTP (backend_world 401 ''token expired'') plain_request ''/x'' t3_ready
     (Some (RefreshBackendToken (dockerx_client (backend_world 401 ''token expired'')) ''c1'' []))) \<lparr>hist = []\<rparr>) =
   Relay 401 [] []"
proof -
  let ?w = "backend_world 401 ''token expired''"
  let ?do = "run_state (proxy_do ?w \<lparr>url_Scheme = ''http'', url_Host = ''10.0.0.2:3773'', url_Path = [], url_RawQuery = []\<rparr>
    plain_request ''/x'' (t3_BackendToken t3_ready)) \<lparr>hist = []\<rparr>"
  have 1: "?do = (Inr \<lparr>resp_StatusCode = 401, resp_Status = Itoa (int 401), resp_Header = [],
      resp_Body = ''token expired''\<rparr>, snd ?do)"
    by (simp add: proxy_do_def client_Do_def backend_world_def Let_def)
  have 2: "run_state (RefreshBackendToken (dockerx_client ?w) ''c1'' []) (snd ?do) =
      (Inl ''offline'', snd (run_state (RefreshBackendToken (dockerx_client ?w) ''c1'' []) (snd ?do)))"
    by (simp add: RefreshBackendToken_def issueBackendToken_def dockerx_client_def Exec_def backend_world_def
        offline_world_def Let_def)
  have 0: "w_url_Parse ?w (t3_BackendURL t3_ready) =
      Inr \<lparr>url_Scheme = ''http'', url_Host = ''10.0.0.2:3773'', url_Path = [], url_RawQuery = []\<rparr>"
    by (simp add: backend_world_def)
  show ?thesis using failed_refresh_loses_body[OF 0 1 _ 2] by simp
qed

end
