(* ===== verification/Spawn.thy ===== *)
theory Spawn
  imports Proxy
begin

text \<open>
  The spawn stage of \<open>internal/t3/gateway.go\<close>: decoding and validating the request, writing
  the retain scope into the container, and opening a t3 thread through the backend's JSON API
  (snapshot, project, thread, first turn). The lemmas show what a valid request is, what the
  titles and the model selection look like, and that the backend sees the commands in order,
  only after the scope file has been written, and only for an authorized request.
\<close>

section \<open>Data\<close>

record RetainScope =
  rs_BankID :: string
  rs_Tags :: "string list option" \<comment> \<open>a nil or a non-nil slice\<close>

record SpawnStageRequest =
  sp_Agent :: string
  sp_RenderedPrompt :: string
  sp_WorkspacePath :: string
  sp_Scope :: RetainScope

record t3Project =
  pr_ID :: string
  pr_Title :: string
  pr_WorkspaceRoot :: string
  pr_DefaultModelSelection :: "json option" \<comment> \<open>a raw message: absent or a value\<close>

definition empty_scope :: RetainScope where
  "empty_scope = \<lparr>rs_BankID = [], rs_Tags = None\<rparr>"

definition empty_spawn :: SpawnStageRequest where
  "empty_spawn = \<lparr>sp_Agent = [], sp_RenderedPrompt = [], sp_WorkspacePath = [], sp_Scope = empty_scope\<rparr>"

definition empty_project :: t3Project where
  "empty_project = \<lparr>pr_ID = [], pr_Title = [], pr_WorkspaceRoot = [], pr_DefaultModelSelection = None\<rparr>"

section \<open>Decoding into structs\<close>

text \<open>
  \<open>encoding/json\<close> fills a struct member by member and goes on after an error, of which the
  first is returned. Member names are compared without regard to case (a Kelvin sign counts as
  a k and a long s as an s); \<open>null\<close> leaves a string alone. The text of an error is that of the
  library up to the quoting of names.
\<close>

type_synonym 'a dec = "'a \<times> string option"

definition save_error :: "string \<Rightarrow> 'a dec \<Rightarrow> 'a dec" where
  "save_error e d = (fst d, case snd d of None \<Rightarrow> Some e | Some e0 \<Rightarrow> Some e0)"

definition fold_name :: "string \<Rightarrow> string" where
  "fold_name k = ToUpper (ReplaceAll (ReplaceAll k [CHR 0xE2, CHR 0x84, CHR 0xAA] ''k'') [CHR 0xC5, CHR 0xBF] ''s'')"

definition same_name :: "string \<Rightarrow> string \<Rightarrow> bool" where
  "same_name k name \<longleftrightarrow> fold_name k = ToUpper name"

definition set_string :: "(string \<Rightarrow> 'a \<Rightarrow> 'a) \<Rightarrow> json \<Rightarrow> 'a dec \<Rightarrow> 'a dec" where
  "set_string upd v d = (case v of
     JStr s \<Rightarrow> (upd s (fst d), snd d)
   | JNull \<Rightarrow> d
   | _ \<Rightarrow> save_error (unmarshal_error v ''string'') d)"

definition decode_object :: "string \<Rightarrow> (string \<Rightarrow> json \<Rightarrow> 'a dec \<Rightarrow> 'a dec) \<Rightarrow> json \<Rightarrow> 'a dec \<Rightarrow> 'a dec" where
  "decode_object ty member v d = (case v of
     JObj kvs \<Rightarrow> foldl (\<lambda>d (k, x). member k x d) d kvs
   | JNull \<Rightarrow> d
   | _ \<Rightarrow> save_error (unmarshal_error v ty) d)"

definition unknown_field :: "string \<Rightarrow> string" where
  "unknown_field k = ''json: unknown field '' @ [CHR 0x22] @ k @ [CHR 0x22]"

text \<open>An array of strings; \<open>old\<close> are the elements an earlier value of the same member left.\<close>

fun decode_tags :: "string list \<Rightarrow> json list \<Rightarrow> string list dec" where
  "decode_tags old [] = ([], None)"
| "decode_tags old (x # xs) =
     (let kept = (case old of [] \<Rightarrow> [] | o1 # _ \<Rightarrow> o1);
          (t, e) = set_string (\<lambda>s _. s) x (kept, None);
          (ts, es) = decode_tags (tl old) xs
      in (t # ts, case e of None \<Rightarrow> es | Some e \<Rightarrow> Some e))"

definition scope_member :: "string \<Rightarrow> json \<Rightarrow> RetainScope dec \<Rightarrow> RetainScope dec" where
  "scope_member k v d =
     (if same_name k ''bankId'' then set_string (\<lambda>s a. a\<lparr>rs_BankID := s\<rparr>) v d
      else if same_name k ''tags'' then (case v of
          JArr xs \<Rightarrow> (let (ts, e) = decode_tags (case rs_Tags (fst d) of None \<Rightarrow> [] | Some old \<Rightarrow> old) xs in
            (case e of None \<Rightarrow> ((fst d)\<lparr>rs_Tags := Some ts\<rparr>, snd d)
             | Some e \<Rightarrow> save_error e ((fst d)\<lparr>rs_Tags := Some ts\<rparr>, snd d)))
        | JNull \<Rightarrow> ((fst d)\<lparr>rs_Tags := None\<rparr>, snd d)
        | _ \<Rightarrow> save_error (unmarshal_error v ''[]string'') d)
      else save_error (unknown_field k) d)"

definition spawn_member :: "string \<Rightarrow> json \<Rightarrow> SpawnStageRequest dec \<Rightarrow> SpawnStageRequest dec" where
  "spawn_member k v d =
     (if same_name k ''agent'' then set_string (\<lambda>s a. a\<lparr>sp_Agent := s\<rparr>) v d
      else if same_name k ''renderedPrompt'' then set_string (\<lambda>s a. a\<lparr>sp_RenderedPrompt := s\<rparr>) v d
      else if same_name k ''workspacePath'' then set_string (\<lambda>s a. a\<lparr>sp_WorkspacePath := s\<rparr>) v d
      else if same_name k ''scope'' then
        (let (scope, e) = decode_object ''t3.RetainScope'' scope_member v (sp_Scope (fst d), snd d)
         in ((fst d)\<lparr>sp_Scope := scope\<rparr>, e))
      else save_error (unknown_field k) d)"

definition decoded :: "'a dec \<Rightarrow> 'a res" where
  "decoded d = (case snd d of None \<Rightarrow> Inr (fst d) | Some e \<Rightarrow> Inl e)"

definition decode_spawn :: "json res \<Rightarrow> SpawnStageRequest res" where
  "decode_spawn r = bind_res r (\<lambda>j.
     decoded (decode_object ''t3.SpawnStageRequest'' spawn_member j (empty_spawn, None)))"

definition project_member :: "string \<Rightarrow> json \<Rightarrow> t3Project dec \<Rightarrow> t3Project dec" where
  "project_member k v d =
     (if same_name k ''id'' then set_string (\<lambda>s a. a\<lparr>pr_ID := s\<rparr>) v d
      else if same_name k ''title'' then set_string (\<lambda>s a. a\<lparr>pr_Title := s\<rparr>) v d
      else if same_name k ''workspaceRoot'' then set_string (\<lambda>s a. a\<lparr>pr_WorkspaceRoot := s\<rparr>) v d
      else if same_name k ''defaultModelSelection'' then ((fst d)\<lparr>pr_DefaultModelSelection := Some v\<rparr>, snd d)
      else d)"

fun decode_projects :: "json list \<Rightarrow> t3Project list dec" where
  "decode_projects [] = ([], None)"
| "decode_projects (x # xs) =
     (let (p, e) = decode_object ''t3.t3Project'' project_member x (empty_project, None);
          (ps, es) = decode_projects xs
      in (p # ps, case e of None \<Rightarrow> es | Some e \<Rightarrow> Some e))"

definition snapshot_member :: "string \<Rightarrow> json \<Rightarrow> t3Project list dec \<Rightarrow> t3Project list dec" where
  "snapshot_member k v d =
     (if same_name k ''projects'' then (case v of
          JArr xs \<Rightarrow> (let (ps, e) = decode_projects xs in
            (case e of None \<Rightarrow> (ps, snd d) | Some e \<Rightarrow> save_error e (ps, snd d)))
        | JNull \<Rightarrow> ([], snd d)
        | _ \<Rightarrow> save_error (unmarshal_error v ''[]t3.t3Project'') d)
      else d)"

definition decode_snapshot :: "json res \<Rightarrow> t3Project list res" where
  "decode_snapshot r = bind_res r (\<lambda>j.
     decoded (decode_object ''t3.orchestrationSnapshot'' snapshot_member j ([], None)))"

section \<open>Validation, titles, model selection\<close>

definition validateSpawnRequest :: "SpawnStageRequest \<Rightarrow> string option" where
  "validateSpawnRequest req =
     (if sp_Agent req \<notin> {''codex'', ''claude'', ''opencode''} then Some ''agent must be codex, claude, or opencode''
      else if TrimSpace (sp_RenderedPrompt req) = [] then Some ''renderedPrompt is required''
      else if sp_WorkspacePath req = [] \<or> \<not> filepath_IsAbs (sp_WorkspacePath req)
      then Some ''workspacePath must be an absolute container path''
      else if TrimSpace (rs_BankID (sp_Scope req)) = [] then Some ''scope.bankId is required''
      else None)"

definition providerInstanceID :: "string \<Rightarrow> string" where
  "providerInstanceID agent = (if agent = ''claude'' then ''claudeAgent'' else agent)"

definition defaultModel :: "string \<Rightarrow> string" where
  "defaultModel agent =
     (if agent = ''claude'' then ''claude-sonnet-4-6''
      else if agent = ''opencode'' then ''openai/gpt-5''
      else ''gpt-5.4'')"

text \<open>A selection read into a \<open>map[string]any\<close>: of equal keys the last counts.\<close>

definition modelSelectionFor :: "string \<Rightarrow> json option \<Rightarrow> json" where
  "modelSelectionFor agent existing =
     (let instanceID = providerInstanceID agent;
          fresh = JObj [(''instanceId'', JStr instanceID), (''model'', JStr (defaultModel agent))] in
      case existing of
        None \<Rightarrow> fresh
      | Some j \<Rightarrow> (case decode_map (Inr j) of
          Inl _ \<Rightarrow> fresh
        | Inr selection \<Rightarrow>
            if map_of selection ''instanceId'' = Some (JStr instanceID) then JObj (AList.clearjunk selection) else fresh))"

fun projectForWorkspace :: "t3Project list \<Rightarrow> string \<Rightarrow> t3Project option" where
  "projectForWorkspace [] workspace = None"
| "projectForWorkspace (p # ps) workspace =
     (if filepath_Clean (pr_WorkspaceRoot p) = filepath_Clean workspace then Some p
      else projectForWorkspace ps workspace)"

definition projectTitle :: "string \<Rightarrow> string" where
  "projectTitle workspace =
     (let base = filepath_Base (filepath_Clean workspace) in
      if base = ''.'' \<or> base = ''/'' \<or> base = [] then ''Workspace'' else base)"

definition newline :: char where "newline = CHR 0x0A"

definition threadTitle :: "string \<Rightarrow> string" where
  "threadTitle prompt =
     (let title = TrimSpace (hd (Split (ReplaceAll prompt [CHR 0x0D, newline] [newline]) newline)) in
      if title = [] then ''Spawned stage''
      else if length title > 80 then TrimSpace (take 80 title) else title)"

section \<open>Opening a thread\<close>

definition project_create :: "string \<Rightarrow> t3Project \<Rightarrow> json \<Rightarrow> string \<Rightarrow> json" where
  "project_create commandId project modelSelection now = JObj [
     (''type'', JStr ''project.create''), (''commandId'', JStr commandId), (''projectId'', JStr (pr_ID project)),
     (''title'', JStr (pr_Title project)), (''workspaceRoot'', JStr (pr_WorkspaceRoot project)),
     (''defaultModelSelection'', modelSelection), (''createdAt'', JStr now)]"

definition thread_create :: "string \<Rightarrow> string \<Rightarrow> t3Project \<Rightarrow> string \<Rightarrow> json \<Rightarrow> string \<Rightarrow> json" where
  "thread_create commandId threadID project title modelSelection now = JObj [
     (''type'', JStr ''thread.create''), (''commandId'', JStr commandId), (''threadId'', JStr threadID),
     (''projectId'', JStr (pr_ID project)), (''title'', JStr title), (''modelSelection'', modelSelection),
     (''runtimeMode'', JStr ''full-access''), (''interactionMode'', JStr ''default''),
     (''branch'', JNull), (''worktreePath'', JNull), (''createdAt'', JStr now)]"

definition turn_start :: "string \<Rightarrow> string \<Rightarrow> string \<Rightarrow> string \<Rightarrow> string \<Rightarrow> json \<Rightarrow> string \<Rightarrow> json" where
  "turn_start commandId threadID messageId prompt title modelSelection now = JObj [
     (''type'', JStr ''thread.turn.start''), (''commandId'', JStr commandId), (''threadId'', JStr threadID),
     (''message'', JObj [(''messageId'', JStr messageId), (''role'', JStr ''user''), (''text'', JStr prompt),
                         (''attachments'', JArr [])]),
     (''modelSelection'', modelSelection), (''titleSeed'', JStr title),
     (''runtimeMode'', JStr ''full-access''), (''interactionMode'', JStr ''default''), (''createdAt'', JStr now)]"

definition dcm_id :: "world \<Rightarrow> string \<Rightarrow> ('z io_state_scheme, string) state" where
  "dcm_id w kind = do { t \<leftarrow> randomToken w 12; State_Monad.return (kind @ t) }"

definition selection_for :: "string \<Rightarrow> t3Project option \<Rightarrow> json" where
  "selection_for agent project =
     (case project of
        Some p \<Rightarrow> (case pr_DefaultModelSelection p of
            Some j \<Rightarrow> if j \<noteq> JNull then modelSelectionFor agent (Some j) else modelSelectionFor agent None
          | None \<Rightarrow> modelSelectionFor agent None)
      | None \<Rightarrow> modelSelectionFor agent None)"

text \<open>The project to use: the one found, or one that is created first.\<close>

definition ensure_project :: "world \<Rightarrow> T3Status \<Rightarrow> ('z io_state_scheme, string res) state option \<Rightarrow> SpawnStageRequest \<Rightarrow>
    t3Project option \<Rightarrow> json \<Rightarrow> string \<Rightarrow> ('z io_state_scheme, T3Status \<times> t3Project res) state" where
  "ensure_project w status refreshToken req found modelSelection now =
     (case found of
        Some p \<Rightarrow> State_Monad.return (status, Inr p)
      | None \<Rightarrow> do {
          projectID \<leftarrow> dcm_id w ''dcm-project-'';
          let project = \<lparr>pr_ID = projectID, pr_Title = projectTitle (sp_WorkspacePath req),
                         pr_WorkspaceRoot = sp_WorkspacePath req, pr_DefaultModelSelection = None\<rparr>;
          commandId \<leftarrow> dcm_id w ''dcm-command-'';
          (status, err) \<leftarrow> dispatch w status refreshToken (project_create commandId project modelSelection now);
          State_Monad.return (status, case err of Some e \<Rightarrow> Inl e | None \<Rightarrow> Inr project)
        })"

definition start_thread :: "world \<Rightarrow> T3Status \<Rightarrow> ('z io_state_scheme, string res) state option \<Rightarrow> SpawnStageRequest \<Rightarrow>
    t3Project \<Rightarrow> json \<Rightarrow> string \<Rightarrow> ('z io_state_scheme, string res) state" where
  "start_thread w status refreshToken req project modelSelection now = do {
     threadID \<leftarrow> dcm_id w ''dcm-thread-'';
     let title = threadTitle (sp_RenderedPrompt req);
     commandId \<leftarrow> dcm_id w ''dcm-command-'';
     (status, err) \<leftarrow> dispatch w status refreshToken (thread_create commandId threadID project title modelSelection now);
     case err of
       Some e \<Rightarrow> State_Monad.return (Inl e)
     | None \<Rightarrow> do {
         commandId \<leftarrow> dcm_id w ''dcm-command-'';
         messageId \<leftarrow> dcm_id w ''dcm-message-'';
         (status, err) \<leftarrow> dispatch w status refreshToken
           (turn_start commandId threadID messageId (sp_RenderedPrompt req) title modelSelection now);
         State_Monad.return (case err of Some e \<Rightarrow> Inl e | None \<Rightarrow> Inr threadID)
       }
   }"

definition openStageThread :: "world \<Rightarrow> T3Status \<Rightarrow> ('z io_state_scheme, string res) state option \<Rightarrow> SpawnStageRequest \<Rightarrow>
    ('z io_state_scheme, string res) state" where
  "openStageThread w status refreshToken req = do {
     (status, snapshot) \<leftarrow> backendJSON w status refreshToken ''GET'' ''/api/orchestration/snapshot'' None decode_snapshot;
     case snapshot of
       Inl err \<Rightarrow> State_Monad.return (Inl err)
     | Inr projects \<Rightarrow> do {
         let found = projectForWorkspace projects (sp_WorkspacePath req);
         let modelSelection = selection_for (sp_Agent req) found;
         t \<leftarrow> time_Now w;
         let now = w_FormatTime w t;
         (status, project) \<leftarrow> ensure_project w status refreshToken req found modelSelection now;
         case project of
           Inl err \<Rightarrow> State_Monad.return (Inl err)
         | Inr p \<Rightarrow> start_thread w status refreshToken req p modelSelection now
       }
   }"

section \<open>The handler\<close>

definition unauthorized :: reply where
  "unauthorized = Error_reply 401 ''missing or invalid environment token''"

definition scope_json :: "RetainScope \<Rightarrow> json" where
  "scope_json scope = JObj [(''bankId'', JStr (rs_BankID scope)),
     (''tags'', case rs_Tags scope of None \<Rightarrow> JNull | Some ts \<Rightarrow> JArr (map JStr ts))]"

definition scope_target :: "string \<Rightarrow> string" where
  "scope_target workspace = filepath_Join [workspace, ''.hindsight'', ''active-retain-scope.json'']"

definition scope_script :: string where
  "scope_script = ''mkdir -p \"$(dirname \"$1\")\" && cat > \"$1.tmp\" && mv \"$1.tmp\" \"$1\"''"

definition write_scope :: "('z io_state_scheme) docker_client \<Rightarrow> world \<Rightarrow> Container \<Rightarrow> SpawnStageRequest \<Rightarrow>
    ('z io_state_scheme, string option) state" where
  "write_scope docker w container req =
     dc_ExecWithStdin docker (ctr_ID container)
       [''sh'', ''-c'', scope_script, ''--'', scope_target (sp_WorkspacePath req)]
       (firstNonEmpty [ctr_ContainerUser container, ''vscode''])
       (w_json_text w (scope_json (sp_Scope req)) @ [newline])"

text \<open>The part after the request was accepted: write the scope, then open the thread.\<close>

definition run_stage :: "world \<Rightarrow> ('z io_state_scheme) docker_client \<Rightarrow> Container \<Rightarrow>
    ('z io_state_scheme, string res) state option \<Rightarrow> SpawnStageRequest \<Rightarrow> ('z io_state_scheme, reply) state" where
  "run_stage w docker container refreshToken req = do {
     failed \<leftarrow> write_scope docker w container req;
     case failed of
       Some e \<Rightarrow> State_Monad.return (Error_reply 502 (''failed to write retain scope: '' @ e))
     | None \<Rightarrow> do {
         opened \<leftarrow> openStageThread w (ctr_T3 container) refreshToken req;
         State_Monad.return (case opened of
           Inl e \<Rightarrow> Error_reply 502 (''failed to open t3 session: '' @ e)
         | Inr threadID \<Rightarrow> JSON_reply 200 (JObj [(''threadId'', JStr threadID)]))
       }
   }"

definition ServeSpawnStage :: "world \<Rightarrow> ('z gw_state_scheme) token_store option \<Rightarrow> ('z gw_state_scheme) docker_client \<Rightarrow>
    in_request \<Rightarrow> Container \<Rightarrow> ('z gw_state_scheme, string res) state option \<Rightarrow> ('z gw_state_scheme, reply) state" where
  "ServeSpawnStage w tokenStore docker r container refreshToken =
     (if in_Method r \<noteq> ''POST'' then State_Monad.return (Error_reply 405 ''method not allowed'')
      else do {
        ok \<leftarrow> authorizedWithStore w tokenStore r (t3_EnvironmentID (ctr_T3 container))
                (firstNonEmpty [ctr_ID container, t3_EnvironmentID (ctr_T3 container)]);
        if \<not> ok then State_Monad.return unauthorized
        else (case decode_spawn (w_json_stream w (take json_limit (in_Body r))) of
          Inl err \<Rightarrow> State_Monad.return (Error_reply 400 (''invalid spawn request: '' @ err))
        | Inr req \<Rightarrow> (case validateSpawnRequest req of
            Some err \<Rightarrow> State_Monad.return (Error_reply 400 err)
          | None \<Rightarrow> run_stage w docker container refreshToken req))
      })"


section \<open>Titles and selections\<close>

lemma threadTitle_length: "length (threadTitle prompt) \<le> 80"
proof -
  have "length (TrimSpace (take 80 t)) \<le> 80" for t :: string
    using TrimSpace_length[of "take 80 t"] by simp
  then show ?thesis by (simp add: threadTitle_def Let_def)
qed

lemma threadTitle_nonempty: "threadTitle prompt \<noteq> []"
proof -
  have "TrimSpace (take 80 (TrimSpace t)) \<noteq> []" if "TrimSpace t \<noteq> []" for t
    using that by (intro TrimSpace_nonempty no_trim_prefix[OF TrimSpace_no_trim(1) take_is_prefix]) auto
  then show ?thesis by (auto simp: threadTitle_def Let_def)
qed

lemma threadTitle_one_line: "newline \<notin> set (threadTitle prompt)"
proof -
  let ?line = "hd (Split (ReplaceAll prompt [CHR 0x0D, newline] [newline]) newline)"
  have "newline \<notin> set ?line" by (auto simp: hd_Split dest: set_takeWhileD)
  then have t: "newline \<notin> set (TrimSpace ?line)" using TrimSpace_set by blast
  then have "newline \<notin> set (TrimSpace (take 80 (TrimSpace ?line)))"
    using TrimSpace_set set_take_subset by (metis subsetD)
  then show ?thesis using t unfolding threadTitle_def Let_def by (simp add: newline_def)
qed

lemma clean_elems_append: "list_all proper ys \<Longrightarrow> clean_elems r st (xs @ ys) = clean_elems r st xs @ ys"
  by (induction r st xs rule: clean_elems.induct) (auto simp: clean_elems_proper)

lemma projectForWorkspace_root:
  "projectForWorkspace ps ws = Some p \<Longrightarrow> p \<in> set ps \<and> filepath_Clean (pr_WorkspaceRoot p) = filepath_Clean ws"
  by (induction ps) (auto split: if_splits)

section \<open>What the backend sees\<close>

definition snapshot_request :: "string \<Rightarrow> string \<times> string \<times> string" where
  "snapshot_request base = (''GET'', base @ ''/api/orchestration/snapshot'', [])"

definition command_request :: "world \<Rightarrow> string \<Rightarrow> json \<Rightarrow> string \<times> string \<times> string" where
  "command_request w base command = (''POST'', base @ ''/api/orchestration/dispatch'', w_json_text w command)"

definition backend_base :: "T3Status \<Rightarrow> string" where
  "backend_base status = TrimRightChar (t3_BackendURL status) CHR ''/''"

text \<open>
  A command is dispatched once, or twice when the backend's token had to be refreshed; a
  dispatch that is not attempted at all, or fails, is an error.
\<close>

definition quiet_refresh :: "('z io_state_scheme, string res) state option \<Rightarrow> bool" where
  "quiet_refresh refresh \<longleftrightarrow> (\<forall>f. refresh = Some f \<longrightarrow> calls_within (\<lambda>c. \<not> is_http c) f)"

lemma backendJSON_runE:
  assumes run: "run_state (backendJSON w status refresh m rest input decode) s = ((status', r), s')"
    and f: "quiet_refresh refresh"
  obtains n k where "hist s' = n @ hist s" "k \<le> 2" "\<not> isl r \<longrightarrow> 1 \<le> k" "backend_base status' = backend_base status"
    "sent n = replicate k (m, backend_base status @ rest, case input of None \<Rightarrow> [] | Some j \<Rightarrow> w_json_text w j)"
  using backendJSON_sent[OF run] f unfolding quiet_refresh_def backend_base_def by auto

lemma dispatch_runE:
  assumes run: "run_state (dispatch w status refresh command) s = ((status', err), s')" and f: "quiet_refresh refresh"
  obtains n k where "hist s' = n @ hist s" "k \<le> 2" "err = None \<longrightarrow> 1 \<le> k" "backend_base status' = backend_base status"
    "sent n = replicate k (command_request w (backend_base status) command)"
proof -
  obtain st r s1 where 1: "run_state (backendJSON w status refresh ''POST'' ''/api/orchestration/dispatch'' (Some command)
      decode_map) s = ((st, r), s1)" by (metis prod.exhaust)
  then have "s1 = s'" "st = status'" "err = (case r of Inl err \<Rightarrow> Some err | Inr _ \<Rightarrow> None)"
    using run by (simp_all add: dispatch_def)
  moreover have "isl r = (err \<noteq> None)" using calculation by (cases r) simp_all
  moreover obtain n k where "hist s1 = n @ hist s" "k \<le> 2" "\<not> isl r \<longrightarrow> 1 \<le> k" "backend_base st = backend_base status"
    "sent n = replicate k (command_request w (backend_base status) command)"
    using backendJSON_runE[OF 1 f] unfolding command_request_def option.case by blast
  ultimately show thesis using that by simp
qed

lemma dcm_id_run:
  "\<exists>x. run_state (dcm_id w kind) s = (x, s\<lparr>hist := CallRand 12 # hist s\<rparr>)"
  by (simp add: dcm_id_def randomToken_def)

lemma sent_rand [simp]: "sent (CallRand n # cs) = sent cs" "sent (CallNow # cs) = sent cs"
  by (simp_all add: sent_none is_http_def)

text \<open>The commands of a new thread, each one or (refreshed) two times, in this order.\<close>

definition thread_commands :: "world \<Rightarrow> string \<Rightarrow> SpawnStageRequest \<Rightarrow> t3Project \<Rightarrow> json \<Rightarrow> string \<Rightarrow> string \<Rightarrow>
    (string \<times> string \<times> string) list \<Rightarrow> bool" where
  "thread_commands w base req project selection now tid xs \<longleftrightarrow>
     (\<exists>c1 c2 mid k1 k2. k1 \<in> {1, 2} \<and> k2 \<in> {1, 2} \<and> xs =
        replicate k1 (command_request w base (thread_create c1 tid project (threadTitle (sp_RenderedPrompt req)) selection now)) @
        replicate k2 (command_request w base (turn_start c2 tid mid (sp_RenderedPrompt req)
          (threadTitle (sp_RenderedPrompt req)) selection now)))"

lemma start_thread_sent:
  assumes run: "run_state (start_thread w status refresh req p selection now) s = (Inr tid, s')" and f: "quiet_refresh refresh"
  obtains n where "hist s' = n @ hist s" "thread_commands w (backend_base status) req p selection now tid (sent n)"
proof -
  let ?s1 = "s\<lparr>hist := CallRand 12 # CallRand 12 # hist s\<rparr>"
  let ?title = "threadTitle (sp_RenderedPrompt req)"
  obtain t where t: "run_state (dcm_id w ''dcm-thread-'') s = (t, s\<lparr>hist := CallRand 12 # hist s\<rparr>)"
    using dcm_id_run by blast
  obtain c1 where c1: "run_state (dcm_id w ''dcm-command-'') (s\<lparr>hist := CallRand 12 # hist s\<rparr>) = (c1, ?s1)"
    using dcm_id_run[of w "''dcm-command-''" "s\<lparr>hist := CallRand 12 # hist s\<rparr>"] by auto
  obtain st2 e2 s2 where 2: "run_state (dispatch w status refresh (thread_create c1 t p ?title selection now)) ?s1 = ((st2, e2), s2)"
    by (metis prod.exhaust)
  then have e2: "e2 = None" using run t c1 by (auto simp: start_thread_def Let_def split: option.splits)
  obtain c2 where c2: "run_state (dcm_id w ''dcm-command-'') s2 = (c2, s2\<lparr>hist := CallRand 12 # hist s2\<rparr>)"
    using dcm_id_run by blast
  let ?s3 = "s2\<lparr>hist := CallRand 12 # CallRand 12 # hist s2\<rparr>"
  obtain mid where mid: "run_state (dcm_id w ''dcm-message-'') (s2\<lparr>hist := CallRand 12 # hist s2\<rparr>) = (mid, ?s3)"
    using dcm_id_run[of w "''dcm-message-''" "s2\<lparr>hist := CallRand 12 # hist s2\<rparr>"] by auto
  obtain st4 e4 s4 where 4: "run_state (dispatch w st2 refresh (turn_start c2 t mid (sp_RenderedPrompt req) ?title selection now)) ?s3
      = ((st4, e4), s4)" by (metis prod.exhaust)
  have fin: "s' = s4" "e4 = None" "tid = t"
    using run t c1 2 e2 c2 mid 4 by (auto simp: start_thread_def Let_def split: option.splits)
  obtain n1 k1 where n1: "hist s2 = n1 @ hist ?s1" "k1 \<le> 2" "1 \<le> k1" "backend_base st2 = backend_base status"
    "sent n1 = replicate k1 (command_request w (backend_base status) (thread_create c1 t p ?title selection now))"
    using dispatch_runE[OF 2 f] e2 by metis
  obtain n2 k2 where n2: "hist s4 = n2 @ hist ?s3" "k2 \<le> 2" "1 \<le> k2"
    "sent n2 = replicate k2 (command_request w (backend_base st2) (turn_start c2 t mid (sp_RenderedPrompt req) ?title selection now))"
    using dispatch_runE[OF 4 f] fin(2) by metis
  have k: "k1 \<in> {1, 2}" "k2 \<in> {1, 2}" using n1 n2 by auto
  show thesis
  proof (rule that)
    show "hist s' = (n2 @ [CallRand 12, CallRand 12] @ n1 @ [CallRand 12, CallRand 12]) @ hist s"
      using n1 n2 fin by simp
    show "thread_commands w (backend_base status) req p selection now tid
        (sent (n2 @ [CallRand 12, CallRand 12] @ n1 @ [CallRand 12, CallRand 12]))"
      using n1 n2 fin k unfolding thread_commands_def
      by (intro exI[of _ c1] exI[of _ c2] exI[of _ mid] exI[of _ k1] exI[of _ k2]) simp
  qed
qed

text \<open>A request was answered with a response in the course of a run with the history \<open>hs\<close>.\<close>

definition answered :: "world \<Rightarrow> call list \<Rightarrow> string \<times> string \<times> string \<Rightarrow> http_response \<Rightarrow> bool" where
  "answered w hs x resp \<longleftrightarrow> (\<exists>h q. suffix (CallHttp q # h) hs \<and> (req_Method q, req_URL q, req_Body q) = x \<and>
     w_Http w h q = Inr resp)"

lemma answered_later: "answered w hs x resp \<Longrightarrow> answered w (new @ hs) x resp"
  unfolding answered_def by (elim exE conjE) (intro exI conjI suffix_appendI; assumption)

lemma client_Do_answered:
  assumes "run_state (client_Do w m url hdr body) s = (Inr resp, s')"
  shows "answered w (hist s') (m, url, body) resp"
  using assms by (auto simp: client_Do_def Let_def answered_def split: sum.splits)
    (metis http_request.select_convs(1,2,4) suffix_order.order_refl)

lemma with_refresh_answered:
  assumes run: "run_state (with_refresh refresh token do_request) s = ((token', Inr resp), s')"
    and ok: "success (resp_StatusCode resp)"
    and answers: "\<And>t s resp s'. run_state (do_request t) s = (Inr resp, s') \<Longrightarrow> answered w (hist s') x resp"
  shows "answered w (hist s') x resp"
proof -
  obtain first s1 where 1: "run_state (do_request token) s = (first, s1)" by fastforce
  have "first = Inr resp \<and> s' = s1 \<or> (\<exists>t s2. run_state (do_request t) s2 = (Inr resp, s'))"
    using run 1 ok by (fastforce simp: with_refresh_def closed_body_def success_def split: sum.splits option.splits if_splits prod.splits)
  then show ?thesis using answers 1 by blast
qed

lemma backendJSON_answered:
  assumes run: "run_state (backendJSON w status refresh m rest input decode) s = ((status', Inr out), s')"
  shows "\<exists>resp. answered w (hist s') (m, backend_base status @ rest, case input of None \<Rightarrow> [] | Some j \<Rightarrow> w_json_text w j) resp \<and>
    success (resp_StatusCode resp) \<and> decode (read_body w resp) = Inr out"
proof -
  obtain token result s1 where 1: "run_state (with_refresh refresh (t3_BackendToken status)
      (backend_do w status m rest input)) s = ((token, result), s1)" by (metis prod.exhaust)
  then obtain resp where resp: "result = Inr resp" "s1 = s'" "success (resp_StatusCode resp)" "decode (read_body w resp) = Inr out"
    using run by (auto simp: backendJSON_def bind_res_def split: sum.splits if_splits)
  have "answered w (hist s') (m, backend_base status @ rest, case input of None \<Rightarrow> [] | Some j \<Rightarrow> w_json_text w j) resp"
    by (rule with_refresh_answered[OF 1[unfolded resp(1,2)] resp(3)])
      (simp add: backend_do_def backend_base_def client_Do_answered)
  with resp show ?thesis by blast
qed

text \<open>
  The whole exchange, given the projects of the snapshot: the snapshot is asked for; when no project has
  the workspace as its root, one with it is created, otherwise the first such project is used and
  none is created; the thread in that project and its first turn follow.
\<close>

definition project_at :: "string \<Rightarrow> t3Project list \<Rightarrow> t3Project option" where
  "project_at workspace ps = List.find (\<lambda>p. filepath_Clean (pr_WorkspaceRoot p) = filepath_Clean workspace) ps"

definition stage_commands :: "world \<Rightarrow> string \<Rightarrow> SpawnStageRequest \<Rightarrow> t3Project list \<Rightarrow> string \<Rightarrow>
    (string \<times> string \<times> string) list \<Rightarrow> bool" where
  "stage_commands w base req projects tid xs \<longleftrightarrow>
     (\<exists>project now k0 c0 k1 rest.
        let found = project_at (sp_WorkspacePath req) projects;
            selection = selection_for (sp_Agent req) found
        in k0 \<in> {1, 2} \<and>
           (case found of
              Some p \<Rightarrow> project = p \<and> k1 = 0
            | None \<Rightarrow> pr_WorkspaceRoot project = sp_WorkspacePath req \<and> pr_Title project = projectTitle (sp_WorkspacePath req) \<and>
                k1 \<in> {1, 2}) \<and>
           xs = replicate k0 (snapshot_request base) @
             replicate k1 (command_request w base (project_create c0 project selection now)) @ rest \<and>
           thread_commands w base req project selection now tid rest)"

lemma projectForWorkspace_at: "projectForWorkspace ps ws = project_at ws ps"
  by (induction ps) (simp_all add: project_at_def)

lemma stage_commandsI:
  assumes "k0 \<in> {1, 2}" "found = project_at (sp_WorkspacePath req) ps"
    and "case found of Some q \<Rightarrow> p = q \<and> k1 = 0
      | None \<Rightarrow> pr_WorkspaceRoot p = sp_WorkspacePath req \<and> pr_Title p = projectTitle (sp_WorkspacePath req) \<and> k1 \<in> {1, 2}"
    and "thread_commands w base req p (selection_for (sp_Agent req) found) now tid rest"
    and "xs = replicate k0 (snapshot_request base) @
      replicate k1 (command_request w base (project_create c p (selection_for (sp_Agent req) found) now)) @ rest"
  shows "stage_commands w base req ps tid xs"
  unfolding stage_commands_def Let_def assms(2)[symmetric]
  by (rule exI[of _ p], rule exI[of _ now], rule exI[of _ k0], rule exI[of _ c], rule exI[of _ k1], rule exI[of _ rest])
    (intro conjI assms)

lemma ensure_project_sent:
  assumes run: "run_state (ensure_project w status refresh req found selection now) s = ((status', Inr p), s')"
    and f: "quiet_refresh refresh"
  obtains n c k where "hist s' = n @ hist s" "backend_base status' = backend_base status"
    "case found of Some q \<Rightarrow> p = q \<and> k = 0
      | None \<Rightarrow> pr_WorkspaceRoot p = sp_WorkspacePath req \<and> pr_Title p = projectTitle (sp_WorkspacePath req) \<and> k \<in> {1, 2}"
    "sent n = replicate k (command_request w (backend_base status) (project_create c p selection now))"
proof (cases found)
  case (Some q)
  then have "s' = s" "p = q" "status' = status" using run by (auto simp: ensure_project_def)
  then show thesis using that[of "[]" 0] Some by simp
next
  case None
  let ?s1 = "s\<lparr>hist := CallRand 12 # CallRand 12 # hist s\<rparr>"
  obtain i where i: "run_state (dcm_id w ''dcm-project-'') s = (i, s\<lparr>hist := CallRand 12 # hist s\<rparr>)"
    using dcm_id_run by blast
  obtain c where c: "run_state (dcm_id w ''dcm-command-'') (s\<lparr>hist := CallRand 12 # hist s\<rparr>) = (c, ?s1)"
    using dcm_id_run[of w "''dcm-command-''" "s\<lparr>hist := CallRand 12 # hist s\<rparr>"] by auto
  let ?p = "\<lparr>pr_ID = i, pr_Title = projectTitle (sp_WorkspacePath req),
    pr_WorkspaceRoot = sp_WorkspacePath req, pr_DefaultModelSelection = None\<rparr>"
  obtain st e s2 where 2: "run_state (dispatch w status refresh (project_create c ?p selection now)) ?s1 = ((st, e), s2)"
    by (metis prod.exhaust)
  have fin: "s' = s2" "e = None" "p = ?p" "status' = st"
    using run None i c 2 by (auto simp: ensure_project_def Let_def split: option.splits)
  obtain n k where n: "hist s2 = n @ hist ?s1" "k \<le> 2" "1 \<le> k" "backend_base st = backend_base status"
    "sent n = replicate k (command_request w (backend_base status) (project_create c ?p selection now))"
    using dispatch_runE[OF 2 f] fin(2) by metis
  then have "k \<in> {1, 2}" by auto
  then show thesis using that[of "n @ [CallRand 12, CallRand 12]" k c] n fin None by simp
qed

lemma openStageThread_sent:
  assumes run: "run_state (openStageThread w status refresh req) s = (Inr tid, s')" and f: "quiet_refresh refresh"
  obtains n ps resp where "hist s' = n @ hist s" "stage_commands w (backend_base status) req ps tid (sent n)"
    "answered w (hist s') (snapshot_request (backend_base status)) resp" "success (resp_StatusCode resp)"
    "decode_snapshot (read_body w resp) = Inr ps"
proof -
  obtain st1 snap s1 where 1: "run_state (backendJSON w status refresh ''GET'' ''/api/orchestration/snapshot'' None
      decode_snapshot) s = ((st1, snap), s1)" by (metis prod.exhaust)
  then obtain ps where ps: "snap = Inr ps" using run by (auto simp: openStageThread_def split: sum.splits)
  let ?found = "projectForWorkspace ps (sp_WorkspacePath req)"
  let ?sel = "selection_for (sp_Agent req) ?found" and ?now = "w_FormatTime w (w_Now w (hist s1))"
  let ?s2 = "s1\<lparr>hist := CallNow # hist s1\<rparr>"
  obtain st3 r s3 where 3: "run_state (ensure_project w st1 refresh req ?found ?sel ?now) ?s2 = ((st3, r), s3)"
    by (metis prod.exhaust)
  then obtain p where p: "r = Inr p"
    using run 1 ps by (auto simp: openStageThread_def Let_def split: sum.splits)
  have 4: "run_state (start_thread w st3 refresh req p ?sel ?now) s3 = (Inr tid, s')"
    using run 1 ps 3 p by (simp add: openStageThread_def Let_def)
  obtain n1 k0 where n1: "hist s1 = n1 @ hist s" "k0 \<le> 2" "1 \<le> k0" "backend_base st1 = backend_base status"
    "sent n1 = replicate k0 (snapshot_request (backend_base status))"
  proof -
    obtain n k where "hist s1 = n @ hist s" "k \<le> 2" "\<not> isl snap \<longrightarrow> 1 \<le> k" "backend_base st1 = backend_base status"
      "sent n = replicate k (snapshot_request (backend_base status))"
      using backendJSON_runE[OF 1 f] unfolding snapshot_request_def option.case by blast
    then show ?thesis using that ps by simp
  qed
  obtain resp where resp: "answered w (hist s1) (snapshot_request (backend_base status)) resp"
    "success (resp_StatusCode resp)" "decode_snapshot (read_body w resp) = Inr ps"
    using backendJSON_answered[OF 1[unfolded ps]] unfolding snapshot_request_def option.case by blast
  obtain n2 c k1 where n2: "hist s3 = n2 @ hist ?s2" "backend_base st3 = backend_base st1"
    "case ?found of Some q \<Rightarrow> p = q \<and> k1 = 0
      | None \<Rightarrow> pr_WorkspaceRoot p = sp_WorkspacePath req \<and> pr_Title p = projectTitle (sp_WorkspacePath req) \<and> k1 \<in> {1, 2}"
    "sent n2 = replicate k1 (command_request w (backend_base st1) (project_create c p ?sel ?now))"
    by (rule ensure_project_sent[OF 3[unfolded p] f])
  obtain n3 where n3: "hist s' = n3 @ hist s3" "thread_commands w (backend_base st3) req p ?sel ?now tid (sent n3)"
    using start_thread_sent[OF 4 f] by blast
  have k0: "k0 \<in> {1, 2}" using n1 by auto
  show thesis
  proof (rule that)
    show "hist s' = (n3 @ n2 @ [CallNow] @ n1) @ hist s" using n1 n2 n3 by simp
    show "answered w (hist s') (snapshot_request (backend_base status)) resp"
      using answered_later[OF resp(1), of "n3 @ n2 @ [CallNow]"] n2(1) n3(1) by simp
    show "success (resp_StatusCode resp)" "decode_snapshot (read_body w resp) = Inr ps" by (rule resp)+
    have "sent (n3 @ n2 @ [CallNow] @ n1) = replicate k0 (snapshot_request (backend_base status)) @
        replicate k1 (command_request w (backend_base status) (project_create c p ?sel ?now)) @ sent n3"
      using n1 n2 by simp
    then show "stage_commands w (backend_base status) req ps tid (sent (n3 @ n2 @ [CallNow] @ n1))"
    proof (rule stage_commandsI[OF k0 projectForWorkspace_at n2(3), rotated])
      show "thread_commands w (backend_base status) req p ?sel ?now tid (sent n3)"
        using n3(2) n2(2) n1(4) by simp
    qed
  qed
qed

section \<open>The gateway over its two services\<close>

definition accepted_spawn :: "world \<Rightarrow> in_request \<Rightarrow> SpawnStageRequest \<Rightarrow> bool" where
  "accepted_spawn w r req \<longleftrightarrow> in_Method r = ''POST'' \<and>
     decode_spawn (w_json_stream w (take json_limit (in_Body r))) = Inr req \<and> validateSpawnRequest req = None"

locale gateway = browser_token_store store rows + docker_service docker
  for store :: "('z gw_state_scheme) token_store"
    and rows :: "'z gw_state_scheme \<Rightarrow> string \<Rightarrow> browserToken option"
    and docker :: "('z gw_state_scheme) docker_client"
begin

text \<open>Nothing but the token bookkeeping happens before a request is accepted.\<close>

lemma spawn_cases:
  assumes run: "run_state (ServeSpawnStage w ts docker r c refresh) s = (reply, s')" and ts: "ts = None \<or> ts = Some store"
  obtains (rejected) n code msg where "reply = Error_reply code msg" "code \<in> {405, 401, 400}"
      "hist s' = n @ hist s" "list_all token_call n"
  | (accepted) req s1 n where "accepted_spawn w r req" "hist s1 = n @ hist s" "list_all token_call n"
      "run_state (authorizedWithStore w ts r (t3_EnvironmentID (ctr_T3 c))
         (firstNonEmpty [ctr_ID c, t3_EnvironmentID (ctr_T3 c)])) s = (True, s1)"
      "run_state (run_stage w docker c refresh req) s1 = (reply, s')"
proof (cases "in_Method r = ''POST''")
  case False
  then show thesis using run by (intro rejected[of 405 _ "[]"]) (auto simp: ServeSpawnStage_def)
next
  case post: True
  obtain ok s1 where 1: "run_state (authorizedWithStore w ts r (t3_EnvironmentID (ctr_T3 c))
      (firstNonEmpty [ctr_ID c, t3_EnvironmentID (ctr_T3 c)])) s = (ok, s1)" by fastforce
  obtain n where n: "hist s1 = n @ hist s" "list_all token_call n"
    using authorized_calls[OF ts] 1 by (rule calls_withinE)
  let ?d = "decode_spawn (w_json_stream w (take json_limit (in_Body r)))"
  show thesis
  proof (cases "ok \<and> (\<exists>req. ?d = Inr req \<and> validateSpawnRequest req = None)")
    case True
    then show thesis using run post 1 n by (elim conjE exE, intro accepted) (auto simp: ServeSpawnStage_def accepted_spawn_def)
  next
    case False
    then show thesis
      using run post 1 n rejected
      by (cases ok; cases ?d) (auto simp: ServeSpawnStage_def unauthorized_def split: option.splits)
  qed
qed

lemma run_stage_sent:
  assumes run: "run_state (run_stage w docker c refresh req) s = (JSON_reply 200 body, s')" and f: "quiet_refresh refresh"
  obtains b n tid ps resp where "fst (run_state (write_scope docker w c req) s) = None"
    "hist s' = n @ b @ hist s" "list_all (exec_call (ctr_ID c)) b"
    "body = JObj [(''threadId'', JStr tid)]" "stage_commands w (backend_base (ctr_T3 c)) req ps tid (sent n)"
    "answered w (hist s') (snapshot_request (backend_base (ctr_T3 c))) resp" "success (resp_StatusCode resp)"
    "decode_snapshot (read_body w resp) = Inr ps"
proof -
  obtain e s1 where 1: "run_state (write_scope docker w c req) s = (e, s1)" by fastforce
  obtain b where b: "s1 = s\<lparr>hist := b @ hist s\<rparr>" "list_all (exec_call (ctr_ID c)) b"
    using 1 stdin_law unfolding write_scope_def by (rule io_runE)
  obtain opened s2 where 2: "run_state (openStageThread w (ctr_T3 c) refresh req) s1 = (opened, s2)" by fastforce
  have e: "e = None" using run 1 by (auto simp: run_stage_def split: option.splits)
  then obtain tid where tid: "opened = Inr tid" "s2 = s'" "body = JObj [(''threadId'', JStr tid)]"
    using run 1 2 by (auto simp: run_stage_def split: sum.splits)
  obtain n ps resp where "hist s2 = n @ hist s1" "stage_commands w (backend_base (ctr_T3 c)) req ps tid (sent n)"
    "answered w (hist s2) (snapshot_request (backend_base (ctr_T3 c))) resp" "success (resp_StatusCode resp)"
    "decode_snapshot (read_body w resp) = Inr ps"
    using openStageThread_sent[OF 2[unfolded tid(1)] f] by blast
  then show thesis using that b tid 1 e by simp
qed

end

interpretation pg_gateway: gateway "postgres_store w" pg_view "dockerx_client w"
  by unfold_locales

section \<open>Properties\<close>

text \<open>Claim C6. Only an accepted request does anything: whenever serving a spawn request makes a call other
  than the bookkeeping of the token check (no command in the container, no request to the
  backend, no random identifier), the method was POST, the presented token was accepted for the
  container's environment, and the body decoded to a valid request.\<close>

theorem spawn_guard:
  assumes run: "run_state (ServeSpawnStage w ts (dockerx_client w) r c refresh) s = (reply, s')"
    and ts: "ts = None \<or> ts = Some (postgres_store w)"
    and more: "\<not> list_all token_call (new_calls (hist s) (hist s'))"
  shows "fst (run_state (authorizedWithStore w ts r (t3_EnvironmentID (ctr_T3 c))
      (firstNonEmpty [ctr_ID c, t3_EnvironmentID (ctr_T3 c)])) s) \<and> (\<exists>req. accepted_spawn w r req)"
  using run ts
proof (cases rule: pg_gateway.spawn_cases)
  case (rejected n code msg)
  then show ?thesis using more by simp
next
  case (accepted req s1 n)
  then show ?thesis by auto
qed

definition spawned :: "world \<Rightarrow> in_request \<Rightarrow> Container \<Rightarrow> json \<Rightarrow>
    'z gw_state_scheme \<Rightarrow> 'z gw_state_scheme \<Rightarrow> bool" where
  "spawned w r c body s s' \<longleftrightarrow> (\<exists>req tid a b n ps resp. \<exists>s1 :: 'z gw_state_scheme. accepted_spawn w r req \<and> body = JObj [(''threadId'', JStr tid)] \<and>
     hist s1 = a @ hist s \<and> list_all token_call a \<and>
     fst (run_state (write_scope (dockerx_client w) w c req) s1) = None \<and>
     hist s' = n @ b @ hist s1 \<and> list_all (exec_call (ctr_ID c)) b \<and>
     answered w (hist s') (snapshot_request (backend_base (ctr_T3 c))) resp \<and> success (resp_StatusCode resp) \<and>
     decode_snapshot (read_body w resp) = Inr ps \<and> stage_commands w (backend_base (ctr_T3 c)) req ps tid (sent n))"

text \<open>Claim C30. What a successful spawn has done: the request was accepted, the retain scope was written to the
  container by one command, and only then was the backend asked, once each (twice where its
  token had to be refreshed) and in this order, for its snapshot, for a project on the
  workspace exactly when the snapshot it answered with has none, for the thread, in the first project
  of the workspace or in the one just created, whose identifier is the answer, and for the
  thread's first turn with the prompt.\<close>

theorem spawn_commands:
  assumes run: "run_state (ServeSpawnStage w ts (dockerx_client w) r c refresh) s = (JSON_reply 200 body, s')"
    and ts: "ts = None \<or> ts = Some (postgres_store w)" and f: "quiet_refresh refresh"
  shows "spawned w r c body s s'"
  using run ts
proof (cases rule: pg_gateway.spawn_cases)
  case (accepted req s1 a)
  show ?thesis
  proof (rule pg_gateway.run_stage_sent[OF accepted(5) f])
    fix b n tid ps resp
    assume stage: "fst (run_state (write_scope (dockerx_client w) w c req) s1) = None" "hist s' = n @ b @ hist s1"
      "list_all (exec_call (ctr_ID c)) b" "body = JObj [(''threadId'', JStr tid)]"
      "stage_commands w (backend_base (ctr_T3 c)) req ps tid (sent n)"
      "answered w (hist s') (snapshot_request (backend_base (ctr_T3 c))) resp" "success (resp_StatusCode resp)"
      "decode_snapshot (read_body w resp) = Inr ps"
    show ?thesis
      unfolding spawned_def
      by (rule exI[of _ req], rule exI[of _ tid], rule exI[of _ a], rule exI[of _ b], rule exI[of _ n], rule exI[of _ ps],
          rule exI[of _ resp], rule exI[of _ s1])
        (intro conjI stage accepted(1-3))
  qed
qed simp

text \<open>Claim C40. A thread's title is one line of at most 80 bytes and never empty, whatever the prompt.\<close>

theorem threadTitle_shape:
  "threadTitle prompt \<noteq> [] \<and> length (threadTitle prompt) \<le> 80 \<and> newline \<notin> set (threadTitle prompt)"
  using threadTitle_nonempty threadTitle_length threadTitle_one_line by blast

text \<open>The cut at 80 counts bytes, so it can fall inside a character: an e acute at bytes 80 and 81
  leaves its first byte behind.\<close>

lemma threadTitle_cuts_rune:
  "threadTitle (replicate 79 (CHR ''a'') @ [CHR 0xC3, CHR 0xA9]) = replicate 79 (CHR ''a'') @ [CHR 0xC3]"
  by code_simp

text \<open>The model selection of a stage always names the provider of the requested agent, whatever
  default the project has: a default of another provider is replaced.\<close>

theorem modelSelectionFor_instance:
  "\<exists>kvs. modelSelectionFor agent existing = JObj kvs \<and> distinct (map fst kvs) \<and>
     map_of kvs ''instanceId'' = Some (JStr (providerInstanceID agent))"
proof (cases "\<exists>j sel. existing = Some j \<and> decode_map (Inr j) = Inr sel \<and>
    map_of sel ''instanceId'' = Some (JStr (providerInstanceID agent))")
  case True
  then show ?thesis
    by (auto simp: modelSelectionFor_def Let_def map_of_clearjunk distinct_clearjunk)
next
  case False
  then have "modelSelectionFor agent existing =
      JObj [(''instanceId'', JStr (providerInstanceID agent)), (''model'', JStr (defaultModel agent))]"
    by (auto simp: modelSelectionFor_def Let_def split: option.splits sum.splits)
  then show ?thesis by simp
qed

text \<open>Claim C38. The scope file of a valid request lies in the workspace: below the cleaned workspace path, with
  no element that climbs out of it.\<close>

theorem scope_target_inside:
  assumes "validateSpawnRequest req = None"
  shows "is_rooted (scope_target (sp_WorkspacePath req)) \<and>
    path_elems (scope_target (sp_WorkspacePath req)) =
      path_elems (sp_WorkspacePath req) @ [''.hindsight'', ''active-retain-scope.json''] \<and>
    list_all proper (path_elems (scope_target (sp_WorkspacePath req)))"
proof -
  let ?ws = "sp_WorkspacePath req" and ?tail = "[''.hindsight'', ''active-retain-scope.json'']"
  have ws: "?ws \<noteq> []" "is_rooted ?ws"
    using assms by (auto simp: validateSpawnRequest_def filepath_IsAbs_def split: if_splits)
  have t: "scope_target ?ws = path_Clean (?ws @ CHR ''/'' # join_slash ?tail)"
    using ws(1) by (simp add: scope_target_def filepath_Join_def path_Join_def)
  have r: "is_rooted (?ws @ CHR ''/'' # join_slash ?tail)"
    using ws by (cases ?ws) (simp_all add: is_rooted_def HasPrefix_def)
  have tail: "list_all proper ?tail" by (simp add: proper_def dot_def dotdot_def)
  have "path_elems (scope_target ?ws) = path_elems ?ws @ ?tail"
    unfolding t path_elems_Clean
    using r ws tail by (simp add: path_elems_def Split_append clean_elems_append)
  moreover have "is_rooted (scope_target ?ws)" unfolding t using r by simp
  ultimately show ?thesis using rooted_elems by metis
qed

section \<open>Witnesses\<close>

definition spawn_json :: json where
  "spawn_json = JObj [(''agent'', JStr ''claude''), (''renderedPrompt'', JStr ''fix it''),
     (''workspacePath'', JStr ''/workspaces/x''), (''scope'', JObj [(''bankId'', JStr ''b'')])]"

definition spawn_request :: SpawnStageRequest where
  "spawn_request = \<lparr>sp_Agent = ''claude'', sp_RenderedPrompt = ''fix it'', sp_WorkspacePath = ''/workspaces/x'',
     sp_Scope = \<lparr>rs_BankID = ''b'', rs_Tags = None\<rparr>\<rparr>"

text \<open>A world where commands in a container and requests to a backend succeed.\<close>

definition spawn_world :: world where
  "spawn_world = pairing_world\<lparr>w_ExecCreate := \<lambda>_ _ _. Inr ''e1'', w_ExecAttach := \<lambda>_ _. Inr (),
     w_ExecWrite := \<lambda>_ _ _. Inr (), w_ExecCloseWrite := \<lambda>_ _. Inr (), w_ExecRead := \<lambda>_ _. [],
     w_ExecInspect := \<lambda>_ _. Inr 0,
     w_url_Parse := \<lambda>_. Inr \<lparr>url_Scheme = ''http'', url_Host = ''10.0.0.2:3773'', url_Path = [], url_RawQuery = []\<rparr>,
     w_json_stream := \<lambda>x. Inr (if x = ''spawn'' then spawn_json else JObj []),
     w_Http := \<lambda>_ _. Inr \<lparr>resp_StatusCode = 200, resp_Status = ''200 OK'', resp_Header = [], resp_Body = []\<rparr>\<rparr>"

definition spawn_post :: in_request where
  "spawn_post = (bearer_request zero_token)\<lparr>in_Method := ''POST'', in_Body := ''spawn''\<rparr>"

definition spawn_container :: Container where
  "spawn_container = set_t3 ready_container t3_ready"

definition spawn_start :: pg_state where
  "spawn_start = pg_start\<lparr>gw_browserAuth := [(zero_token, \<lparr>bt_Token = zero_token, bt_EnvID = ''env-1'', bt_ExpiresAt = hour\<rparr>)]\<rparr>"

lemma spawn_accepted:
  "decode_spawn (w_json_stream spawn_world (take json_limit (in_Body spawn_post))) = Inr spawn_request"
proof -
  have "take json_limit (in_Body spawn_post) = ''spawn''" by (simp add: spawn_post_def json_limit_def)
  moreover have "decode_spawn (Inr spawn_json) = Inr spawn_request" by code_simp
  ultimately show ?thesis by (simp add: spawn_world_def)
qed

lemma spawn_valid: "validateSpawnRequest spawn_request = None"
  by code_simp

lemma spawn_authorized: "run_state (authorizedWithStore spawn_world None spawn_post ''env-1'' k) spawn_start =
    (True, spawn_start\<lparr>hist := [CallNow]\<rparr>)"
  using bearer_zero by (simp add: authorizedWithStore_def cached_check_def spawn_post_def spawn_world_def spawn_start_def pg_start_def
    hour_def minute_def second_def Let_def)

lemma spawn_written: "fst (run_state (write_scope (dockerx_client spawn_world) spawn_world spawn_container spawn_request) s) = None"
  by (simp add: write_scope_def dockerx_client_def ExecWithStdin_def spawn_world_def)

lemma spawn_world_simps [simp]:
  "w_url_Parse spawn_world x = Inr \<lparr>url_Scheme = ''http'', url_Host = ''10.0.0.2:3773'', url_Path = [], url_RawQuery = []\<rparr>"
  "w_json_stream spawn_world [] = Inr (JObj [])"
  "w_Http spawn_world h q = Inr \<lparr>resp_StatusCode = 200, resp_Status = ''200 OK'', resp_Header = [], resp_Body = []\<rparr>"
  by (simp_all add: spawn_world_def)

lemma backend_empty: "\<exists>s'. run_state (backendJSON spawn_world st None m rest input decode) s = ((st, decode (Inr (JObj []))), s')"
  by (simp add: backendJSON_def with_refresh_def backend_do_def client_Do_def success_def read_body_def json_limit_def Let_def)

lemma backend_dispatched: "\<exists>s'. run_state (dispatch spawn_world st None command) s = ((st, None), s')"
  using backend_empty[of st "''POST''" "''/api/orchestration/dispatch''" "Some command" decode_map s]
  by (auto simp: dispatch_def decode_map_def)

lemma thread_started: "\<exists>tid s'. run_state (start_thread spawn_world st None req p sel now) s = (Inr tid, s')"
proof -
  obtain t s1 where 1: "run_state (dcm_id spawn_world ''dcm-thread-'') s = (t, s1)" by fastforce
  obtain c s2 where 2: "run_state (dcm_id spawn_world ''dcm-command-'') s1 = (c, s2)" by fastforce
  obtain s3 where 3: "run_state (dispatch spawn_world st None
      (thread_create c t p (threadTitle (sp_RenderedPrompt req)) sel now)) s2 = ((st, None), s3)"
    using backend_dispatched by blast
  obtain c' s4 where 4: "run_state (dcm_id spawn_world ''dcm-command-'') s3 = (c', s4)" by fastforce
  obtain m s5 where 5: "run_state (dcm_id spawn_world ''dcm-message-'') s4 = (m, s5)" by fastforce
  obtain s6 where 6: "run_state (dispatch spawn_world st None (turn_start c' t m (sp_RenderedPrompt req)
      (threadTitle (sp_RenderedPrompt req)) sel now)) s5 = ((st, None), s6)"
    using backend_dispatched by blast
  show ?thesis by (simp add: start_thread_def Let_def 1 2 3 4 5 6)
qed

lemma project_created: "\<exists>p s'. run_state (ensure_project spawn_world st None req None sel now) s = ((st, Inr p), s')"
proof -
  obtain i s1 where 1: "run_state (dcm_id spawn_world ''dcm-project-'') s = (i, s1)" by fastforce
  obtain c s2 where 2: "run_state (dcm_id spawn_world ''dcm-command-'') s1 = (c, s2)" by fastforce
  obtain s3 where 3: "run_state (dispatch spawn_world st None (project_create c
      \<lparr>pr_ID = i, pr_Title = projectTitle (sp_WorkspacePath req), pr_WorkspaceRoot = sp_WorkspacePath req,
       pr_DefaultModelSelection = None\<rparr> sel now)) s2 = ((st, None), s3)"
    using backend_dispatched by blast
  show ?thesis by (simp add: ensure_project_def Let_def 1 2 3)
qed

lemma thread_opened: "\<exists>tid s'. run_state (openStageThread spawn_world st None req) s = (Inr tid, s')"
proof -
  obtain s1 where 1: "run_state (backendJSON spawn_world st None ''GET'' ''/api/orchestration/snapshot'' None
      decode_snapshot) s = ((st, Inr []), s1)"
    using backend_empty[of st "''GET''" "''/api/orchestration/snapshot''" None decode_snapshot s]
    by (auto simp: decode_snapshot_def decode_object_def decoded_def)
  let ?sel = "selection_for (sp_Agent req) None" and ?now = "w_FormatTime spawn_world (w_Now spawn_world (hist s1))"
  obtain p s2 where 2: "run_state (ensure_project spawn_world st None req None ?sel ?now)
      (s1\<lparr>hist := CallNow # hist s1\<rparr>) = ((st, Inr p), s2)"
    using project_created by blast
  obtain tid s3 where 3: "run_state (start_thread spawn_world st None req p ?sel ?now) s2 = (Inr tid, s3)"
    using thread_started by blast
  show ?thesis by (simp add: openStageThread_def Let_def 1 2 3)
qed

lemma spawn_served: "\<exists>tid s'. run_state (ServeSpawnStage spawn_world None (dockerx_client spawn_world) spawn_post spawn_container None)
    spawn_start = (JSON_reply 200 (JObj [(''threadId'', JStr tid)]), s')"
proof -
  obtain s2 where w: "run_state (write_scope (dockerx_client spawn_world) spawn_world spawn_container spawn_request)
      (spawn_start\<lparr>hist := [CallNow]\<rparr>) = (None, s2)"
    using spawn_written by (metis prod.collapse)
  obtain tid s3 where t: "run_state (openStageThread spawn_world t3_ready None spawn_request) s2 = (Inr tid, s3)"
    using thread_opened by blast
  have "t3_EnvironmentID (ctr_T3 spawn_container) = ''env-1''" "ctr_T3 spawn_container = t3_ready"
    "in_Method spawn_post = ''POST''"
    by (simp_all add: spawn_container_def t3_ready_def spawn_post_def)
  then show ?thesis
    by (simp add: ServeSpawnStage_def spawn_authorized spawn_accepted spawn_valid run_stage_def w t)
qed

theorem spawn_commands_witness:
  "\<exists>body s'. spawned spawn_world spawn_post spawn_container body spawn_start s'"
proof -
  obtain tid s' where "run_state (ServeSpawnStage spawn_world None (dockerx_client spawn_world) spawn_post spawn_container None)
    spawn_start = (JSON_reply 200 (JObj [(''threadId'', JStr tid)]), s')"
    using spawn_served by blast
  then have "spawned spawn_world spawn_post spawn_container (JObj [(''threadId'', JStr tid)]) spawn_start s'"
    by (rule spawn_commands) (simp_all add: quiet_refresh_def)
  then show ?thesis by blast
qed

lemma stage_commands_nonempty: "stage_commands w base req ps tid (sent n) \<Longrightarrow> \<not> list_all token_call n"
proof
  assume s: "stage_commands w base req ps tid (sent n)" and "list_all token_call n"
  then have "list_all (\<lambda>c. \<not> is_http c) n"
    by (auto simp: token_call_def list_all_iff elim!: is_httpE)
  from sent_other[OF this] show False using s by (auto simp: stage_commands_def Let_def)
qed

theorem spawn_guard_witness: "\<exists>req. accepted_spawn spawn_world spawn_post req"
proof -
  obtain tid s' where run: "run_state (ServeSpawnStage spawn_world None (dockerx_client spawn_world) spawn_post spawn_container None)
    spawn_start = (JSON_reply 200 (JObj [(''threadId'', JStr tid)]), s')"
    using spawn_served by blast
  have "\<not> list_all token_call (new_calls (hist spawn_start) (hist s'))"
  proof (cases rule: pg_gateway.spawn_cases[OF run disjI1[OF refl]])
    case (2 req s1 a)
    obtain b n tid ps where "hist s' = n @ b @ hist s1"
        "stage_commands spawn_world (backend_base (ctr_T3 spawn_container)) req ps tid (sent n)"
      by (rule pg_gateway.run_stage_sent[OF 2(5)]) (auto simp: quiet_refresh_def)
    then show ?thesis
      using 2(2) stage_commands_nonempty new_calls_append[of "hist spawn_start" "n @ b @ a"] by auto
  qed simp_all
  from spawn_guard[OF run _ this] show ?thesis by simp
qed

theorem scope_target_inside_witness:
  "path_elems (scope_target ''/workspaces/x'') = [''workspaces'', ''x'', ''.hindsight'', ''active-retain-scope.json'']"
proof -
  have "path_elems ''/workspaces/x'' = [''workspaces'', ''x'']" by code_simp
  then show ?thesis using scope_target_inside[OF spawn_valid] by (simp add: spawn_request_def)
qed

end
