(* ===== verification/Gateway.thy ===== *)
theory Gateway
  imports Spawn
begin

text \<open>
  The entry of the gateway, from \<open>internal/t3/gateway.go\<close>: a new gateway, and \<open>ServeEnv\<close>,
  which sends a request below \<open>/env/\<close> to the bootstrap, to the websocket proxy or to the HTTP
  proxy. The lemmas show that without an accepted token a request reaches the backend only on
  the one public path.
\<close>

section \<open>Definitions\<close>

definition publicPath :: "string \<Rightarrow> bool" where
  "publicPath rest \<longleftrightarrow> rest = ''/.well-known/t3/environment''"

text \<open>A new gateway knows no pairing code and no token; the store it is given may.\<close>

definition newGateway :: "'z gw_state_scheme \<Rightarrow> 'z gw_state_scheme" where
  "newGateway s = s\<lparr>gw_pairing := [], gw_browserAuth := []\<rparr>"

definition env_rest :: "in_request \<Rightarrow> string \<Rightarrow> string" where
  "env_rest r envID = (let rest = TrimPrefix (in_Path r) (''/env/'' @ envID) in if rest = [] then ''/'' else rest)"

definition is_bootstrap :: "in_request \<Rightarrow> string \<Rightarrow> bool" where
  "is_bootstrap r envID \<longleftrightarrow> env_rest r envID = ''/api/auth/bootstrap/bearer'' \<and> in_Method r = ''POST''"

definition ServeEnv :: "world \<Rightarrow> ('z gw_state_scheme) token_store option \<Rightarrow> in_request \<Rightarrow> Environment \<Rightarrow> T3Status \<Rightarrow>
    ('z gw_state_scheme, string res) state option \<Rightarrow> ('z gw_state_scheme, reply go) state" where
  "ServeEnv w tokenStore r env status refreshToken =
     (if is_bootstrap r (env_ID env) then do {
        reply \<leftarrow> handleBootstrap w tokenStore r env;
        State_Monad.return (Inr reply)
      }
      else if w_IsWebSocketUpgrade w (in_Header r) then do {
        ok \<leftarrow> authorizedWithStore w tokenStore r (env_ID env) (store_key env);
        if \<not> ok then State_Monad.return (Inr unauthorized)
        else proxyWebsocket w r (env_rest r (env_ID env)) status refreshToken
      }
      else do {
        ok \<leftarrow> (if publicPath (env_rest r (env_ID env)) then State_Monad.return True
               else authorizedWithStore w tokenStore r (env_ID env) (store_key env));
        if \<not> ok then State_Monad.return (Inr unauthorized)
        else do {
          reply \<leftarrow> proxyHTTP w r (env_rest r (env_ID env)) status refreshToken;
          State_Monad.return (Inr reply)
        }
      })"

section \<open>Lemmas\<close>

text \<open>A request that may pass without a token.\<close>

definition is_public :: "world \<Rightarrow> in_request \<Rightarrow> string \<Rightarrow> bool" where
  "is_public w r envID \<longleftrightarrow> publicPath (env_rest r envID) \<and> \<not> w_IsWebSocketUpgrade w (in_Header r)"

lemma public_not_bootstrap: "is_public w r envID \<Longrightarrow> \<not> is_bootstrap r envID"
  by (simp add: is_public_def is_bootstrap_def publicPath_def)

context gateway
begin

lemma ServeEnv_cases:
  assumes run: "run_state (ServeEnv w ts r env status refresh) s = (reply, s')" and ts: "ts = None \<or> ts = Some store"
  obtains (bootstrap) b where "is_bootstrap r (env_ID env)" "run_state (handleBootstrap w ts r env) s = (b, s')" "reply = Inr b"
  | (refused) n where "\<not> is_bootstrap r (env_ID env)" "reply = Inr unauthorized" "hist s' = n @ hist s" "list_all token_call n"
      "\<not> fst (run_state (authorizedWithStore w ts r (env_ID env) (store_key env)) s)" "\<not> is_public w r (env_ID env)"
  | (websocket) s1 n where "w_IsWebSocketUpgrade w (in_Header r)" "hist s1 = n @ hist s" "list_all token_call n"
      "run_state (authorizedWithStore w ts r (env_ID env) (store_key env)) s = (True, s1)"
      "run_state (proxyWebsocket w r (env_rest r (env_ID env)) status refresh) s1 = (reply, s')"
  | (proxied) s1 n b where "\<not> w_IsWebSocketUpgrade w (in_Header r)" "hist s1 = n @ hist s" "list_all token_call n"
      "if is_public w r (env_ID env) then s1 = s
       else run_state (authorizedWithStore w ts r (env_ID env) (store_key env)) s = (True, s1)"
      "run_state (proxyHTTP w r (env_rest r (env_ID env)) status refresh) s1 = (b, s')" "reply = Inr b"
proof (cases "is_bootstrap r (env_ID env)")
  case True
  then show thesis using run bootstrap by (auto simp: ServeEnv_def split: prod.splits)
next
  case boot: False
  obtain ok s1 where 1: "run_state (authorizedWithStore w ts r (env_ID env) (store_key env)) s = (ok, s1)" by fastforce
  obtain n where n: "hist s1 = n @ hist s" "list_all token_call n"
    using authorized_calls[OF ts] 1 by (rule calls_withinE)
  consider (up) "w_IsWebSocketUpgrade w (in_Header r)"
    | (pub) "\<not> w_IsWebSocketUpgrade w (in_Header r)" "publicPath (env_rest r (env_ID env))"
    | (plain) "\<not> w_IsWebSocketUpgrade w (in_Header r)" "\<not> publicPath (env_rest r (env_ID env))" by blast
  then show thesis
  proof cases
    case up
    show thesis
    proof (cases ok)
      case True
      then show thesis using websocket[of s1 n] run boot up 1 n by (simp add: ServeEnv_def)
    next
      case False
      then show thesis using refused[of n] run boot up 1 n by (simp add: ServeEnv_def is_public_def)
    qed
  next
    case pub
    obtain b s2 where 2: "run_state (proxyHTTP w r (env_rest r (env_ID env)) status refresh) s = (b, s2)" by fastforce
    show thesis
      using proxied[of s "[]" b] run boot pub 2 by (simp add: ServeEnv_def is_public_def)
  next
    case plain
    show thesis
    proof (cases ok)
      case True
      obtain b s2 where 2: "run_state (proxyHTTP w r (env_rest r (env_ID env)) status refresh) s1 = (b, s2)" by fastforce
      show thesis
        using True proxied[of s1 n b] run boot plain 1 2 n by (simp add: ServeEnv_def is_public_def)
    next
      case False
      then show thesis using refused[of n] run boot plain 1 n by (simp add: ServeEnv_def is_public_def)
    qed
  qed
qed

end

section \<open>Properties\<close>

text \<open>Claim C7. The backend is behind the token: whenever serving a request below an environment makes any call
  beyond the bookkeeping of tokens (a request to the backend, a command in the container, a
  websocket), the request was a plain one for the public path or its token was accepted for the
  environment.\<close>

theorem env_guard:
  assumes run: "run_state (ServeEnv w ts r env status refresh) s = (reply, s')"
    and ts: "ts = None \<or> ts = Some (postgres_store w)"
    and more: "\<not> list_all (\<lambda>c. token_call c \<or> c = CallRand 32) (new_calls (hist s) (hist s'))"
  shows "if is_public w r (env_ID env) then True
    else fst (run_state (authorizedWithStore w ts r (env_ID env) (store_key env)) s)"
  using run ts
proof (cases rule: pg_gateway.ServeEnv_cases)
  case (bootstrap b)
  then show ?thesis
    using calls_within_new[OF postgres.bootstrap_calls[OF ts] bootstrap(2)] more by simp
next
  case (refused n)
  have "list_all (\<lambda>c. token_call c \<or> c = CallRand 32) n"
    using refused(4) by (simp add: list_all_iff)
  then show ?thesis using more refused(3) by simp
next
  case (proxied s1 n b)
  then show ?thesis by (simp split: if_splits)
qed simp

text \<open>A request that is neither the bootstrap nor public and whose token is not accepted is answered
  401, and nothing is called but the clock and the token store.\<close>

theorem unauthorized_request:
  assumes run: "run_state (ServeEnv w ts r env status refresh) s = (reply, s')"
    and ts: "ts = None \<or> ts = Some (postgres_store w)"
    and "\<not> is_bootstrap r (env_ID env)" "\<not> is_public w r (env_ID env)"
    and "\<not> fst (run_state (authorizedWithStore w ts r (env_ID env) (store_key env)) s)"
  shows "reply = Inr (Error_reply 401 ''missing or invalid environment token'') \<and>
    list_all token_call (new_calls (hist s) (hist s'))"
  using run ts
proof (cases rule: pg_gateway.ServeEnv_cases)
  case (refused n)
  then show ?thesis by (simp add: unauthorized_def)
qed (use assms in \<open>auto split: if_splits\<close>)

section \<open>Witnesses\<close>

definition env_get :: in_request where
  "env_get = (bearer_request zero_token)\<lparr>in_Path := ''/env/env-1/x''\<rparr>"

lemma env_get_facts: "\<not> is_bootstrap env_get (env_ID example_env)" "\<not> is_public spawn_world env_get (env_ID example_env)"
  "w_IsWebSocketUpgrade spawn_world h = False"
  by (simp_all add: env_get_def is_bootstrap_def is_public_def publicPath_def env_rest_def example_env_def
      TrimPrefix_def HasPrefix_def spawn_world_def pairing_world_def db_world_def offline_world_def)

lemma env_get_authorized: "run_state (authorizedWithStore spawn_world None env_get ''env-1'' k) spawn_start =
    (True, spawn_start\<lparr>hist := [CallNow]\<rparr>)"
  using bearer_zero by (simp add: authorizedWithStore_def cached_check_def env_get_def spawn_world_def spawn_start_def
    pg_start_def hour_def minute_def second_def Let_def)

lemma hist_spawn_start: "hist spawn_start = []"
  by (simp add: spawn_start_def pg_start_def)

theorem env_guard_witness:
  "fst (run_state (authorizedWithStore spawn_world None env_get ''env-1'' (store_key example_env)) spawn_start)"
proof -
  let ?run = "run_state (ServeEnv spawn_world None env_get example_env t3_ready None) spawn_start"
  have id: "env_ID example_env = ''env-1''" by (simp add: example_env_def)
  have "\<exists>q. hist (snd ?run) = CallHttp q # CallNow # hist spawn_start"
    using env_get_facts by (simp add: ServeEnv_def id env_get_authorized proxyHTTP_def with_refresh_def proxy_do_def
        client_Do_def Let_def publicPath_def is_public_def hist_spawn_start split: prod.split)
  then have "\<not> list_all (\<lambda>c. token_call c \<or> c = CallRand 32) (new_calls (hist spawn_start) (hist (snd ?run)))"
    using new_calls_append[of "hist spawn_start" "[_, _]"] by (auto simp: token_call_def)
  moreover have "?run = (fst ?run, snd ?run)" by simp
  ultimately show ?thesis using env_guard env_get_facts(2) id by (metis (no_types, lifting))
qed

theorem unauthorized_request_witness:
  "fst (run_state (ServeEnv spawn_world None env_get example_env t3_ready None) pg_start) =
     Inr (Error_reply 401 ''missing or invalid environment token'')"
proof -
  let ?run = "run_state (ServeEnv spawn_world None env_get example_env t3_ready None) pg_start"
  have "\<not> fst (run_state (authorizedWithStore spawn_world None env_get (env_ID example_env) (store_key example_env)) pg_start)"
    by (simp add: authorizedWithStore_def cached_check_def pg_start_def split: option.split)
  moreover have "?run = (fst ?run, snd ?run)" by simp
  ultimately show ?thesis using unauthorized_request env_get_facts(1,2) by blast
qed

end
