(* ===== verification/Service.thy ===== *)
theory Service
  imports Sync Gateway "HOL-Library.List_Lexorder" "HOL-Library.Char_ord"
begin

text \<open>
  The service of \<open>internal/app/service.go\<close>: its state (configuration, containers, sessions, and
  below them the gateway, the Mutagen client and the token table), the reconciliation, the JSON
  views, the HTTP handlers with their routes, and the reactions of the watching goroutines. A
  handler runs to its end here; \<open>Interleaving\<close> cuts the racing ones at their locks.
\<close>

section \<open>State\<close>

record svc_state = pg_state +
  sv_cfg :: Config
  sv_containers :: "(string, Container) gomap"
  sv_sessions :: "Session list"

text \<open>What does not change after the start: the path of the configuration and the store.\<close>

record 's service =
  svc_configPath :: string
  svc_tokenStore :: "'s token_store option"

definition get_cfg :: "('z svc_state_scheme, Config) state" where
  "get_cfg = State (\<lambda>s. (sv_cfg s, s))"

definition put_cfg :: "Config \<Rightarrow> ('z svc_state_scheme, unit) state" where
  "put_cfg cfg = State (\<lambda>s. ((), s\<lparr>sv_cfg := cfg\<rparr>))"

definition get_containers :: "('z svc_state_scheme, (string, Container) gomap) state" where
  "get_containers = State (\<lambda>s. (sv_containers s, s))"

definition put_containers :: "(string, Container) gomap \<Rightarrow> ('z svc_state_scheme, unit) state" where
  "put_containers cs = State (\<lambda>s. ((), s\<lparr>sv_containers := cs\<rparr>))"

definition get_sessions :: "('z svc_state_scheme, Session list) state" where
  "get_sessions = State (\<lambda>s. (sv_sessions s, s))"

definition put_sessions :: "Session list \<Rightarrow> ('z svc_state_scheme, unit) state" where
  "put_sessions ss = State (\<lambda>s. ((), s\<lparr>sv_sessions := ss\<rparr>))"

lemma run_svc [simp]:
  "run_state get_cfg s = (sv_cfg s, s)" "run_state (put_cfg cfg) s = ((), s\<lparr>sv_cfg := cfg\<rparr>)"
  "run_state get_containers s = (sv_containers s, s)"
  "run_state (put_containers cs) s = ((), s\<lparr>sv_containers := cs\<rparr>)"
  "run_state get_sessions s = (sv_sessions s, s)" "run_state (put_sessions ss) s = ((), s\<lparr>sv_sessions := ss\<rparr>)"
  by (simp_all add: get_cfg_def put_cfg_def get_containers_def put_containers_def get_sessions_def put_sessions_def)

text \<open>A \<open>range\<close> over a map visits every key once, in an order that is the world's choice.\<close>

definition map_range :: "world \<Rightarrow> (string, 'v) gomap \<Rightarrow> ('z io_state_scheme, 'v list) state" where
  "map_range w m = ask (\<lambda>h.
     let ks = map fst m; order = w_MapOrder w h ks;
         visited = (if length order = length ks \<and> set order = set ks then order else ks)
     in map (\<lambda>k. the (map_of m k)) visited) CallMapRange"

section \<open>Making a service\<close>

definition init_service :: "Config \<Rightarrow> ('z svc_state_scheme, unit) state" where
  "init_service cfg = State (\<lambda>s. ((), (newGateway s)\<lparr>ms_client := newMutagenClient,
     sv_cfg := cfg, sv_containers := [], sv_sessions := []\<rparr>))"

definition app_New :: "world \<Rightarrow> string \<Rightarrow> Config \<Rightarrow> ('z svc_state_scheme, ('z svc_state_scheme) service res) state" where
  "app_New w configPath cfg = do {
     docker \<leftarrow> dockerx_New w;
     case docker of
       Inl err \<Rightarrow> State_Monad.return (Inl err)
     | Inr _ \<Rightarrow> do {
         opened \<leftarrow> (if ptc_PostgresURL (cfg_PairingTokens cfg) \<noteq> [] then do {
             store \<leftarrow> NewPostgresPairingTokenStore w (ptc_PostgresURL (cfg_PairingTokens cfg));
             State_Monad.return (case store of Inl err \<Rightarrow> Inl err | Inr st \<Rightarrow> Inr (Some st))
           }
           else State_Monad.return (Inr None));
         case opened of
           Inl err \<Rightarrow> do { dockerx_Close; State_Monad.return (Inl err) }
         | Inr tokenStore \<Rightarrow> do {
             init_service cfg;
             State_Monad.return (Inr \<lparr>svc_configPath = configPath, svc_tokenStore = tokenStore\<rparr>)
           }
       }
   }"

section \<open>Reconciling\<close>

definition publicBaseURL :: "string \<Rightarrow> string" where
  "publicBaseURL listen =
     (case SplitHostPort listen of
        Inl _ \<Rightarrow> ''http://localhost:8787''
      | Inr (host, port) \<Rightarrow>
          let host' = (if host \<in> {[], ''0.0.0.0'', ''::'', ''127.0.0.1'', ''::1''} then ''localhost'' else host)
          in ''http://'' @ JoinHostPort host' port)"

definition keep_token :: "(string, Container) gomap \<Rightarrow> Container \<Rightarrow> Container" where
  "keep_token previous c = (case map_of previous (ctr_ID c) of
       None \<Rightarrow> c
     | Some old \<Rightarrow> set_t3 c ((ctr_T3 c)\<lparr>t3_BackendToken := t3_BackendToken (ctr_T3 old)\<rparr>))"

fun probe_loop :: "world \<Rightarrow> Config \<Rightarrow> string \<Rightarrow> (string, Container) gomap \<Rightarrow> Container list \<Rightarrow>
    ('z io_state_scheme, Container list) state" where
  "probe_loop w cfg publicBase previous [] = State_Monad.return []"
| "probe_loop w cfg publicBase previous (c # cs) = do {
     c' \<leftarrow> ReconcileContainer w (dockerx_client w) (keep_token previous c) cfg publicBase;
     cs' \<leftarrow> probe_loop w cfg publicBase previous cs;
     State_Monad.return (c' # cs')
   }"

definition summary_step :: "SyncSummary \<Rightarrow> Session \<Rightarrow> SyncSummary" where
  "summary_step summary session =
     (let counted = summary\<lparr>sum_Sessions := sum_Sessions summary + 1\<rparr> in
      if ses_Error session \<noteq> [] then
        counted\<lparr>sum_Status := ''degraded'',
          sum_Error := (if sum_Error counted = [] then ses_Error session else sum_Error counted)\<rparr>
      else if ses_Status session \<noteq> [] \<and> ses_Status session \<noteq> ''ready'' then counted\<lparr>sum_Status := ses_Status session\<rparr>
      else counted)"

definition container_summary :: "Container \<Rightarrow> Session list \<Rightarrow> bool \<Rightarrow> SyncSummary" where
  "container_summary c sessions enabled =
     (if \<not> enabled \<or> (case ctr_Rule c of None \<Rightarrow> True | Some rule \<Rightarrow> length (rule_Syncs rule) = 0)
      then empty_summary\<lparr>sum_Enabled := False, sum_Status := ''disabled''\<rparr>
      else let summary = foldl summary_step (empty_summary\<lparr>sum_Enabled := True, sum_Status := ''ready''\<rparr>)
                 (filter (\<lambda>session. ses_ContainerID session = ctr_ID c) sessions)
           in if sum_Sessions summary = 0 then summary\<lparr>sum_Status := ''idle''\<rparr> else summary)"

definition applySyncSummaries :: "Container list \<Rightarrow> Session list \<Rightarrow> bool \<Rightarrow> Container list" where
  "applySyncSummaries containers sessions enabled =
     map (\<lambda>c. c\<lparr>ctr_Sync := container_summary c sessions enabled\<rparr>) containers"

text \<open>A reconciliation works on its own copies and stores the result under the lock at its end.\<close>

definition reconcile_scan :: "world \<Rightarrow> ('z svc_state_scheme, (Container list \<times> Session list) res go) state" where
  "reconcile_scan w = do {
     cfg \<leftarrow> get_cfg;
     bind_sum (ListDevcontainers w cfg) (\<lambda>listed. case listed of
       Inl err \<Rightarrow> State_Monad.return (Inr (Inl err))
     | Inr containers \<Rightarrow> do {
         previous \<leftarrow> get_containers;
         probed \<leftarrow> probe_loop w cfg (publicBaseURL (srv_Listen (cfg_Server cfg))) previous containers;
         bind_sum (Reconcile w (mutagen_service w) probed cfg) (\<lambda>sessions.
           State_Monad.return (Inr (Inr
             (applySyncSummaries probed sessions (sync_Enabled (cfg_Sync cfg)), sessions))))
       })
   }"

definition next_containers :: "Container list \<Rightarrow> (string, Container) gomap" where
  "next_containers cs = foldl (\<lambda>m c. AList.update (ctr_ID c) c m) [] cs"

definition reconcile_store :: "Container list \<Rightarrow> Session list \<Rightarrow> ('z svc_state_scheme, unit) state" where
  "reconcile_store cs ss = do { put_containers (next_containers cs); put_sessions ss }"

definition reconcile :: "world \<Rightarrow> ('z svc_state_scheme, string option go) state" where
  "reconcile w = bind_sum (reconcile_scan w) (\<lambda>r. case r of
     Inl err \<Rightarrow> State_Monad.return (Inr (Some err))
   | Inr (containers, sessions) \<Rightarrow> do {
       reconcile_store containers sessions;
       State_Monad.return (Inr None)
     })"

section \<open>Views\<close>

text \<open>
  \<open>sort.Slice\<close> is not stable: it may leave equal elements in any order. The elements of a map come
  in an arbitrary order already, and those of a slice are put in one (\<open>any_order\<close>), so a stable sort
  has the same set of possible results.
\<close>

definition containerList :: "world \<Rightarrow> ('z svc_state_scheme, Container list) state" where
  "containerList w = do {
     containers \<leftarrow> get_containers;
     out \<leftarrow> map_range w containers;
     State_Monad.return (sort_key ctr_Name out)
   }"

definition any_order :: "world \<Rightarrow> 'a list \<Rightarrow> ('z io_state_scheme, 'a list) state" where
  "any_order w xs = map_range w (zip (map (\<lambda>i. Itoa (int i)) [0..<length xs]) xs)"

definition sessionList :: "world \<Rightarrow> ('z svc_state_scheme, Session list) state" where
  "sessionList w = do {
     sessions \<leftarrow> get_sessions;
     out \<leftarrow> any_order w sessions;
     State_Monad.return (sort_key ses_Name out)
   }"

definition envFromContainer :: "Container \<Rightarrow> Environment" where
  "envFromContainer c = \<lparr>env_ID = t3_EnvironmentID (ctr_T3 c), env_ContainerID = ctr_ID c, env_Name = ctr_Name c,
     env_HTTPBaseURL = t3_HTTPBaseURL (ctr_T3 c), env_WSBaseURL = t3_WSBaseURL (ctr_T3 c),
     env_Status = t3_Status (ctr_T3 c), env_Error = t3_Error (ctr_T3 c), env_LastProbe = t3_LastProbe (ctr_T3 c)\<rparr>"

definition environments :: "world \<Rightarrow> ('z svc_state_scheme, Environment list) state" where
  "environments w = do {
     containers \<leftarrow> containerList w;
     State_Monad.return (map envFromContainer (filter (\<lambda>c. t3_EnvironmentID (ctr_T3 c) \<noteq> []) containers))
   }"

definition environment :: "world \<Rightarrow> string \<Rightarrow> ('z svc_state_scheme, Environment option) state" where
  "environment w i = do {
     envs \<leftarrow> environments w;
     State_Monad.return (find (\<lambda>env. env_ID env = i) envs)
   }"

definition containerByEnv :: "world \<Rightarrow> string \<Rightarrow> ('z svc_state_scheme, Container option) state" where
  "containerByEnv w i = do {
     containers \<leftarrow> get_containers;
     out \<leftarrow> map_range w containers;
     State_Monad.return (find (\<lambda>c. t3_EnvironmentID (ctr_T3 c) = i) out)
   }"

section \<open>JSON\<close>

text \<open>
  The members by their tags; \<open>omitempty\<close> drops an empty string or slice (it has no effect on a
  time). The members \<open>Rule\<close>, \<open>BackendURL\<close> and \<open>BackendToken\<close> are tagged as not encoded. A nil
  slice or map is \<open>null\<close>, so the labels of a zero container, the metadata of a missing label and the
  nil elements of metadata are. A slice of strings is a list: those encoded here are nil when empty.
\<close>

definition json_bool :: "bool \<Rightarrow> json" where "json_bool = JBool"
definition json_int :: "int \<Rightarrow> json" where "json_int i = JNum (Itoa i)"
definition json_time :: "world \<Rightarrow> int \<Rightarrow> json" where "json_time w t = JStr (w_FormatTime w t)"
definition json_labels :: "labels \<Rightarrow> json" where "json_labels m = JObj (map (\<lambda>(k, v). (k, JStr v)) m)"
definition json_slice :: "('a \<Rightarrow> json) \<Rightarrow> 'a list \<Rightarrow> json" where
  "json_slice f xs = (if xs = [] then JNull else JArr (map f xs))"
definition json_nil :: "('a \<Rightarrow> json) \<Rightarrow> 'a option \<Rightarrow> json" where
  "json_nil f x = (case x of None \<Rightarrow> JNull | Some v \<Rightarrow> f v)"
definition json_metadata :: "metadata \<Rightarrow> json" where
  "json_metadata md = json_nil (\<lambda>ms. JArr (map (json_nil JObj) ms)) md"
definition omit_empty :: "string \<Rightarrow> string \<Rightarrow> (string \<times> json) list" where
  "omit_empty k v = (if v = [] then [] else [(k, JStr v)])"

definition t3_json :: "world \<Rightarrow> T3Status \<Rightarrow> json" where
  "t3_json w t = JObj ([(''enabled'', json_bool (t3_Enabled t))] @ omit_empty ''environmentId'' (t3_EnvironmentID t) @
     omit_empty ''httpBaseUrl'' (t3_HTTPBaseURL t) @ omit_empty ''wsBaseUrl'' (t3_WSBaseURL t) @
     [(''status'', JStr (t3_Status t))] @ omit_empty ''error'' (t3_Error t) @ [(''lastProbe'', json_time w (t3_LastProbe t))])"

definition summary_json :: "SyncSummary \<Rightarrow> json" where
  "summary_json s = JObj ([(''enabled'', json_bool (sum_Enabled s)), (''status'', JStr (sum_Status s)),
     (''sessions'', json_int (sum_Sessions s))] @ omit_empty ''error'' (sum_Error s))"

definition container_json :: "world \<Rightarrow> Container \<Rightarrow> json" where
  "container_json w c = JObj ([(''id'', JStr (ctr_ID c)), (''shortId'', JStr (ctr_ShortID c)), (''name'', JStr (ctr_Name c)),
     (''image'', JStr (ctr_Image c)), (''labels'', json_nil json_labels (ctr_Labels c)), (''status'', JStr (ctr_Status c)),
     (''running'', json_bool (ctr_Running c)), (''localFolder'', JStr (ctr_LocalFolder c)),
     (''configFile'', JStr (ctr_ConfigFile c)), (''workspace'', JStr (ctr_WorkspaceFolder c)),
     (''metadata'', json_metadata (ctr_Metadata c))] @ omit_empty ''composeService'' (ctr_ComposeService c) @
     [(''containerUser'', JStr (ctr_ContainerUser c)), (''containerHome'', JStr (ctr_ContainerHome c)),
     (''userSource'', JStr (ctr_UserSource c)), (''rule'', JStr (ctr_RuleName c)),
     (''lastSeen'', json_time w (ctr_LastSeen c))] @ omit_empty ''containerIp'' (ctr_ContainerIP c) @
     [(''t3'', t3_json w (ctr_T3 c)), (''sync'', summary_json (ctr_Sync c)),
     (''discoveryReasons'', json_slice JStr (ctr_DiscoveryReasons c))] @
     (if ctr_Warnings c = [] then [] else [(''warnings'', json_slice JStr (ctr_Warnings c))]))"

definition environment_json :: "world \<Rightarrow> Environment \<Rightarrow> json" where
  "environment_json w e = JObj ([(''id'', JStr (env_ID e)), (''containerId'', JStr (env_ContainerID e)),
     (''name'', JStr (env_Name e)), (''httpBaseUrl'', JStr (env_HTTPBaseURL e)), (''wsBaseUrl'', JStr (env_WSBaseURL e)),
     (''status'', JStr (env_Status e))] @ omit_empty ''error'' (env_Error e) @ [(''lastProbe'', json_time w (env_LastProbe e))])"

definition session_json :: "Session \<Rightarrow> json" where
  "session_json s = JObj ([(''id'', JStr (ses_ID s)), (''name'', JStr (ses_Name s)),
     (''containerId'', JStr (ses_ContainerID s)), (''rule'', JStr (ses_Rule s)), (''syncIndex'', json_int (ses_SyncIndex s)),
     (''mode'', JStr (ses_Mode s)), (''alpha'', JStr (ses_Alpha s)), (''beta'', JStr (ses_Beta s)),
     (''status'', JStr (ses_Status s))] @ omit_empty ''error'' (ses_Error s) @
     [(''labels'', json_labels (ses_Labels s)), (''desired'', json_bool (ses_Desired s))])"

section \<open>Handlers\<close>

text \<open>The zero value a map returns for a missing key.\<close>

definition zero_container :: Container where
  "zero_container = \<lparr>ctr_ID = [], ctr_ShortID = [], ctr_Name = [], ctr_Image = [], ctr_Labels = None, ctr_Status = [],
     ctr_Running = False, ctr_LocalFolder = [], ctr_ConfigFile = [], ctr_WorkspaceFolder = [], ctr_Metadata = None,
     ctr_ComposeService = [], ctr_ContainerUser = [], ctr_ContainerHome = [], ctr_UserSource = [], ctr_RuleName = [],
     ctr_Rule = None, ctr_LastSeen = 0, ctr_ContainerIP = [], ctr_T3 = empty_t3, ctr_Sync = empty_summary,
     ctr_DiscoveryReasons = [], ctr_Warnings = []\<rparr>"

definition set_backend_token :: "string \<Rightarrow> Container \<Rightarrow> Container" where
  "set_backend_token token c = set_t3 c ((ctr_T3 c)\<lparr>t3_BackendToken := token\<rparr>)"

definition remember_token :: "string \<Rightarrow> string \<Rightarrow> (string, Container) gomap \<Rightarrow> (string, Container) gomap" where
  "remember_token i token cs =
     AList.update i (set_backend_token token (case map_of cs i of None \<Rightarrow> zero_container | Some c \<Rightarrow> c)) cs"

text \<open>The closure \<open>refresh\<close> of \<open>handleEnvProxy\<close>.\<close>

definition refresh_container :: "world \<Rightarrow> Container \<Rightarrow> ('z svc_state_scheme, string res) state" where
  "refresh_container w c = do {
     issued \<leftarrow> RefreshBackendToken (dockerx_client w) (ctr_ID c) (ctr_WorkspaceFolder c);
     case issued of
       Inl err \<Rightarrow> State_Monad.return (Inl err)
     | Inr token \<Rightarrow> do {
         containers \<leftarrow> get_containers;
         put_containers (remember_token (ctr_ID c) token containers);
         State_Monad.return (Inr token)
       }
   }"

definition handleEnvironmentAction :: "world \<Rightarrow> in_request \<Rightarrow> ('z svc_state_scheme, reply) state" where
  "handleEnvironmentAction w r =
     (case Cut (TrimPrefix (in_Path r) ''/api/environments/'') CHR ''/'' of
        (envID, action, ok) \<Rightarrow>
          if \<not> ok \<or> action \<noteq> ''pairing-code'' then State_Monad.return NotFound_reply
          else do {
            env \<leftarrow> environment w envID;
            case env of
              None \<Rightarrow> State_Monad.return NotFound_reply
            | Some _ \<Rightarrow> do {
                (code, expires) \<leftarrow> GeneratePairingCode w envID;
                State_Monad.return (JSON_reply 200 (JObj [(''environmentId'', JStr envID), (''pairingCode'', JStr code),
                  (''expiresAt'', json_time w expires)]))
              }
          })"

text \<open>The part of \<open>handleEnvProxy\<close> after both lookups.\<close>

definition serve_container :: "world \<Rightarrow> ('z svc_state_scheme) service \<Rightarrow> in_request \<Rightarrow> string \<Rightarrow> string \<Rightarrow>
    Environment \<Rightarrow> Container \<Rightarrow> ('z svc_state_scheme, reply go) state" where
  "serve_container w svc r rest envID env container =
     (if t3_BackendURL (ctr_T3 container) = []
      then State_Monad.return (Inr (Error_reply 502 ''environment backend is not ready''))
      else if TrimPrefix rest envID = ''/spawn-stage'' then do {
        reply \<leftarrow> ServeSpawnStage w (svc_tokenStore svc) (dockerx_client w) r container (Some (refresh_container w container));
        State_Monad.return (Inr reply)
      }
      else ServeEnv w (svc_tokenStore svc) r env (ctr_T3 container) (Some (refresh_container w container)))"

definition handleEnvProxy :: "world \<Rightarrow> ('z svc_state_scheme) service \<Rightarrow> in_request \<Rightarrow> ('z svc_state_scheme, reply go) state" where
  "handleEnvProxy w svc r =
     (let rest = TrimPrefix (in_Path r) ''/env/'';
          envID = fst (Cut rest CHR ''/'') in do {
        env \<leftarrow> environment w envID;
        case env of
          None \<Rightarrow> State_Monad.return (Inr NotFound_reply)
        | Some env \<Rightarrow> do {
            container \<leftarrow> containerByEnv w envID;
            case container of
              None \<Rightarrow> State_Monad.return (Inr NotFound_reply)
            | Some c \<Rightarrow> serve_container w svc r rest envID env c
          }
      })"

section \<open>Frame: what a reconciliation leaves alone\<close>

text \<open>A program that changes nothing but the call history and the Mutagen client.\<close>

definition mut_frame :: "'z mut_state_scheme \<Rightarrow> 'z mut_state_scheme \<Rightarrow> bool" where
  "mut_frame s s' \<longleftrightarrow> s' = s\<lparr>hist := hist s', ms_client := ms_client s'\<rparr> \<and> (\<exists>n. hist s' = n @ hist s)"

abbreviation mut_only :: "('z mut_state_scheme, 'a) state \<Rightarrow> bool" where
  "mut_only \<equiv> moves_by mut_frame"

interpretation mut: io_order mut_frame
proof
  show "mut_frame s s" for s :: "'z mut_state_scheme" by (simp add: mut_frame_def)
  show "mut_frame s s2" if steps: "mut_frame s s1" "mut_frame s1 s2" for s s1 s2 :: "'z mut_state_scheme"
  proof -
    have "s2 = (s\<lparr>hist := hist s1, ms_client := ms_client s1\<rparr>)\<lparr>hist := hist s2, ms_client := ms_client s2\<rparr>"
      using steps unfolding mut_frame_def by metis
    moreover obtain n1 n2 where "hist s1 = n1 @ hist s" "hist s2 = n2 @ hist s1"
      using steps unfolding mut_frame_def by blast
    ultimately show ?thesis by (simp add: mut_frame_def)
  qed
qed (simp add: mut_frame_def)

named_theorems frame_rules "programs that change only the call history and the Mutagen client"

declare mut.io_rules [frame_rules]

lemmas mut_only_io = mut.moves_io

lemma mut_onlyE:
  assumes "mut_only m" "run_state m s = (a, s')"
  obtains h c where "s' = s\<lparr>hist := h, ms_client := c\<rparr>"
  using moves_byD[OF assms] unfolding mut_frame_def by blast

lemma mut_only_client [frame_rules]: "mut_only get_client" "mut_only (put_client c)"
  by (simp_all add: moves_by_def mut_frame_def)

lemma mut_only_session [frame_rules]:
  "mut_only (ensureConnected w)" "mut_only reset" "mut_only (listOwned w)"
  "mut_only (client_create w session e d)" "mut_only (client_pause w n)" "mut_only (client_resume w n)"
  "mut_only (client_terminate w n)"
proof -
  show con: "mut_only (ensureConnected w :: ('z mut_state_scheme, string option) state)" for w
    unfolding ensureConnected_def verifyDaemonVersion_def by (intro frame_rules)
  show res: "mut_only (reset :: ('z mut_state_scheme, unit) state)"
    unfolding reset_def by (intro frame_rules)
  have call: "mut_only (prompted_call w b rpc)" if "\<And>p q. mut_only (rpc p q)" for w b
      and rpc :: "pointer \<Rightarrow> string \<Rightarrow> ('z mut_state_scheme, unit rpc) state"
    unfolding prompted_call_def hostPrompter_def by (intro frame_rules that res)
  show "mut_only (listOwned w :: ('z mut_state_scheme, (string, liveSession) gomap res go) state)"
    unfolding listOwned_def list_request_def by (intro frame_rules con res)
  show "mut_only (client_create w session e d :: ('z mut_state_scheme, string option go) state)"
    "mut_only (client_pause w n :: ('z mut_state_scheme, string option go) state)"
    "mut_only (client_resume w n :: ('z mut_state_scheme, string option go) state)"
    "mut_only (client_terminate w n :: ('z mut_state_scheme, string option go) state)"
    unfolding client_create_def client_pause_def client_resume_def client_terminate_def
    by (intro frame_rules con call)+
qed

lemma validateEndpoints_only [frame_rules]: "mut_only (validateEndpoints w cid e)"
  unfolding validateEndpoints_def localKind_def PathKind_def Exec_def Let_def by (intro frame_rules)

lemma sync_loop_only [frame_rules]:
  "mut_only (sync_loop w (mutagen_service w') live d c r n es acc)"
proof (induction es arbitrary: n acc)
  case (Cons e es)
  have one: "mut_only (reconcile_sync w (mutagen_service w') live d c session e ::
      ('z mut_state_scheme, Session go) state)" for session
    unfolding reconcile_sync_def mutagen_service_def session_client.select_convs by (intro frame_rules)
  show ?case by (cases acc) (auto simp: Let_def intro!: frame_rules one Cons.IH)
qed (cases acc, simp add: frame_rules)

lemma container_loop_only [frame_rules]: "mut_only (container_loop w (mutagen_service w') live d cs acc)"
  by (induction cs arbitrary: acc) (auto intro!: frame_rules split: option.split)

lemma terminate_loop_only [frame_rules]: "mut_only (terminate_loop (mutagen_service w') names live)"
proof (induction live)
  case (Cons x live)
  then show ?case
    by (cases x) (auto simp: Let_def mutagen_service_def intro!: frame_rules)
qed (simp add: frame_rules)

lemma Reconcile_only [frame_rules]: "mut_only (Reconcile w (mutagen_service w') cs cfg)"
  unfolding Reconcile_def open_daemon_def
  by (intro frame_rules; simp add: mutagen_service_def frame_rules)

section \<open>What a reconciliation stores\<close>

definition token_before :: "(string, Container) gomap \<Rightarrow> Container \<Rightarrow> string" where
  "token_before previous c = (case map_of previous (ctr_ID c) of None \<Rightarrow> [] | Some old \<Rightarrow> t3_BackendToken (ctr_T3 old))"

lemma keep_token_fresh:
  "ctr_T3 c = empty_t3 \<Longrightarrow> ctr_T3 (keep_token previous c) = empty_t3\<lparr>t3_BackendToken := token_before previous c\<rparr>"
  by (simp add: keep_token_def token_before_def empty_t3_def split: option.split)

lemma set_t3_keep [simp]: "set_t3 (keep_token previous c) t = set_t3 c t"
  by (simp add: keep_token_def set_t3_def split: option.split)

text \<open>The outcome of a probe does not depend on what the record holds besides its identity and its rule.\<close>

lemma t3_outcome_keep: "t3_outcome w (keep_token previous c) cfg base token h t = t3_outcome w c cfg base token h t"
proof -
  have same: "ctr_Rule (keep_token previous c) = ctr_Rule c" "ctr_ID (keep_token previous c) = ctr_ID c"
    "ctr_ShortID (keep_token previous c) = ctr_ShortID c" "ctr_Running (keep_token previous c) = ctr_Running c"
    "ctr_ContainerIP (keep_token previous c) = ctr_ContainerIP c"
    "ctr_WorkspaceFolder (keep_token previous c) = ctr_WorkspaceFolder c"
    by (simp_all add: keep_token_def set_t3_def split: option.split)
  show ?thesis unfolding t3_outcome_def t3_enabled_def backend_url_def same ..
qed

text \<open>A container as it is probed in a reconciliation with the history \<open>hs\<close>: only its status changes, as the
  answers of one moment decide, and it starts with the backend token known before.\<close>

definition probed_from :: "world \<Rightarrow> Config \<Rightarrow> (string, Container) gomap \<Rightarrow> call list \<Rightarrow> Container \<Rightarrow> Container \<Rightarrow> bool" where
  "probed_from w cfg previous hs c c' \<longleftrightarrow> c' = set_t3 c (ctr_T3 c') \<and>
     (\<exists>h. suffix h hs \<and> t3_outcome w c cfg (publicBaseURL (srv_Listen (cfg_Server cfg))) (token_before previous c) h (ctr_T3 c'))"

lemma probed_from_later: "probed_from w cfg previous hs c c' \<Longrightarrow> suffix hs hs' \<Longrightarrow> probed_from w cfg previous hs' c c'"
  unfolding probed_from_def by (meson suffix_order.order_trans)

lemma probed_from_fields:
  assumes "probed_from w cfg previous hs c c'"
  shows "ctr_ID c' = ctr_ID c"
    "token_before previous c \<noteq> [] \<Longrightarrow> t3_BackendToken (ctr_T3 c') = token_before previous c"
proof -
  have c': "c' = set_t3 c (ctr_T3 c')" using assms unfolding probed_from_def by blast
  show "ctr_ID c' = ctr_ID c" by (subst c') (simp add: set_t3_def)
  show "t3_BackendToken (ctr_T3 c') = token_before previous c" if "token_before previous c \<noteq> []"
    using assms that by (auto simp: probed_from_def t3_outcome_def Let_def no_environment_def has_environment_def
        split: if_splits sum.splits)
qed

lemma probe_loop_only [frame_rules]: "mut_only (probe_loop w cfg base previous cs)"
proof (induction cs)
  case (Cons c cs)
  have "mut_only (ReconcileContainer w (dockerx_client w) (keep_token previous c) cfg base)"
    by (rule mut_only_io[OF dockerx.ReconcileContainer_io[where P = "\<lambda>_. True"]]) simp_all
  then show ?case by (auto intro!: frame_rules Cons.IH)
qed (simp add: frame_rules)

lemma probe_loop_hist: "run_state (probe_loop w cfg base previous cs) s = (cs', s') \<Longrightarrow> suffix (hist s) (hist s')"
proof (induction cs arbitrary: s cs' s')
  case (Cons c cs)
  obtain c1 s1 where 1: "run_state (ReconcileContainer w (dockerx_client w) (keep_token previous c) cfg base) s = (c1, s1)"
    by fastforce
  obtain n where "s1 = s\<lparr>hist := n @ hist s\<rparr>"
    by (rule io_runE[OF 1 dockerx.ReconcileContainer_io[where P = "\<lambda>_. True"]]) auto
  then have "suffix (hist s) (hist s1)" by (simp add: suffix_def)
  moreover obtain cs1 s2 where 2: "run_state (probe_loop w cfg base previous cs) s1 = (cs1, s2)" by fastforce
  then have "suffix (hist s1) (hist s2)" by (rule Cons.IH)
  ultimately show ?case using Cons.prems 1 2 by (auto dest: suffix_order.order_trans)
qed simp

lemma probe_loop_result:
  assumes "run_state (probe_loop w cfg (publicBaseURL (srv_Listen (cfg_Server cfg))) previous cs) s = (cs', s')"
    and "list_all (\<lambda>c. ctr_T3 c = empty_t3) cs"
  shows "list_all2 (probed_from w cfg previous (hist s')) cs cs'"
  using assms
proof (induction cs arbitrary: s cs' s')
  case (Cons c cs)
  let ?base = "publicBaseURL (srv_Listen (cfg_Server cfg))"
  obtain c1 s1 where 1: "run_state (ReconcileContainer w (dockerx_client w) (keep_token previous c) cfg ?base) s = (c1, s1)"
    by fastforce
  obtain cs1 s2 where 2: "run_state (probe_loop w cfg ?base previous cs) s1 = (cs1, s2)" by fastforce
  obtain n where "s1 = s\<lparr>hist := n @ hist s\<rparr>"
    by (rule io_runE[OF 1 dockerx.ReconcileContainer_io[where P = "\<lambda>_. True"]]) auto
  then have h: "suffix (hist s) (hist s2)"
    using probe_loop_hist[OF 2] by (auto simp: suffix_def)
  have "probed_from w cfg previous (hist s2) c c1"
    using ReconcileContainer_result[OF 1 keep_token_fresh] Cons.prems(2) h
    by (auto simp: probed_from_def t3_outcome_keep)
  moreover have "list_all2 (probed_from w cfg previous (hist s2)) cs cs1"
    using Cons.IH[OF 2] Cons.prems(2) by simp
  ultimately show ?case using Cons.prems(1) 1 2 by auto
qed simp

lemma ListDevcontainers_ok:
  assumes "run_state (ListDevcontainers w cfg) s = (Inr (Inr out), s')"
  shows "list_all (container_ok w cfg) out"
proof -
  obtain items where "w_ContainerList w (hist s) = Inr items"
    using assms by (cases "w_ContainerList w (hist s)") (auto simp: ListDevcontainers_def)
  then have "run_state (list_loop w cfg (TrimSpace (disc_ConnectToNetwork (cfg_Discovery cfg))) items)
      (s\<lparr>hist := CallContainerList # hist s\<rparr>) = (Inr out, s')"
    using assms by (auto simp: ListDevcontainers_def split: prod.splits sum.splits)
  then show ?thesis using list_loop_result by blast
qed

lemma ListDevcontainers_only [frame_rules]: "mut_only (ListDevcontainers w cfg)"
proof -
  have item: "mut_only (list_item w cfg n item :: ('z mut_state_scheme, Container list go) state)" for n item
    unfolding list_item_def
    by (intro frame_rules mut_only_io[OF recordFromInspect_io[where P = "\<lambda>_. True"]]
        mut_only_io[OF Dockerx.ensureConnected_io[where P = "\<lambda>_. True"]]; simp)
  have "mut_only (list_loop w cfg n items :: ('z mut_state_scheme, Container list go) state)" for n items
    by (induction items) (auto intro!: frame_rules item)
  then show ?thesis unfolding ListDevcontainers_def by (intro frame_rules)
qed

lemma mut_only_svc [frame_rules]: "mut_only get_cfg" "mut_only get_containers" "mut_only get_sessions"
  by (simp_all add: moves_by_def mut_frame_def)

lemma reconcile_scan_only [frame_rules]: "mut_only (reconcile_scan w)"
  unfolding reconcile_scan_def by (intro frame_rules)

text \<open>The keys of the stored map are the identifiers of its containers, each once.\<close>

definition keyed :: "(string, Container) gomap \<Rightarrow> bool" where
  "keyed m \<longleftrightarrow> distinct (map fst m) \<and> list_all (\<lambda>(k, c). ctr_ID c = k) m"

lemma update_keyed: "list_all (\<lambda>(k, c). ctr_ID c = k) m \<Longrightarrow> list_all (\<lambda>(k, c). ctr_ID c = k) (AList.update (ctr_ID c) c m)"
  by (induction m) auto

lemma keyed_update: "keyed m \<Longrightarrow> keyed (AList.update (ctr_ID c) c m)"
  unfolding keyed_def by (intro conjI distinct_update update_keyed; elim conjE; assumption)

lemma update_values: "snd ` set (AList.update k v m) \<subseteq> insert v (snd ` set m)"
  by (induction m) auto

lemma next_containers_keyed:
  "keyed m \<Longrightarrow> keyed (foldl (\<lambda>m c. AList.update (ctr_ID c) c m) m cs)"
  by (induction cs arbitrary: m) (simp_all add: keyed_update)

lemma next_containers_values:
  "snd ` set (foldl (\<lambda>m c. AList.update (ctr_ID c) c m) m cs) \<subseteq> snd ` set m \<union> set cs"
proof (induction cs arbitrary: m)
  case (Cons c cs)
  show ?case
    unfolding foldl_Cons by (rule order_trans[OF Cons.IH]) (use update_values[of "ctr_ID c" c m] in auto)
qed simp

lemma next_containers_dom:
  "dom (map_of (foldl (\<lambda>m c. AList.update (ctr_ID c) c m) m cs)) = dom (map_of m) \<union> ctr_ID ` set cs"
proof (induction cs arbitrary: m)
  case (Cons c cs)
  show ?case
    unfolding foldl_Cons Cons.IH update_conv' dom_fun_upd by (simp add: Un_commute)
qed simp

text \<open>Of two containers of one identifier the later is stored.\<close>

lemma next_containers_map_of:
  "map_of (foldl (\<lambda>m c. AList.update (ctr_ID c) c m) m cs) = map_of m ++ map_of (rev (map (\<lambda>c. (ctr_ID c, c)) cs))"
proof (induction cs arbitrary: m)
  case (Cons c cs)
  show ?case
    unfolding foldl_Cons Cons.IH update_conv' by (simp add: map_of_append fun_upd_def map_add_def fun_eq_iff split: option.split)
qed simp

lemma next_containers_spec:
  "keyed (next_containers cs)" "snd ` set (next_containers cs) \<subseteq> set cs"
  "dom (map_of (next_containers cs)) = ctr_ID ` set cs"
  "map_of (next_containers cs) = map_of (rev (map (\<lambda>c. (ctr_ID c, c)) cs))"
  unfolding next_containers_def
  using next_containers_keyed[of "[]" cs] next_containers_values[of "[]" cs] next_containers_dom[of "[]" cs]
    next_containers_map_of[of "[]" cs]
  by (simp_all add: keyed_def)

definition with_summary :: "Config \<Rightarrow> Session list \<Rightarrow> Container \<Rightarrow> Container" where
  "with_summary cfg ss c = c\<lparr>ctr_Sync := container_summary c ss (sync_Enabled (cfg_Sync cfg))\<rparr>"

text \<open>The steps of a scan that succeeds: the listing, the probes, the sessions, the summaries.\<close>

lemma reconcile_scan_result:
  assumes run: "run_state (reconcile_scan w) s = (Inr (Inr (cs, ss)), s')"
  shows "\<exists>out s1 probed s2. run_state (ListDevcontainers w (sv_cfg s)) s = (Inr (Inr out), s1) \<and>
    list_all2 (probed_from w (sv_cfg s) (sv_containers s) (hist s2)) out probed \<and>
    run_state (Reconcile w (mutagen_service w) probed (sv_cfg s)) s2 = (Inr ss, s') \<and>
    cs = map (with_summary (sv_cfg s) ss) probed"
proof -
  let ?cfg = "sv_cfg s"
  obtain l s1 where 1: "run_state (ListDevcontainers w ?cfg) s = (l, s1)" by fastforce
  obtain out where out: "l = Inr (Inr out)"
    using run 1 by (auto simp: reconcile_scan_def split: sum.splits)
  obtain h1 c1 where s1: "s1 = s\<lparr>hist := h1, ms_client := c1\<rparr>"
    using ListDevcontainers_only 1 by (rule mut_onlyE)
  then have prev: "sv_containers s1 = sv_containers s" by simp
  obtain probed s2 where 2: "run_state (probe_loop w ?cfg (publicBaseURL (srv_Listen (cfg_Server ?cfg)))
      (sv_containers s) out) s1 = (probed, s2)" by fastforce
  obtain r s3 where 3: "run_state (Reconcile w (mutagen_service w) probed ?cfg) s2 = (r, s3)" by fastforce
  have cs: "r = Inr ss" "s3 = s'" "cs = applySyncSummaries probed ss (sync_Enabled (cfg_Sync ?cfg))"
    using run 1 2 3 out prev by (auto simp: reconcile_scan_def split: sum.splits)
  have ok: "list_all (container_ok w ?cfg) out" using ListDevcontainers_ok 1 out by blast
  have "list_all2 (probed_from w ?cfg (sv_containers s) (hist s2)) out probed"
    by (rule probe_loop_result[OF 2]) (use ok in \<open>auto simp: list_all_iff container_ok_def\<close>)
  moreover have "cs = map (with_summary ?cfg ss) probed"
    unfolding cs(3) applySyncSummaries_def with_summary_def ..
  ultimately show ?thesis using 1 3 unfolding out cs(1,2) by blast
qed

section \<open>Views and lookups\<close>

lemma only_member: "a \<in> set xs \<Longrightarrow> b \<in> set xs \<Longrightarrow> length xs \<le> 1 \<Longrightarrow> a = b"
  by (cases xs) auto

lemma find_mem: "find P xs = Some x \<Longrightarrow> x \<in> set xs \<and> P x"
  by (induction xs) (auto split: if_splits)

lemma visited_perm:
  assumes "distinct ks" "length order = length ks" "set order = set ks"
  shows "mset order = mset ks"
proof -
  have "distinct order" using assms by (metis card_distinct distinct_card)
  then show ?thesis using assms set_eq_iff_mset_eq_distinct by blast
qed

lemma map_the_keys: "distinct (map fst m) \<Longrightarrow> map (\<lambda>k. the (map_of m k)) (map fst m) = map snd m"
  by (auto simp: map_of_is_SomeI intro!: map_cong)

lemma map_range_run:
  assumes "distinct (map fst m)" "run_state (map_range w m) s = (xs, s')"
  shows "mset xs = mset (map snd m)" "s' = s\<lparr>hist := CallMapRange # hist s\<rparr>"
proof -
  let ?f = "\<lambda>k. the (map_of m k)"
  let ?o = "w_MapOrder w (hist s) (map fst m)"
  define ks where "ks = (if length ?o = length (map fst m) \<and> set ?o = set (map fst m) then ?o else map fst m)"
  have ks: "xs = map ?f ks"
    using assms(2) unfolding map_range_def Let_def run_ask ks_def by blast
  have "mset ks = mset (map fst m)" using visited_perm[OF assms(1)] by (auto simp: ks_def)
  then have "mset (map ?f ks) = mset (map ?f (map fst m))" by (simp only: mset_map)
  then show "mset xs = mset (map snd m)" unfolding ks map_the_keys[OF assms(1)] .
  show "s' = s\<lparr>hist := CallMapRange # hist s\<rparr>" using assms(2) by (simp add: map_range_def)
qed

lemma containerList_run:
  assumes "keyed (sv_containers s)" "run_state (containerList w) s = (out, s')"
  shows "mset out = mset (map snd (sv_containers s))" "sorted (map ctr_Name out)"
    "s' = s\<lparr>hist := CallMapRange # hist s\<rparr>"
proof -
  obtain xs s1 where 1: "run_state (map_range w (sv_containers s)) s = (xs, s1)" by fastforce
  then have out: "out = sort_key ctr_Name xs" "s' = s1" using assms(2) by (simp_all add: containerList_def)
  show "mset out = mset (map snd (sv_containers s))" "s' = s\<lparr>hist := CallMapRange # hist s\<rparr>"
    using map_range_run[OF _ 1] assms(1) out by (simp_all add: keyed_def)
  show "sorted (map ctr_Name out)" by (simp add: out)
qed

text \<open>The containers an environment identifier can mean.\<close>

definition has_env :: "string \<Rightarrow> Container \<Rightarrow> bool" where
  "has_env i c \<longleftrightarrow> t3_EnvironmentID (ctr_T3 c) = i"

lemma environment_run:
  assumes "keyed (sv_containers s)" "run_state (environment w i) s = (env, s')"
  shows "s' = s\<lparr>hist := CallMapRange # hist s\<rparr>"
    "case env of None \<Rightarrow> i = [] \<or> list_all (\<lambda>c. \<not> has_env i c) (map snd (sv_containers s))
     | Some e \<Rightarrow> i \<noteq> [] \<and> env_ID e = i \<and> (\<exists>c\<in>snd ` set (sv_containers s). has_env i c \<and> e = envFromContainer c)"
proof -
  obtain out s1 where 1: "run_state (containerList w) s = (out, s1)" by fastforce
  note run = containerList_run[OF assms(1) 1]
  have s': "s' = s1" and env: "env = find (\<lambda>e. env_ID e = i)
      (map envFromContainer (filter (\<lambda>c. t3_EnvironmentID (ctr_T3 c) \<noteq> []) out))"
    using assms(2) 1 by (simp_all add: environment_def environments_def)
  show "s' = s\<lparr>hist := CallMapRange # hist s\<rparr>" using s' run(3) by simp
  have set_out: "set out = snd ` set (sv_containers s)" using mset_eq_setD[OF run(1)] by simp
  have id: "env_ID (envFromContainer c) = t3_EnvironmentID (ctr_T3 c)" for c by (simp add: envFromContainer_def)
  show "case env of None \<Rightarrow> i = [] \<or> list_all (\<lambda>c. \<not> has_env i c) (map snd (sv_containers s))
     | Some e \<Rightarrow> i \<noteq> [] \<and> env_ID e = i \<and> (\<exists>c\<in>snd ` set (sv_containers s). has_env i c \<and> e = envFromContainer c)"
  proof (cases env)
    case None
    then have "\<forall>c\<in>set out. t3_EnvironmentID (ctr_T3 c) \<noteq> [] \<longrightarrow> t3_EnvironmentID (ctr_T3 c) \<noteq> i"
      using env id by (auto simp: find_None_iff)
    then show ?thesis using None set_out by (auto simp: list_all_iff has_env_def)
  next
    case (Some e)
    from find_mem[OF env[symmetric, unfolded Some]]
    obtain c where "c \<in> set out" "t3_EnvironmentID (ctr_T3 c) \<noteq> []" "e = envFromContainer c" "env_ID e = i"
      by auto
    then show ?thesis using Some id set_out by (auto simp: has_env_def)
  qed
qed

lemma containerByEnv_run:
  assumes "keyed (sv_containers s)" "run_state (containerByEnv w i) s = (found, s')"
  shows "s' = s\<lparr>hist := CallMapRange # hist s\<rparr>"
    "case found of None \<Rightarrow> list_all (\<lambda>c. \<not> has_env i c) (map snd (sv_containers s))
     | Some c \<Rightarrow> c \<in> snd ` set (sv_containers s) \<and> has_env i c"
proof -
  obtain out s1 where 1: "run_state (map_range w (sv_containers s)) s = (out, s1)" by fastforce
  have run: "mset out = mset (map snd (sv_containers s))" "s1 = s\<lparr>hist := CallMapRange # hist s\<rparr>"
    using map_range_run[OF _ 1] assms(1) by (simp_all add: keyed_def)
  have s': "s' = s1" and found: "found = find (has_env i) out"
    using assms(2) 1 by (simp_all add: containerByEnv_def has_env_def[abs_def])
  show "s' = s\<lparr>hist := CallMapRange # hist s\<rparr>" using s' run(2) by simp
  have set_out: "set out = snd ` set (sv_containers s)" using mset_eq_setD[OF run(1)] by simp
  show "case found of None \<Rightarrow> list_all (\<lambda>c. \<not> has_env i c) (map snd (sv_containers s))
     | Some c \<Rightarrow> c \<in> snd ` set (sv_containers s) \<and> has_env i c"
    using found set_out by (auto simp: find_None_iff list_all_iff dest: find_mem split: option.split)
qed

section \<open>Properties\<close>

lemma io_only_client: "io_only P m \<Longrightarrow> run_state m s = (a, s') \<Longrightarrow> ms_client s' = ms_client (s :: 'z mut_state_scheme)"
  by (erule (1) io_onlyE) simp

lemma ListDevcontainers_io: "io_only (\<lambda>_. True) (ListDevcontainers w cfg)"
proof -
  have item: "io_only (\<lambda>_. True) (list_item w cfg n item :: ('z io_state_scheme, Container list go) state)" for n item
    unfolding list_item_def by (intro call_rules) simp_all
  have "io_only (\<lambda>_. True) (list_loop w cfg n items :: ('z io_state_scheme, Container list go) state)" for n items
    by (induction items) (auto intro!: call_rules item)
  then show ?thesis unfolding ListDevcontainers_def by (intro call_rules) simp_all
qed

lemma probe_loop_io: "io_only (\<lambda>_. True) (probe_loop w cfg base previous cs)"
  by (induction cs) (auto intro!: call_rules dockerx.ReconcileContainer_io)

lemma ReconcileContainer_ID:
  "run_state (ReconcileContainer w docker c cfg base) s = (c', s') \<Longrightarrow> ctr_ID c' = ctr_ID c"
  by (auto simp: ReconcileContainer_def reconcile_ready_def Let_def set_t3_def split: if_splits sum.splits prod.splits)

lemma probe_loop_ids: "run_state (probe_loop w cfg base previous cs) s = (cs', s') \<Longrightarrow> map ctr_ID cs' = map ctr_ID cs"
proof (induction cs arbitrary: s cs' s')
  case (Cons c cs)
  have "ctr_ID (keep_token previous c) = ctr_ID c" by (simp add: keep_token_def set_t3_def split: option.split)
  then show ?case
    using Cons by (fastforce dest: ReconcileContainer_ID split: prod.splits)
qed simp

lemma reconcile_runE:
  assumes "run_state (reconcile w) s = (Inr None, s')"
  obtains cs ss s1 where "run_state (reconcile_scan w) s = (Inr (Inr (cs, ss)), s1)"
    "s' = s1\<lparr>sv_containers := next_containers cs, sv_sessions := ss\<rparr>"
proof -
  obtain r s1 where 1: "run_state (reconcile_scan w) s = (r, s1)" by fastforce
  then obtain cs ss where "r = Inr (Inr (cs, ss))"
    using assms by (auto simp: reconcile_def reconcile_store_def split: sum.splits prod.splits)
  then show thesis using that 1 assms by (auto simp: reconcile_def reconcile_store_def)
qed

lemma reconcile_completes:
  assumes run: "run_state (ListDevcontainers w (sv_cfg s)) s = (Inr (Inr out), s1)" and inv: "mut_inv s"
  shows "fst (run_state (reconcile w) s) = Inr None \<and>
    dom (map_of (sv_containers (snd (run_state (reconcile w) s)))) = ctr_ID ` set out"
proof -
  let ?cfg = "sv_cfg s"
  let ?probe = "probe_loop w ?cfg (publicBaseURL (srv_Listen (cfg_Server ?cfg))) (sv_containers s1) out"
  obtain probed s2 where 2: "run_state ?probe s1 = (probed, s2)" by fastforce
  have io: "ms_client s2 = ms_client s"
    using probe_loop_io[of w ?cfg _ _ out] ListDevcontainers_io[of w ?cfg] run 2 by (metis io_only_client)
  then have "mut_inv s2" using inv by (simp add: mut_inv_def)
  obtain r s3 where 3: "run_state (Reconcile w (mutagen_service w) probed ?cfg) s2 = (r, s3)" by fastforce
  then obtain ss where r: "r = Inr ss"
    using mutagen.Reconcile_inv[OF \<open>mut_inv s2\<close>, of w w probed ?cfg] by (cases r) (auto simp: no_panic_def)
  let ?cs = "applySyncSummaries probed ss (sync_Enabled (cfg_Sync ?cfg))"
  have scan: "run_state (reconcile_scan w) s = (Inr (Inr (?cs, ss)), s3)"
    using run 2 3 r by (simp add: reconcile_scan_def)
  have "map ctr_ID ?cs = map ctr_ID out"
    using probe_loop_ids[OF 2] by (simp add: applySyncSummaries_def comp_def)
  then have "ctr_ID ` set ?cs = ctr_ID ` set out" by (metis set_map)
  then show ?thesis
    using scan by (simp add: reconcile_def reconcile_store_def next_containers_spec(3))
qed

text \<open>Claim C15. A reconciliation that succeeds stores exactly what it found. The containers stored are those that
  the listing returned, each under its own identifier and, when one is listed twice, the later: with the
  status that its probe decided in the course of the reconciliation, with the backend token known
  before, and with the summary of its sessions. The sessions stored are those that the
  controller reported for these containers. Neither the configuration nor pairing codes, browser
  tokens or stored tokens are touched.\<close>

theorem reconcile_result:
  assumes "run_state (reconcile w) s = (Inr None, s')"
  shows "\<exists>out s1 probed s2 s3.
    run_state (ListDevcontainers w (sv_cfg s)) s = (Inr (Inr out), s1) \<and>
    list_all2 (probed_from w (sv_cfg s) (sv_containers s) (hist s2)) out probed \<and>
    run_state (Reconcile w (mutagen_service w) probed (sv_cfg s)) s2 = (Inr (sv_sessions s'), s3) \<and>
    keyed (sv_containers s') \<and>
    map_of (sv_containers s') = map_of (rev (map (\<lambda>c. (ctr_ID c, with_summary (sv_cfg s) (sv_sessions s') c)) probed)) \<and>
    dom (map_of (sv_containers s')) = ctr_ID ` set out \<and>
    s' = s3\<lparr>sv_containers := sv_containers s', sv_sessions := sv_sessions s'\<rparr> \<and>
    s' = s\<lparr>hist := hist s', ms_client := ms_client s', sv_containers := sv_containers s', sv_sessions := sv_sessions s'\<rparr>"
proof -
  obtain cs ss s1 where 1: "run_state (reconcile_scan w) s = (Inr (Inr (cs, ss)), s1)"
    and s': "s' = s1\<lparr>sv_containers := next_containers cs, sv_sessions := ss\<rparr>"
    using assms by (rule reconcile_runE)
  obtain h c where "s1 = s\<lparr>hist := h, ms_client := c\<rparr>" using reconcile_scan_only 1 by (rule mut_onlyE)
  then have frame: "s' = s\<lparr>hist := hist s', ms_client := ms_client s', sv_containers := sv_containers s',
      sv_sessions := sv_sessions s'\<rparr>" by (simp add: s')
  obtain out s2 probed s3 where scan: "run_state (ListDevcontainers w (sv_cfg s)) s = (Inr (Inr out), s2)"
    "list_all2 (probed_from w (sv_cfg s) (sv_containers s) (hist s3)) out probed"
    "run_state (Reconcile w (mutagen_service w) probed (sv_cfg s)) s3 = (Inr ss, s1)"
    "cs = map (with_summary (sv_cfg s) ss) probed"
    using reconcile_scan_result[OF 1] by blast
  have id: "ctr_ID (with_summary cfg ss c) = ctr_ID c" for cfg c by (simp add: with_summary_def)
  have "map ctr_ID probed = map ctr_ID out"
    using scan(2) by (induction rule: list_all2_induct) (simp_all add: probed_from_fields(1))
  then have ids: "ctr_ID ` set cs = ctr_ID ` set out"
    unfolding scan(4) set_map image_image id by (metis set_map)
  have stored: "sv_containers s' = next_containers cs" "sv_sessions s' = ss" by (simp_all add: s')
  have "map_of (next_containers cs) = map_of (rev (map (\<lambda>c. (ctr_ID c, with_summary (sv_cfg s) ss c)) probed))"
    by (simp add: next_containers_spec(4) scan(4) id comp_def)
  then show ?thesis
    using scan(1-3) frame next_containers_spec(1)[of cs] next_containers_spec(3)[of cs, unfolded ids] s'
    unfolding stored by blast
qed

text \<open>Claim C33. Whenever Docker answers the listing and its inspections are complete, a reconciliation from a
  consistent Mutagen client goes through, whatever else fails (the inspection of a container, its network,
  a probe, a token, the Mutagen daemon): it does not panic, and afterwards exactly the containers of
  the listing are known.\<close>

theorem reconcile_succeeds:
  assumes "w_ContainerList w (hist s) = Inr items" and "complete_answers w" and "mut_inv s"
  shows "\<exists>out s1. run_state (ListDevcontainers w (sv_cfg s)) s = (Inr (Inr out), s1) \<and>
    fst (run_state (reconcile w) s) = Inr None \<and>
    dom (map_of (sv_containers (snd (run_state (reconcile w) s)))) = ctr_ID ` set out"
proof -
  obtain out s1 where "run_state (ListDevcontainers w (sv_cfg s)) s = (Inr (Inr out), s1)"
    using ListDevcontainers_returns[OF assms(2,1)] by blast
  then show ?thesis using reconcile_completes[OF _ assms(3)] by blast
qed

text \<open>A reconciliation that fails stores nothing: containers, sessions, tokens and the
  configuration are as before.\<close>

theorem reconcile_error:
  assumes "run_state (reconcile w) s = (Inr (Some err), s')"
  shows "s' = s\<lparr>hist := hist s', ms_client := ms_client s'\<rparr>"
proof -
  obtain r s1 where 1: "run_state (reconcile_scan w) s = (r, s1)" by fastforce
  then have "s' = s1"
    using assms by (auto simp: reconcile_def split: sum.splits prod.splits)
  moreover obtain h c where "s1 = s\<lparr>hist := h, ms_client := c\<rparr>"
    using reconcile_scan_only 1 by (rule mut_onlyE)
  ultimately show ?thesis by simp
qed

text \<open>Claim C32. A reconciliation stores for a container that stays the backend token it has read, whatever its probe
  says: not while it is stopped, unreachable or not ready is the token given up. Between the scan
  that reads it and the store other goroutines may have run (\<open>s2\<close> is any state); when none has,
  the token before is the token after. A token refreshed in between is overwritten.\<close>

theorem reconcile_keeps_token:
  assumes scan: "run_state (reconcile_scan w) s = (Inr (Inr (cs, ss)), s1)"
    and store: "run_state (reconcile_store cs ss) s2 = ((), s')"
    and "map_of (sv_containers s) i = Some old" and "t3_BackendToken (ctr_T3 old) \<noteq> []"
    and new: "map_of (sv_containers s') i = Some c"
  shows "t3_BackendToken (ctr_T3 c) = t3_BackendToken (ctr_T3 old)"
proof -
  have s': "sv_containers s' = next_containers cs" using store by (auto simp: reconcile_store_def)
  have mem: "(i, c) \<in> set (next_containers cs)" using new s' by (simp add: map_of_SomeD)
  then have "c \<in> set cs" using next_containers_spec(2)[of cs] by force
  obtain out t1 probed s3 where *: "run_state (ListDevcontainers w (sv_cfg s)) s = (Inr (Inr out), t1) \<and>
    list_all2 (probed_from w (sv_cfg s) (sv_containers s) (hist s3)) out probed \<and>
    run_state (Reconcile w (mutagen_service w) probed (sv_cfg s)) s3 = (Inr ss, s1) \<and>
    cs = map (with_summary (sv_cfg s) ss) probed"
    using reconcile_scan_result[OF scan] by (elim exE)
  then have probed: "list_all2 (probed_from w (sv_cfg s) (sv_containers s) (hist s3)) out probed"
    and cs: "cs = map (with_summary (sv_cfg s) ss) probed" by simp_all
  obtain p where p: "p \<in> set probed" "c = with_summary (sv_cfg s) ss p" using \<open>c \<in> set cs\<close> unfolding cs by auto
  obtain c0 where "probed_from w (sv_cfg s) (sv_containers s) (hist s3) c0 p"
    using probed p(1) by (metis in_set_conv_nth list_all2_conv_all_nth)
  note kept = probed_from_fields[OF this]
  have "ctr_ID c = i"
    using mem next_containers_spec(1)[of cs] unfolding keyed_def list_all_iff by auto
  then have "ctr_ID c0 = i" using kept(1) p(2) by (simp add: with_summary_def)
  then have "token_before (sv_containers s) c0 = t3_BackendToken (ctr_T3 old)"
    using assms(3) by (simp add: token_before_def)
  then show ?thesis using kept(2) assms(4) p(2) by (simp add: with_summary_def)
qed

text \<open>A request below an environment is served by a container of that environment: both lookups
  fail together, and when the environment's identifier is unique they find the same container.\<close>

theorem lookups_agree:
  assumes "keyed (sv_containers s)" and "i \<noteq> []"
    and "run_state (environment w i) s = (env, s1)" and "run_state (containerByEnv w i) s1 = (found, s2)"
  shows "(env = None) = (found = None) \<and>
    (length (filter (has_env i) (map snd (sv_containers s))) \<le> 1 \<longrightarrow> env = map_option envFromContainer found)"
proof -
  note e = environment_run[OF assms(1,3)]
  have keyed1: "keyed (sv_containers s1)" and same: "sv_containers s1 = sv_containers s"
    using e(1) assms(1) by simp_all
  note f = containerByEnv_run(2)[OF keyed1 assms(4), unfolded same]
  have none: "env = None \<longleftrightarrow> list_all (\<lambda>c. \<not> has_env i c) (map snd (sv_containers s))"
    "found = None \<longleftrightarrow> list_all (\<lambda>c. \<not> has_env i c) (map snd (sv_containers s))"
    using e(2) f assms(2) by (auto simp: list_all_iff split: option.splits)
  have "env = map_option envFromContainer found"
    if one: "length (filter (has_env i) (map snd (sv_containers s))) \<le> 1"
  proof (cases found)
    case None
    then show ?thesis using none by simp
  next
    case (Some c)
    then obtain x where x: "env = Some x" using none by fastforce
    then obtain c' where c': "c' \<in> snd ` set (sv_containers s)" "has_env i c'" "x = envFromContainer c'"
      using e(2) by auto
    have "c = c'"
      by (rule only_member[OF _ _ one]) (use f Some c' in auto)
    then show ?thesis using x Some c'(3) by simp
  qed
  then show ?thesis using none by blast
qed

text \<open>Two containers of one environment: the environment found is that of the first by name, the container
  found is the first of the map, so a request checked against the token of one container can be
  served by the other.\<close>

definition twin :: "string \<Rightarrow> string \<Rightarrow> Container" where
  "twin i name = zero_container\<lparr>ctr_ID := i, ctr_Name := name, ctr_T3 := t3_ready\<rparr>"

definition twins :: svc_state where
  "twins = \<lparr>hist = [], ms_client = newMutagenClient, gw_pairing = [], gw_browserAuth = [], pg_rows = [], sv_cfg = Default,
     sv_containers = [(''c2'', twin ''c2'' ''vsc-b''), (''c1'', twin ''c1'' ''vsc-a'')], sv_sessions = []\<rparr>"

lemma duplicate_environment:
  "map_option env_ContainerID (fst (run_state (environment offline_world ''env-1'') twins)) = Some ''c1''"
  "map_option ctr_ID (fst (run_state (containerByEnv offline_world ''env-1'') twins)) = Some ''c2''"
  by code_simp+

text \<open>The summary of a container counts its sessions and reports the first error among them, whatever the
  later ones say.\<close>

theorem summary_counts:
  assumes "enabled" and "ctr_Rule c = Some rule" and "rule_Syncs rule \<noteq> []"
  shows "let mine = filter (\<lambda>ses. ses_ContainerID ses = ctr_ID c) sessions;
      failed = filter (\<lambda>ses. ses_Error ses \<noteq> []) mine; summary = container_summary c sessions enabled in
    sum_Enabled summary \<and> sum_Sessions summary = int (length mine) \<and>
    sum_Error summary = (if failed = [] then [] else ses_Error (hd failed)) \<and>
    (mine = [] \<longrightarrow> sum_Status summary = ''idle'')"
proof -
  have count: "sum_Sessions (foldl summary_step x xs) = sum_Sessions x + int (length xs)" for x xs
    by (induction xs arbitrary: x) (simp_all add: summary_step_def Let_def)
  have enabled: "sum_Enabled (foldl summary_step x xs) = sum_Enabled x" for x xs
    by (induction xs arbitrary: x) (simp_all add: summary_step_def Let_def)
  have error: "sum_Error (foldl summary_step x xs) = (if sum_Error x \<noteq> [] then sum_Error x
      else if filter (\<lambda>ses. ses_Error ses \<noteq> []) xs = [] then []
      else ses_Error (hd (filter (\<lambda>ses. ses_Error ses \<noteq> []) xs)))" for x xs
    by (induction xs arbitrary: x) (simp_all add: summary_step_def Let_def)
  show ?thesis
    using assms by (auto simp: container_summary_def Let_def count enabled error empty_summary_def filter_empty_conv)
qed

text \<open>A session without an error that is not ready overwrites the status of an earlier failed one.\<close>

lemma summary_hides_degraded:
  assumes "ses_Error ok = []" "ses_Status ok \<notin> {[], ''ready''}"
  shows "sum_Status (foldl summary_step x (failed @ [ok])) = ses_Status ok"
  using assms by (simp add: summary_step_def Let_def)

section \<open>Witnesses\<close>

text \<open>A service that knows the container \<open>c1\<close> with a backend token, in the world of one container.\<close>

definition svc_start :: svc_state where
  "svc_start = twins\<lparr>sv_cfg := dcm_config, sv_containers := [(''c1'', set_backend_token ''bt'' (twin ''c1'' ''vsc-app''))]\<rparr>"

lemma docker_listed: "\<exists>out s1. run_state (ListDevcontainers docker_world dcm_config) svc_start = (Inr (Inr out), s1) \<and>
    map ctr_ID out = [''c1'']"
proof -
  have "case run_state (ListDevcontainers docker_world dcm_config) svc_start of
      (Inr (Inr out), s1) \<Rightarrow> map ctr_ID out = [''c1''] | _ \<Rightarrow> False"
    by code_simp
  then show ?thesis by (auto split: prod.splits sum.splits)
qed

lemma svc_fields: "sv_containers (s\<lparr>hist := h, ms_client := c\<rparr>) = sv_containers s"
  by simp

lemma svc_start_facts [simp]: "sv_cfg svc_start = dcm_config" "mut_inv svc_start"
  by (simp_all add: svc_start_def twins_def mut_inv_def client_ok_def newMutagenClient_def)

definition after_reconcile :: svc_state where
  "after_reconcile = snd (run_state (reconcile docker_world) svc_start)"

lemma docker_reconciled: "run_state (reconcile docker_world) svc_start = (Inr None, after_reconcile)"
  "dom (map_of (sv_containers after_reconcile)) = {''c1''}"
proof -
  obtain out s1 where run: "run_state (ListDevcontainers docker_world (sv_cfg svc_start)) svc_start = (Inr (Inr out), s1)"
    "map ctr_ID out = [''c1'']"
    using docker_listed by auto
  have "ctr_ID ` set out = {''c1''}" using run(2) by (metis list.set(1,2) list.set_map)
  then show "run_state (reconcile docker_world) svc_start = (Inr None, after_reconcile)"
    "dom (map_of (sv_containers after_reconcile)) = {''c1''}"
    using reconcile_completes[OF run(1)] by (simp_all add: after_reconcile_def prod_eq_iff)
qed

theorem reconcile_succeeds_witness: "dom (map_of (sv_containers after_reconcile)) = {''c1''}"
proof -
  have "nil_free (one_container nets)" if "list_all (\<lambda>(k, e). e \<noteq> None) nets" for nets
    using that by (simp add: nil_free_def one_container_def)
  then have "complete_answers docker_world"
    by (auto simp: complete_answers_def docker_world_def one_container_def)
  moreover have "w_ContainerList docker_world (hist svc_start) = Inr [\<lparr>item_ID = ''c1'', item_Status = ''Up''\<rparr>]"
    by (simp add: docker_world_def)
  ultimately obtain out s1 where
    out: "run_state (ListDevcontainers docker_world (sv_cfg svc_start)) svc_start = (Inr (Inr out), s1)"
      "dom (map_of (sv_containers after_reconcile)) = ctr_ID ` set out"
    using reconcile_succeeds[of docker_world svc_start] by (auto simp: after_reconcile_def)
  moreover have "map ctr_ID out = [''c1'']" using docker_listed out(1) by auto
  ultimately show ?thesis by (metis list.set(1,2) list.set_map)
qed

theorem reconcile_result_witness:
  "keyed (sv_containers after_reconcile) \<and> sv_cfg after_reconcile = dcm_config"
proof -
  have r: "keyed (sv_containers after_reconcile)" "after_reconcile = svc_start\<lparr>hist := hist after_reconcile,
      ms_client := ms_client after_reconcile, sv_containers := sv_containers after_reconcile,
      sv_sessions := sv_sessions after_reconcile\<rparr>"
    using reconcile_result[OF docker_reconciled(1)] by blast+
  have "sv_cfg after_reconcile = sv_cfg svc_start" by (subst r(2)) simp
  then show ?thesis using r(1) by simp
qed

theorem reconcile_error_witness:
  "sv_containers (snd (run_state (reconcile offline_world) svc_start)) = sv_containers svc_start"
proof -
  let ?r = "run_state (reconcile offline_world) svc_start"
  have "fst ?r = Inr (Some ''offline'')"
    by (simp add: reconcile_def reconcile_scan_def ListDevcontainers_def offline_world_def)
  then have "?r = (Inr (Some ''offline''), snd ?r)" by (metis prod.collapse)
  from reconcile_error[OF this] show ?thesis by (metis svc_fields)
qed

theorem reconcile_keeps_token_witness:
  "map_option (\<lambda>c. t3_BackendToken (ctr_T3 c)) (map_of (sv_containers after_reconcile) ''c1'') = Some ''bt''"
proof -
  obtain c where c: "map_of (sv_containers after_reconcile) ''c1'' = Some c"
    using docker_reconciled(2) by blast
  have old: "map_of (sv_containers svc_start) ''c1'' = Some (set_backend_token ''bt'' (twin ''c1'' ''vsc-app''))"
    by (simp add: svc_start_def)
  obtain cs ss s1 where scan: "run_state (reconcile_scan docker_world) svc_start = (Inr (Inr (cs, ss)), s1)"
    "after_reconcile = s1\<lparr>sv_containers := next_containers cs, sv_sessions := ss\<rparr>"
    using docker_reconciled(1) by (rule reconcile_runE)
  have "run_state (reconcile_store cs ss) s1 = ((), after_reconcile)"
    by (simp add: reconcile_store_def scan(2))
  from reconcile_keeps_token[OF scan(1) this old _ c] have "t3_BackendToken (ctr_T3 c) = ''bt''"
    by (simp add: set_backend_token_def)
  then show ?thesis using c by simp
qed

theorem lookups_agree_witness:
  "fst (run_state (environment offline_world ''env-1'') svc_start) =
     map_option envFromContainer (fst (run_state (containerByEnv offline_world ''env-1'')
       (snd (run_state (environment offline_world ''env-1'') svc_start))))"
proof -
  let ?e = "run_state (environment offline_world ''env-1'') svc_start"
  let ?c = "run_state (containerByEnv offline_world ''env-1'') (snd ?e)"
  have k: "keyed (sv_containers svc_start)" "length (filter (has_env ''env-1'') (map snd (sv_containers svc_start))) \<le> 1"
    by (simp_all add: keyed_def svc_start_def twin_def set_backend_token_def set_t3_def)
  have "?e = (fst ?e, snd ?e)" "?c = (fst ?c, snd ?c)" by simp_all
  from lookups_agree[OF k(1) _ this] show ?thesis using k(2) by simp
qed

theorem summary_counts_witness:
  "sum_Error (container_summary (example_container ''c1'')
     [(desiredSession (example_container ''c1'') ''default'' 0 example_sync)\<lparr>ses_Error := ''boom''\<rparr>] True) = ''boom''"
  using summary_counts[of True "example_container ''c1''" _
      "[(desiredSession (example_container ''c1'') ''default'' 0 example_sync)\<lparr>ses_Error := ''boom''\<rparr>]"]
  by (simp add: Let_def example_container_def desiredSession_def case_prod_unfold)

end
