(* ===== verification/Server.thy ===== *)
theory Server
  imports Service
begin

text \<open>
  What drives the service: the routes of \<open>Service.routes\<close> (with the part of Go's \<open>ServeMux\<close> they
  use), and the goroutines \<open>watchDocker\<close>, \<open>watchConfig\<close> and \<open>periodicReconcile\<close> as reactions to
  messages, put together as a step relation on the state of the running service. The invariants
  of the reachable states are proved by rule induction. The static web page is not modelled;
  requests with escaped slashes or dots in their path are not either (the mux matches the
  escaped path).
\<close>

section \<open>Routes\<close>

datatype route =
    Healthz | ApiContainers | ApiEnvironments | ApiSessions | EnvironmentAction | EnvProxy
  | WebFiles | RedirectTo string

text \<open>\<open>cleanPath\<close> of \<open>net/http\<close>: a cleaned rooted path that keeps its trailing slash.\<close>

definition mux_clean :: "string \<Rightarrow> string" where
  "mux_clean p =
     (let rooted = (if HasPrefix p ''/'' then p else CHR ''/'' # p); np = path_Clean rooted in
      if last rooted = CHR ''/'' \<and> np \<noteq> ''/'' then np @ ''/'' else np)"

definition is_GET :: "string \<Rightarrow> bool" where
  "is_GET m \<longleftrightarrow> m = ''GET'' \<or> m = ''HEAD''"

text \<open>The most specific pattern; \<open>/\<close> takes what is left. A path that lacks only the slash of a pattern is redirected.\<close>

definition mux_match :: "string \<Rightarrow> string \<Rightarrow> route" where
  "mux_match m p =
     (if p = ''/healthz'' \<and> is_GET m then Healthz
      else if p = ''/api/containers'' \<and> is_GET m then ApiContainers
      else if p = ''/api/environments'' \<and> is_GET m then ApiEnvironments
      else if p = ''/api/sessions'' \<and> is_GET m then ApiSessions
      else if HasPrefix p ''/api/environments/'' \<and> m = ''POST'' then EnvironmentAction
      else if HasPrefix p ''/env/'' then EnvProxy
      else if p = ''/env'' \<or> p = ''/api/environments'' \<and> m = ''POST'' then RedirectTo (p @ ''/'')
      else WebFiles)"

definition mux_route :: "in_request \<Rightarrow> route" where
  "mux_route r =
     (let p = (if in_Method r = ''CONNECT'' then in_Path r else mux_clean (in_Path r));
          matched = mux_match (in_Method r) p
      in case matched of RedirectTo t \<Rightarrow> matched
         | _ \<Rightarrow> if p \<noteq> in_Path r then RedirectTo p else matched)"

datatype response = Replied reply | Redirected string | Static

definition api_containers :: "world \<Rightarrow> ('z svc_state_scheme, reply) state" where
  "api_containers w = do {
     cs \<leftarrow> containerList w;
     State_Monad.return (JSON_reply 200 (JObj [(''containers'', JArr (map (container_json w) cs))]))
   }"

definition api_environments :: "world \<Rightarrow> ('z svc_state_scheme, reply) state" where
  "api_environments w = do {
     es \<leftarrow> environments w;
     State_Monad.return (JSON_reply 200 (JObj [(''environments'', JArr (map (environment_json w) es))]))
   }"

definition api_sessions :: "world \<Rightarrow> ('z svc_state_scheme, reply) state" where
  "api_sessions w = do {
     ss \<leftarrow> sessionList w;
     State_Monad.return (JSON_reply 200 (JObj [(''sessions'', json_slice session_json ss)]))
   }"

definition replied :: "('s, reply) state \<Rightarrow> ('s, response go) state" where
  "replied m = do { reply \<leftarrow> m; State_Monad.return (Inr (Replied reply)) }"

definition routes :: "world \<Rightarrow> ('z svc_state_scheme) service \<Rightarrow> in_request \<Rightarrow> ('z svc_state_scheme, response go) state" where
  "routes w svc r = (case mux_route r of
       Healthz \<Rightarrow> replied (State_Monad.return (JSON_reply 200 (JObj [(''status'', JStr ''ok'')])))
     | ApiContainers \<Rightarrow> replied (api_containers w)
     | ApiEnvironments \<Rightarrow> replied (api_environments w)
     | ApiSessions \<Rightarrow> replied (api_sessions w)
     | EnvironmentAction \<Rightarrow> replied (handleEnvironmentAction w r)
     | EnvProxy \<Rightarrow> bind_sum (handleEnvProxy w svc r) (\<lambda>reply. State_Monad.return (Inr (Replied reply)))
     | WebFiles \<Rightarrow> State_Monad.return (Inr Static)
     | RedirectTo t \<Rightarrow> State_Monad.return (Inr (Redirected t)))"

section \<open>Reactions\<close>

text \<open>
  \<open>watchDocker\<close>: a message of the event stream, the end of the stream, or an error (nil, a
  cancellation, or another). Its result is that of the reconciliation, a panic included.
\<close>

datatype docker_message = DockerEvent | StreamClosed | StreamError "string option" bool

definition watchDocker_on :: "world \<Rightarrow> docker_message \<Rightarrow> ('z svc_state_scheme, unit go) state" where
  "watchDocker_on w msg = (case msg of
       DockerEvent \<Rightarrow> bind_sum (reconcile w) (\<lambda>_. State_Monad.return (Inr ()))
     | StreamClosed \<Rightarrow> do { Events; State_Monad.return (Inr ()) }
     | StreamError err canceled \<Rightarrow>
         if err \<noteq> None \<and> \<not> canceled then do { Events; State_Monad.return (Inr ()) }
         else State_Monad.return (Inr ()))"

text \<open>\<open>watchConfig\<close>: an event of the watched directory arms the timer, anew if it was armed.\<close>

definition watchConfig_event :: "string \<Rightarrow> string \<Rightarrow> bool \<Rightarrow> bool" where
  "watchConfig_event configPath name armed =
     (if filepath_Clean name = filepath_Clean configPath then True else armed)"

text \<open>The timer's firing; \<open>yaml\<close> is the decoder of the YAML package.\<close>

definition watchConfig_fire :: "world \<Rightarrow> (string \<Rightarrow> Config \<Rightarrow> Config res) \<Rightarrow> string \<Rightarrow> ('z svc_state_scheme, unit go) state" where
  "watchConfig_fire w yaml configPath = do {
     (cfg, err) \<leftarrow> Load w yaml configPath;
     case err of
       Some _ \<Rightarrow> State_Monad.return (Inr ())
     | None \<Rightarrow> do {
         put_cfg cfg;
         bind_sum (reconcile w) (\<lambda>_. State_Monad.return (Inr ()))
       }
   }"

definition periodic_tick :: "world \<Rightarrow> ('z svc_state_scheme, unit go) state" where
  "periodic_tick w = bind_sum (reconcile w) (\<lambda>_. State_Monad.return (Inr ()))"

section \<open>The running service\<close>

text \<open>
  A configuration of the running service is its state and whether the reload timer is armed.
  A step is a served request, one reaction or a call on the file watcher, each from its beginning to
  its end: the states reached this way are those of a process whose handlers and reactions do not
  overlap. (How their parts interleave is the subject of \<open>Interleaving\<close> and \<open>ClientRace\<close>.) A panic
  in a handler is caught by the HTTP server; one in a reaction ends the process, so there is no
  step for it.
\<close>

type_synonym running = "svc_state \<times> bool"

fun watcher_call :: "call \<Rightarrow> bool" where
  "watcher_call CallNewWatcher = True"
| "watcher_call (CallWatcherAdd _) = True"
| "watcher_call CallWatcherClose = True"
| "watcher_call _ = False"

inductive svc_step :: "world \<Rightarrow> (string \<Rightarrow> Config \<Rightarrow> Config res) \<Rightarrow> svc_state service \<Rightarrow> running \<Rightarrow> running \<Rightarrow> bool"
  for w yaml svc where
  step_request: "run_state (routes w svc r) s = (reply, s') \<Longrightarrow> svc_step w yaml svc (s, armed) (s', armed)"
| step_docker: "run_state (watchDocker_on w msg) s = (Inr (), s') \<Longrightarrow> svc_step w yaml svc (s, armed) (s', armed)"
| step_event: "svc_step w yaml svc (s, armed) (s, watchConfig_event (svc_configPath svc) name armed)"
| step_fire: "run_state (watchConfig_fire w yaml (svc_configPath svc)) s = (Inr (), s') \<Longrightarrow>
    svc_step w yaml svc (s, True) (s', False)"
| step_tick: "run_state (periodic_tick w) s = (Inr (), s') \<Longrightarrow> svc_step w yaml svc (s, armed) (s', armed)"
| step_watcher: "watcher_call c \<Longrightarrow> svc_step w yaml svc (s, armed) (s\<lparr>hist := c # hist s\<rparr>, armed)"

text \<open>\<open>Run\<close> starts with a reconciliation, whose failure is only logged.\<close>

inductive reachable :: "world \<Rightarrow> (string \<Rightarrow> Config \<Rightarrow> Config res) \<Rightarrow> svc_state service \<Rightarrow> svc_state \<Rightarrow> running \<Rightarrow> bool"
  for w yaml svc s0 where
  reach_start: "run_state (reconcile w) s0 = (Inr err, s) \<Longrightarrow> reachable w yaml svc s0 (s, False)"
| reach_step: "reachable w yaml svc s0 c \<Longrightarrow> svc_step w yaml svc c c' \<Longrightarrow> reachable w yaml svc s0 c'"

inductive_cases svc_stepE: "svc_step w yaml svc (s, armed) (s', armed')"
inductive_simps svc_step_simps: "svc_step w yaml svc (s, armed) c"

end
