(* ===== verification/Invariants.thy ===== *)
theory Invariants
  imports Server
begin

text \<open>
  Invariants of the running service, by rule induction over its steps: the container map stays
  keyed by identifier, the Mutagen client stays consistent, and every browser token that is
  accepted anywhere was drawn by a bootstrap or was in the table when the service started. The
  first section carries a preorder on states through the handlers of the gateway.
\<close>

section \<open>Handlers as steps of a preorder\<close>

context io_order
begin

lemma moves_with_refresh:
  assumes "\<And>t. moves_by R (do_request t)" "\<And>f. refresh = Some f \<Longrightarrow> moves_by R f"
  shows "moves_by R (with_refresh refresh token do_request)"
proof (cases refresh)
  case None
  then show ?thesis unfolding with_refresh_def by (auto intro!: io_rules assms(1) split: sum.split)
next
  case (Some f)
  note f = assms(2)[OF Some]
  show ?thesis unfolding with_refresh_def Some by (auto intro!: io_rules assms(1) f split: sum.split)
qed

lemma moves_client_Do: "moves_by R (client_Do w m url h b)"
  by (rule moves_io[OF client_Do_io[where P = "\<lambda>_. True"]]) simp

lemma moves_proxyHTTP:
  "(\<And>f. refresh = Some f \<Longrightarrow> moves_by R f) \<Longrightarrow> moves_by R (proxyHTTP w r rest status refresh)"
  unfolding proxyHTTP_def proxy_do_def by (intro io_rules moves_with_refresh moves_client_Do) simp_all

lemma moves_backendJSON:
  "(\<And>f. refresh = Some f \<Longrightarrow> moves_by R f) \<Longrightarrow> moves_by R (backendJSON w status refresh m rest input decode)"
  unfolding backendJSON_def backend_do_def by (intro io_rules moves_with_refresh moves_client_Do) simp_all

lemma moves_dispatch:
  "(\<And>f. refresh = Some f \<Longrightarrow> moves_by R f) \<Longrightarrow> moves_by R (dispatch w status refresh command)"
  unfolding dispatch_def by (intro io_rules moves_backendJSON) simp_all

lemma moves_dcm_id: "moves_by R (dcm_id w kind)"
  unfolding dcm_id_def randomToken_def randomBytes_def by (intro io_rules)

lemma moves_openStageThread:
  "(\<And>f. refresh = Some f \<Longrightarrow> moves_by R f) \<Longrightarrow> moves_by R (openStageThread w status refresh req)"
  unfolding openStageThread_def ensure_project_def start_thread_def time_Now_def
  by (intro io_rules moves_backendJSON moves_dispatch moves_dcm_id) simp_all

lemma moves_run_stage:
  "(\<And>f. refresh = Some f \<Longrightarrow> moves_by R f) \<Longrightarrow> moves_by R (run_stage w (dockerx_client w) c refresh req)"
  unfolding run_stage_def write_scope_def
  by (intro io_rules moves_openStageThread moves_io[OF dockerx.stdin_law]) simp_all

lemma moves_proxyWebsocket:
  "(\<And>f. refresh = Some f \<Longrightarrow> moves_by R f) \<Longrightarrow> moves_by R (proxyWebsocket w r rest status refresh)"
proof -
  assume refresh: "\<And>f. refresh = Some f \<Longrightarrow> moves_by R f"
  have issue: "moves_by R (issueWSToken w status)" for status
    unfolding issueWSToken_def by (intro io_rules moves_client_Do)
  have retry: "moves_by R (case (issued, refresh) of (Inl err, Some f) \<Rightarrow> State_Monad.bind f (\<lambda>refreshed. case refreshed of
      Inl _ \<Rightarrow> State_Monad.return issued | Inr token \<Rightarrow> issueWSToken w (status\<lparr>t3_BackendToken := token\<rparr>))
    | _ \<Rightarrow> State_Monad.return issued)" for issued
  proof (cases refresh)
    case (Some f)
    note f = refresh[OF Some]
    show ?thesis unfolding Some by (cases issued) (auto intro!: io_rules issue f split: sum.split)
  qed (cases issued, simp_all add: io_rules)
  show ?thesis unfolding proxyWebsocket_def by (intro io_rules issue retry)
qed

end

section \<open>What the gateway's own operations change\<close>

definition gw_only :: "'z pg_state_scheme \<Rightarrow> 'z pg_state_scheme \<Rightarrow> bool" where
  "gw_only s s' \<longleftrightarrow> s' = s\<lparr>hist := hist s', gw_pairing := gw_pairing s', gw_browserAuth := gw_browserAuth s',
     pg_rows := pg_rows s'\<rparr>"

interpretation gwf: io_order gw_only
proof
  show "gw_only s s" for s :: "'z pg_state_scheme" by (simp add: gw_only_def)
  show "gw_only s s2" if "gw_only s s1" "gw_only s1 s2" for s s1 s2 :: "'z pg_state_scheme"
  proof -
    have "s2 = (s\<lparr>hist := hist s1, gw_pairing := gw_pairing s1, gw_browserAuth := gw_browserAuth s1,
        pg_rows := pg_rows s1\<rparr>)\<lparr>hist := hist s2, gw_pairing := gw_pairing s2, gw_browserAuth := gw_browserAuth s2,
        pg_rows := pg_rows s2\<rparr>"
      using that unfolding gw_only_def by metis
    then show ?thesis by (simp add: gw_only_def)
  qed
qed (simp add: gw_only_def)

lemma gw_only_primitives:
  "moves_by gw_only get_auth" "moves_by gw_only (put_auth a)" "moves_by gw_only get_pairing"
  "moves_by gw_only (put_pairing p)" "moves_by gw_only get_rows" "moves_by gw_only (update_rows f)"
  by (simp_all add: moves_by_def gw_only_def)

lemma gw_only_store:
  "moves_by gw_only (pg_Save w i t e)" "moves_by gw_only (pg_Get w i)" "moves_by gw_only (pg_Delete w i)"
proof -
  have exec: "moves_by gw_only (pool_Exec w stmt :: ('z pg_state_scheme, string option) state)" for stmt
    unfolding pool_Exec_def by (auto intro!: gwf.io_rules gw_only_primitives split: db_outcome.split)
  show "moves_by gw_only (pg_Save w i t e :: ('z pg_state_scheme, string option) state)"
    "moves_by gw_only (pg_Delete w i :: ('z pg_state_scheme, string option) state)"
    unfolding pg_Save_def pg_Delete_def by (rule exec)+
  show "moves_by gw_only (pg_Get w i :: ('z pg_state_scheme, (browserToken \<times> bool) res) state)"
    unfolding pg_Get_def by (intro gwf.io_rules gw_only_primitives)
qed

text \<open>The store of the service: none, or the one over Postgres.\<close>

definition store_ok :: "world \<Rightarrow> ('z pg_state_scheme) token_store option \<Rightarrow> bool" where
  "store_ok w ts \<longleftrightarrow> ts = None \<or> ts = Some (postgres_store w)"

lemma gw_only_authorized:
  assumes "store_ok w ts"
  shows "moves_by gw_only (authorizedWithStore w ts r envID storeID)"
proof -
  have cached: "moves_by gw_only (cached_check w envID t :: ('z pg_state_scheme, bool) state)" for t
    unfolding cached_check_def time_Now_def by (intro gwf.io_rules gw_only_primitives)
  have stored: "moves_by gw_only (store_check w (postgres_store w) storeID t :: ('z pg_state_scheme, browserToken option) state)" for t
    unfolding store_check_def time_Now_def postgres_store_def token_store.select_convs
    by (intro gwf.io_rules gw_only_primitives gw_only_store)
  have cache: "moves_by gw_only (cache_token envID t e :: ('z pg_state_scheme, unit) state)" for t e
    unfolding cache_token_def by (intro gwf.io_rules gw_only_primitives)
  show ?thesis
    using assms unfolding authorizedWithStore_def store_ok_def
    by (elim disjE) (auto intro!: gwf.io_rules cached stored cache split: option.split)
qed

lemma gw_only_bootstrap:
  assumes "store_ok w ts"
  shows "moves_by gw_only (handleBootstrap w ts r env)"
proof -
  have save: "moves_by gw_only (store_Save ts i t e)" for i t e
    using assms unfolding store_Save_def store_ok_def postgres_store_def
    by (auto intro!: gwf.io_rules gw_only_store split: option.split)
  show ?thesis
    unfolding handleBootstrap_def redeem_def deleteBrowserTokensLocked_def randomToken_def randomBytes_def time_Now_def
    by (intro gwf.io_rules gw_only_primitives save)
qed

lemma gw_only_generate: "moves_by gw_only (GeneratePairingCode w envID)"
  unfolding GeneratePairingCode_def randomCode_def randomBytes_def time_Now_def
  by (intro gwf.io_rules gw_only_primitives)

section \<open>Where tokens come from\<close>

text \<open>
  A token is accounted for when it is one of those the table had at the start, or the encoding
  of 32 random bytes that were drawn since; only a bootstrap draws 32 bytes.
\<close>

definition accounted :: "world \<Rightarrow> string set \<Rightarrow> call list \<Rightarrow> string \<Rightarrow> bool" where
  "accounted w old h t \<longleftrightarrow> t \<in> old \<or> (\<exists>h0. suffix (CallRand 32 # h0) h \<and> t = base64_url (w_Rand w h0 32))"

definition tokens_ok :: "world \<Rightarrow> string set \<Rightarrow> 'z pg_state_scheme \<Rightarrow> bool" where
  "tokens_ok w old s \<longleftrightarrow>
     list_all (\<lambda>(t, e). bt_Token e = t \<and> accounted w old (hist s) t) (gw_browserAuth s) \<and>
     list_all (\<lambda>(i, row). accounted w old (hist s) (row_token row)) (pg_rows s)"

lemma accounted_mono: "accounted w old h t \<Longrightarrow> accounted w old (n @ h) t"
  unfolding accounted_def by (auto intro: suffix_appendI)

lemma accounted_Cons: "accounted w old h t \<Longrightarrow> accounted w old (c # h) t"
  using accounted_mono[of w old h t "[c]"] by simp

lemma tokens_ok_hist: "tokens_ok w old s \<Longrightarrow> tokens_ok w old (s\<lparr>hist := n @ hist s\<rparr>)"
  unfolding tokens_ok_def by (auto simp: list_all_iff intro: accounted_mono)

lemma tokens_ok_cong:
  "gw_browserAuth s' = gw_browserAuth s \<Longrightarrow> pg_rows s' = pg_rows s \<Longrightarrow> hist s' = hist s \<Longrightarrow>
     tokens_ok w old s' = tokens_ok w old s"
  by (simp add: tokens_ok_def)

lemma list_all_update: "list_all P xs \<Longrightarrow> P (k, v) \<Longrightarrow> list_all P (AList.update k v xs)"
  by (induction xs) auto

lemma list_all_delete: "list_all P xs \<Longrightarrow> list_all P (AList.delete k xs)"
  by (induction xs) (auto simp: AList.delete_eq)

lemma pool_Exec_tokens:
  assumes run: "run_state (pool_Exec w stmt) s = (e, s')" and ok: "tokens_ok w old s"
    and new: "case stmt of DbUpsert i t x \<Rightarrow> accounted w old (hist s) t | _ \<Rightarrow> True"
  shows "tokens_ok w old s' \<and> (\<exists>n. hist s' = n @ hist s)"
proof -
  let ?P = "\<lambda>(i :: string, row). accounted w old (CallDb stmt # hist s) (row_token row)"
  have auth: "list_all (\<lambda>(t, e). bt_Token e = t \<and> accounted w old (CallDb stmt # hist s) t) (gw_browserAuth s)"
    and keep: "list_all ?P (pg_rows s)"
    using ok by (auto simp: tokens_ok_def list_all_iff intro: accounted_Cons)
  have rows: "list_all ?P (pg_apply stmt now (pg_rows s))" for now
  proof (cases stmt)
    case (DbUpsert i t x)
    then have "accounted w old (CallDb stmt # hist s) t" using new by (simp add: accounted_Cons)
    then show ?thesis unfolding DbUpsert pg_apply.simps
      by (intro list_all_update) (use keep DbUpsert in simp_all)
  next
    case (DbDelete i)
    then show ?thesis using list_all_delete[OF keep] by simp
  qed (use keep in simp_all)
  show ?thesis
    using run rows auth keep by (auto simp: pool_Exec_run Let_def tokens_ok_def split: db_outcome.splits)
qed

lemma tokens_ok_auth:
  "tokens_ok w old (s\<lparr>gw_browserAuth := a\<rparr>) \<longleftrightarrow>
     list_all (\<lambda>(t, e). bt_Token e = t \<and> accounted w old (hist s) t) a \<and>
     list_all (\<lambda>(i, row). accounted w old (hist s) (row_token row)) (pg_rows s)"
  by (simp add: tokens_ok_def)

lemma redeem_tokens:
  assumes run: "run_state (redeem w ts code env) s = (reply, s')" and ts: "store_ok w ts" and ok: "tokens_ok w old s"
  shows "tokens_ok w old s'"
proof -
  define t where "t = base64_url (w_Rand w (hist s) 32)"
  let ?s1 = "s\<lparr>gw_pairing := AList.delete code (gw_pairing s), hist := CallNow # CallRand 32 # hist s\<rparr>"
  let ?e = "w_Now w (CallRand 32 # hist s) + 24 * hour"
  have t: "accounted w old (CallNow # CallRand 32 # hist s) t"
    unfolding accounted_def t_def by (metis suffix_Cons suffix_order.refl)
  have ok1: "tokens_ok w old ?s1"
    using tokens_ok_hist[OF ok, of "[CallNow, CallRand 32]"] by (simp add: tokens_ok_def)
  obtain err s2 where 2: "run_state (store_Save ts (store_key env) t ?e) ?s1 = (err, s2)" by fastforce
  have s2: "tokens_ok w old s2 \<and> (\<exists>n. hist s2 = n @ hist ?s1)"
  proof (cases ts)
    case (Some st)
    then have "run_state (pool_Exec w (DbUpsert (store_key env) t ?e)) ?s1 = (err, s2)"
      using 2 ts by (simp add: store_Save_def store_ok_def postgres_store_def pg_Save_def)
    then show ?thesis by (rule pool_Exec_tokens) (use ok1 t in simp_all)
  qed (use 2 ok1 in \<open>simp add: store_Save_def\<close>)
  then have t2: "accounted w old (hist s2) t" using t accounted_mono by fastforce
  show ?thesis
  proof (cases err)
    case (Some x)
    then have "s' = s2" using run 2 unfolding redeem_def by (simp add: t_def Let_def)
    then show ?thesis using s2 by simp
  next
    case None
    let ?a = "AList.update t \<lparr>bt_Token = t, bt_EnvID = env_ID env, bt_ExpiresAt = ?e\<rparr>
        (filter (\<lambda>(t, x). bt_EnvID x \<noteq> env_ID env) (gw_browserAuth s2))"
    have s': "s' = s2\<lparr>gw_browserAuth := ?a\<rparr>" using run 2 None unfolding redeem_def by (simp add: t_def Let_def)
    have "list_all (\<lambda>(t, e). bt_Token e = t \<and> accounted w old (hist s2) t)
        (filter (\<lambda>(t, x). bt_EnvID x \<noteq> env_ID env) (gw_browserAuth s2))"
      using s2 by (auto simp: tokens_ok_def list_all_iff)
    then show ?thesis
      unfolding s' tokens_ok_auth using s2 t2 by (auto simp: tokens_ok_def intro!: list_all_update)
  qed
qed

lemma bootstrap_tokens:
  assumes run: "run_state (handleBootstrap w ts r env) s = (reply, s')" and ts: "store_ok w ts" and ok: "tokens_ok w old s"
  shows "tokens_ok w old s'"
  using run
proof (cases rule: handleBootstrap_cases)
  case refused
  then show ?thesis using ok tokens_ok_hist by (auto simp: only_hist_def)
next
  case (redeemed entry)
  show ?thesis
    by (rule redeem_tokens[OF redeemed(4) ts]) (use tokens_ok_hist[OF ok, of "[CallNow]"] in simp)
qed

text \<open>The preservation of the invariant as a preorder: calls are only added.\<close>

definition tok_keep :: "world \<Rightarrow> string set \<Rightarrow> 'z pg_state_scheme \<Rightarrow> 'z pg_state_scheme \<Rightarrow> bool" where
  "tok_keep w old s s' \<longleftrightarrow> (\<exists>n. hist s' = n @ hist s) \<and> (tokens_ok w old s \<longrightarrow> tokens_ok w old s')"

lemma tok_keepI: "(\<exists>n. hist s' = n @ hist s) \<Longrightarrow> (tokens_ok w old s \<Longrightarrow> tokens_ok w old s') \<Longrightarrow> tok_keep w old s s'"
  by (simp add: tok_keep_def)

interpretation tok: io_order "tok_keep w old"
proof
  show "tok_keep w old s s" for s :: "'z pg_state_scheme" by (simp add: tok_keep_def)
  show "tok_keep w old s s2" if steps: "tok_keep w old s s1" "tok_keep w old s1 s2" for s s1 s2 :: "'z pg_state_scheme"
  proof (rule tok_keepI)
    obtain n1 n2 where "hist s1 = n1 @ hist s" "hist s2 = n2 @ hist s1" using steps unfolding tok_keep_def by blast
    then show "\<exists>n. hist s2 = n @ hist s" by simp
  qed (use steps in \<open>simp add: tok_keep_def\<close>)
qed (simp add: tok_keep_def tokens_ok_hist)

text \<open>A change outside the maps, the table and the history is a step of the preorder.\<close>

lemma tok_keep_other:
  "gw_browserAuth s' = gw_browserAuth s \<Longrightarrow> pg_rows s' = pg_rows s \<Longrightarrow> hist s' = hist s \<Longrightarrow> tok_keep w old s s'"
  by (rule tok_keepI) (simp_all add: tokens_ok_def)

lemma tok_primitives:
  "moves_by (tok_keep w old) get_auth" "moves_by (tok_keep w old) get_pairing" "moves_by (tok_keep w old) (put_pairing p)"
  "moves_by (tok_keep w old) get_rows" "moves_by (tok_keep w old) get_client" "moves_by (tok_keep w old) (put_client c)"
  by (auto simp: moves_by_def intro: tok_keep_other)

lemma tok_store: "moves_by (tok_keep w old) (pg_Get w i)" "moves_by (tok_keep w old) (pg_Delete w i)"
proof -
  show "moves_by (tok_keep w old) (pg_Delete w i :: ('z pg_state_scheme, string option) state)"
  proof (rule moves_byI)
    fix s :: "'z pg_state_scheme" and a s' assume run: "run_state (pg_Delete w i) s = (a, s')"
    then have "\<exists>n. hist s' = n @ hist s"
      by (cases "w_Db w (hist s)") (auto simp: pg_Delete_def pool_Exec_run Let_def)
    then show "tok_keep w old s s'"
      using pool_Exec_tokens[OF run[unfolded pg_Delete_def]] by (auto intro: tok_keepI)
  qed
  show "moves_by (tok_keep w old) (pg_Get w i :: ('z pg_state_scheme, (browserToken \<times> bool) res) state)"
    unfolding pg_Get_def by (intro tok.io_rules tok_primitives)
qed

lemma tok_store_check: "moves_by (tok_keep w old) (store_check w (postgres_store w) i t)"
  unfolding store_check_def time_Now_def postgres_store_def token_store.select_convs
  by (intro tok.io_rules tok_store)

text \<open>An accepted token is accounted for, and caching it keeps the invariant.\<close>

lemma cached_check_accounted:
  assumes "run_state (cached_check w envID t) s = (True, s')" "tokens_ok w old s"
  shows "accounted w old (hist s) t"
  using cached_check_run[OF assms(1)] assms(2) by (auto simp: tokens_ok_def list_all_iff dest!: map_of_SomeD)

lemma store_check_row:
  assumes "run_state (store_check w (postgres_store w) i t) s = (Some e, s')"
  shows "bt_Token e = t \<and> (\<exists>row. (i, row) \<in> set (pg_rows s) \<and> row_token row = t)"
proof -
  have "pg_view s i = Some e" "bt_Token e = t"
    using postgres.store_check_run[OF assms] by auto
  then show ?thesis by (auto simp: pg_view_def token_row_def dest!: map_of_SomeD)
qed

lemma row_accounted: "tokens_ok w old s \<Longrightarrow> (i, row) \<in> set (pg_rows s) \<Longrightarrow> accounted w old (hist s) (row_token row)"
  by (auto simp: tokens_ok_def list_all_iff)

lemma cache_token_run:
  "run_state (cache_token envID t e) s =
     ((), s\<lparr>gw_browserAuth := AList.update t (e\<lparr>bt_EnvID := envID\<rparr>) (gw_browserAuth s)\<rparr>)"
  by (simp add: cache_token_def)

lemma authorized_tokens:
  assumes run: "run_state (authorizedWithStore w ts r envID storeID) s = (ok, s')" and ts: "store_ok w ts"
    and inv: "tokens_ok w old s"
  shows "tokens_ok w old s' \<and>
    (ok \<longrightarrow> (\<exists>t. bearer_token (in_Header r) = Some t \<and> accounted w old (hist s) t))"
proof (cases "bearer_token (in_Header r)")
  case None
  then show ?thesis using run inv by (simp add: authorizedWithStore_def)
next
  case (Some t)
  obtain c s1 where 1: "run_state (cached_check w envID t) s = (c, s1)" by fastforce
  have s1: "only_hist s s1" using cached_check_run[OF 1] by simp
  then have inv1: "tokens_ok w old s1" using inv tokens_ok_hist by (auto simp: only_hist_def)
  show ?thesis
  proof (cases c)
    case True
    then have "s' = s1" using run Some 1 by (simp add: authorizedWithStore_def)
    then show ?thesis using cached_check_accounted[of w envID t s s1] 1 True inv inv1 Some by simp
  next
    case False
    show ?thesis
    proof (cases ts)
      case None
      then have "s' = s1" "\<not> ok" using run Some 1 False by (simp_all add: authorizedWithStore_def)
      then show ?thesis using inv1 by simp
    next
      case (Some st)
      then have st: "st = postgres_store w" using ts by (simp add: store_ok_def)
      obtain found s2 where 2: "run_state (store_check w (postgres_store w) storeID t) s1 = (found, s2)" by fastforce
      have s2: "tokens_ok w old s2" "\<exists>n. hist s2 = n @ hist s1"
        using moves_byD[OF tok_store_check 2] inv1 by (auto simp: tok_keep_def)
      note run' = run[unfolded authorizedWithStore_def \<open>bearer_token (in_Header r) = Some t\<close>]
      show ?thesis
      proof (cases found)
        case None
        then have "s' = s2" "\<not> ok" using run' 1 False Some st 2 by simp_all
        then show ?thesis using s2 by simp
      next
        case found: (Some e)
        then have s': "s' = s2\<lparr>gw_browserAuth := AList.update t (e\<lparr>bt_EnvID := envID\<rparr>) (gw_browserAuth s2)\<rparr>"
          using run' 1 False Some st 2 by (simp add: cache_token_run)
        obtain row where row: "bt_Token e = t" "(storeID, row) \<in> set (pg_rows s1)" "row_token row = t"
          using store_check_row[OF 2[unfolded found]] by auto
        have acc: "accounted w old (hist s) t"
          using row s1 row_accounted[OF inv, of storeID row] by (auto simp: only_hist_def)
        have "accounted w old (hist s1) t" using row row_accounted[OF inv1, of storeID row] by simp
        then have "accounted w old (hist s2) t" using s2(2) accounted_mono by fastforce
        then have "tokens_ok w old s'"
          unfolding s' tokens_ok_auth using s2(1) row(1) by (auto simp: tokens_ok_def intro!: list_all_update)
        then show ?thesis using acc \<open>bearer_token (in_Header r) = Some t\<close> by simp
      qed
    qed
  qed
qed

section \<open>The invariant of the service\<close>

definition svc_inv :: "world \<Rightarrow> string set \<Rightarrow> 'z svc_state_scheme \<Rightarrow> bool" where
  "svc_inv w old s \<longleftrightarrow> keyed (sv_containers s) \<and> mut_inv s \<and> tokens_ok w old s"

text \<open>Its preservation, while a container stays known.\<close>

definition svc_keep :: "world \<Rightarrow> string set \<Rightarrow> string \<Rightarrow> 'z svc_state_scheme \<Rightarrow> 'z svc_state_scheme \<Rightarrow> bool" where
  "svc_keep w old i s s' \<longleftrightarrow> (\<exists>n. hist s' = n @ hist s) \<and>
     (svc_inv w old s \<and> i \<in> dom (map_of (sv_containers s)) \<longrightarrow>
      svc_inv w old s' \<and> i \<in> dom (map_of (sv_containers s')))"

locale gw_order = io_order R for R :: "'z gw_state_scheme \<Rightarrow> 'z gw_state_scheme \<Rightarrow> bool"
begin

lemma moves_ServeSpawnStage:
  assumes "\<And>envID k. moves_by R (authorizedWithStore w ts r envID k)" "\<And>f. refresh = Some f \<Longrightarrow> moves_by R f"
  shows "moves_by R (ServeSpawnStage w ts (dockerx_client w) r c refresh)"
proof -
  have stage: "moves_by R (run_stage w (dockerx_client w) c refresh req)" for req
    by (rule moves_run_stage) (erule assms(2))
  show ?thesis unfolding ServeSpawnStage_def by (intro io_rules assms(1) stage)
qed

lemma moves_ServeEnv:
  assumes "\<And>envID k. moves_by R (authorizedWithStore w ts r envID k)" "moves_by R (handleBootstrap w ts r env)"
    and "\<And>f. refresh = Some f \<Longrightarrow> moves_by R f"
  shows "moves_by R (ServeEnv w ts r env status refresh)"
proof -
  have "moves_by R (proxyHTTP w r rest status refresh)" "moves_by R (proxyWebsocket w r rest status refresh)" for rest
    by (rule moves_proxyHTTP, erule assms(3)) (rule moves_proxyWebsocket, erule assms(3))
  then show ?thesis unfolding ServeEnv_def by (intro io_rules assms(1,2))
qed

end

interpretation svc: gw_order "svc_keep w old i"
proof
  show "svc_keep w old i s s" for s :: "'z svc_state_scheme" by (simp add: svc_keep_def)
  show "svc_keep w old i s s2" if steps: "svc_keep w old i s s1" "svc_keep w old i s1 s2" for s s1 s2 :: "'z svc_state_scheme"
  proof -
    obtain n1 n2 where "hist s1 = n1 @ hist s" "hist s2 = n2 @ hist s1" using steps unfolding svc_keep_def by blast
    then show ?thesis using steps unfolding svc_keep_def by simp
  qed
  show "svc_keep w old i s (s\<lparr>hist := new @ hist s\<rparr>)" for s :: "'z svc_state_scheme" and new
    using tokens_ok_hist[of w old s new] by (simp add: svc_keep_def svc_inv_def mut_inv_def)
qed

lemma gw_only_svc:
  assumes "gw_only s s'"
  shows "sv_containers s' = sv_containers (s :: 'z svc_state_scheme)" "ms_client s' = ms_client s"
  by (subst assms[unfolded gw_only_def], simp)+

lemma svc_keep_gw:
  assumes "gw_only s s'" "tok_keep w old s s'"
  shows "svc_keep w old i s (s' :: 'z svc_state_scheme)"
  using assms(2) gw_only_svc[OF assms(1)] by (simp add: svc_keep_def svc_inv_def tok_keep_def mut_inv_def)

lemma calls_grow: "calls_within P m \<Longrightarrow> run_state m s = (a, s') \<Longrightarrow> \<exists>n. hist s' = n @ hist s"
  by (erule (1) calls_withinE) blast

lemma svc_keep_authorized:
  fixes ts :: "('z svc_state_scheme) token_store option"
  assumes "store_ok w ts"
  shows "moves_by (svc_keep w old i) (authorizedWithStore w ts r envID storeID)"
proof (rule moves_byI)
  fix s :: "'z svc_state_scheme" and ok s'
  assume run: "run_state (authorizedWithStore w ts r envID storeID) s = (ok, s')"
  have "\<exists>n. hist s' = n @ hist s"
    by (rule calls_grow[OF postgres.authorized_calls run]) (use assms in \<open>simp add: store_ok_def\<close>)
  then show "svc_keep w old i s s'"
    by (intro svc_keep_gw moves_byD[OF gw_only_authorized[OF assms] run] tok_keepI)
      (use authorized_tokens[OF run assms] in blast)+
qed

lemma svc_keep_bootstrap:
  fixes ts :: "('z svc_state_scheme) token_store option"
  assumes "store_ok w ts"
  shows "moves_by (svc_keep w old i) (handleBootstrap w ts r env)"
proof (rule moves_byI)
  fix s :: "'z svc_state_scheme" and reply s'
  assume run: "run_state (handleBootstrap w ts r env) s = (reply, s')"
  have "\<exists>n. hist s' = n @ hist s"
    by (rule calls_grow[OF postgres.bootstrap_calls run]) (use assms in \<open>simp add: store_ok_def\<close>)
  then show "svc_keep w old i s s'"
    by (intro svc_keep_gw moves_byD[OF gw_only_bootstrap[OF assms] run] tok_keepI)
      (use bootstrap_tokens[OF run assms] in blast)+
qed

lemma svc_keep_refresh:
  assumes "i = ctr_ID c"
  shows "moves_by (svc_keep w old i) (refresh_container w c)"
proof (rule moves_byI)
  fix s :: "'z svc_state_scheme" and r s'
  assume run: "run_state (refresh_container w c) s = (r, s')"
  obtain issued s1 where 1: "run_state (RefreshBackendToken (dockerx_client w) (ctr_ID c) (ctr_WorkspaceFolder c)) s = (issued, s1)"
    by fastforce
  have io: "io_only (\<lambda>_. True) (RefreshBackendToken (dockerx_client w) (ctr_ID c) (ctr_WorkspaceFolder c)
      :: ('z svc_state_scheme, string res) state)"
    unfolding RefreshBackendToken_def by (rule dockerx.issueBackendToken_io) simp
  have s1: "svc_keep w old i s s1" using svc.moves_io[OF io] 1 by (rule moves_byD)
  show "svc_keep w old i s s'"
  proof (cases issued)
    case (Inl e)
    then show ?thesis using run 1 s1 by (simp add: refresh_container_def)
  next
    case (Inr token)
    then have s': "s' = s1\<lparr>sv_containers := remember_token i token (sv_containers s1)\<rparr>"
      using run 1 assms by (simp add: refresh_container_def)
    have "svc_keep w old i s1 s'"
      unfolding svc_keep_def
    proof (intro conjI impI)
      assume inv: "svc_inv w old s1 \<and> i \<in> dom (map_of (sv_containers s1))"
      then obtain c0 where c0: "map_of (sv_containers s1) i = Some c0" by blast
      then have "ctr_ID c0 = i" using inv by (auto simp: svc_inv_def keyed_def list_all_iff dest!: map_of_SomeD)
      then have "keyed (remember_token i token (sv_containers s1))"
        using inv keyed_update[of "sv_containers s1" "set_backend_token token c0"] c0
        by (simp add: remember_token_def svc_inv_def set_backend_token_def set_t3_def)
      then show "svc_inv w old s'" "i \<in> dom (map_of (sv_containers s'))"
        using inv tokens_ok_cong[of s' s1] by (simp_all add: svc_inv_def s' mut_inv_def remember_token_def update_conv')
    qed (simp add: s')
    then show ?thesis using s1 svc.R_trans by blast
  qed
qed

text \<open>Serving a container that is known.\<close>

lemma svc_keep_serve:
  assumes "store_ok w (svc_tokenStore svc)" "i = ctr_ID c"
  shows "moves_by (svc_keep w old i) (serve_container w svc r rest envID env c)"
proof -
  note parts = svc_keep_authorized[OF assms(1)] svc_keep_bootstrap[OF assms(1)]
  have refresh: "moves_by (svc_keep w old i) f" if "Some (refresh_container w c) = Some f" for f
    using that svc_keep_refresh[OF assms(2)] by (metis option.inject)
  show ?thesis
    unfolding serve_container_def
    by (intro svc.io_rules svc.moves_ServeSpawnStage svc.moves_ServeEnv parts refresh)
qed

definition env_of_path :: "in_request \<Rightarrow> string" where
  "env_of_path r = fst (Cut (TrimPrefix (in_Path r) ''/env/'') CHR ''/'')"

lemma handleEnvProxy_cases:
  assumes run: "run_state (handleEnvProxy w svc r) s = (reply, s')" and k: "keyed (sv_containers s)"
  obtains (missing) n where "reply = Inr NotFound_reply" "s' = s\<lparr>hist := n @ hist s\<rparr>" "set n \<subseteq> {CallMapRange}"
  | (served) env c s2 where "s2 = s\<lparr>hist := [CallMapRange, CallMapRange] @ hist s\<rparr>" "c \<in> snd ` set (sv_containers s)"
      "has_env (env_of_path r) c" "env_ID env = env_of_path r"
      "run_state (serve_container w svc r (TrimPrefix (in_Path r) ''/env/'') (env_of_path r) env c) s2 = (reply, s')"
proof -
  let ?i = "env_of_path r"
  obtain env s1 where 1: "run_state (environment w ?i) s = (env, s1)" by fastforce
  note e = environment_run[OF k 1]
  show thesis
  proof (cases env)
    case None
    then show thesis
      using missing[of "[CallMapRange]"] run 1 e(1) by (simp add: handleEnvProxy_def env_of_path_def Let_def)
  next
    case (Some x)
    have k1: "keyed (sv_containers s1)" using k e(1) by simp
    obtain found s2 where 2: "run_state (containerByEnv w ?i) s1 = (found, s2)" by fastforce
    note f = containerByEnv_run[OF k1 2]
    show thesis
    proof (cases found)
      case None
      then show thesis
        using missing[of "[CallMapRange, CallMapRange]"] run 1 2 Some e(1) f(1)
        by (simp add: handleEnvProxy_def env_of_path_def Let_def)
    next
      case found: (Some c)
      have "run_state (serve_container w svc r (TrimPrefix (in_Path r) ''/env/'') ?i x c) s2 = (reply, s')"
        using run 1 2 Some found by (simp add: handleEnvProxy_def env_of_path_def Let_def)
      moreover have "s2 = s\<lparr>hist := [CallMapRange, CallMapRange] @ hist s\<rparr>" using e(1) f(1) by simp
      moreover have "c \<in> snd ` set (sv_containers s)" "has_env ?i c" using f(2) found e(1) by auto
      ultimately show thesis using served[of s2 c x] e(2) Some by auto
    qed
  qed
qed

lemma svc_inv_hist: "svc_inv w old s \<Longrightarrow> svc_inv w old (s\<lparr>hist := n @ hist s\<rparr>)"
  using tokens_ok_hist[of w old s n] by (simp add: svc_inv_def mut_inv_def)

lemma svc_inv_grow: "svc_inv w old s \<Longrightarrow> svc_inv w old (s\<lparr>hist := c # hist s\<rparr>)"
  using svc_inv_hist[of w old s "[c]"] by simp

lemma known_container:
  assumes "keyed m" "c \<in> snd ` set m"
  shows "ctr_ID c \<in> dom (map_of m)"
proof -
  obtain k where k: "(k, c) \<in> set m" using assms(2) by auto
  then have "ctr_ID c = k" using assms(1) by (auto simp: keyed_def list_all_iff)
  then show ?thesis using k assms(1) by (auto simp: keyed_def)
qed

lemma handleEnvProxy_inv:
  assumes run: "run_state (handleEnvProxy w svc r) s = (reply, s')" and ts: "store_ok w (svc_tokenStore svc)"
    and inv: "svc_inv w old s"
  shows "svc_inv w old s'"
proof -
  have k: "keyed (sv_containers s)" using inv by (simp add: svc_inv_def)
  show ?thesis
    using run k
  proof (cases rule: handleEnvProxy_cases)
    case (missing n)
    then show ?thesis using svc_inv_hist[OF inv] by simp
  next
    case (served env c s2)
    have "svc_keep w old (ctr_ID c) s2 s'"
      using svc_keep_serve[OF ts refl] served(5) by (rule moves_byD)
    moreover have "svc_inv w old s2" using svc_inv_hist[OF inv] served(1) by blast
    moreover have "ctr_ID c \<in> dom (map_of (sv_containers s2))"
      using known_container[OF k served(2)] served(1) by simp
    ultimately show ?thesis by (simp add: svc_keep_def)
  qed
qed

text \<open>The other handlers and the reactions.\<close>

lemma tok_generate: "moves_by (tok_keep w old) (GeneratePairingCode w envID)"
  unfolding GeneratePairingCode_def randomCode_def randomBytes_def time_Now_def
  by (intro tok.io_rules tok_primitives)

lemma svc_inv_gw:
  assumes "gw_only s s'" "tok_keep w old s s'" "svc_inv w old s"
  shows "svc_inv w old (s' :: 'z svc_state_scheme)"
  using assms(2,3) gw_only_svc[OF assms(1)] by (simp add: svc_inv_def tok_keep_def mut_inv_def)

lemma reconcile_scan_mut:
  assumes run: "run_state (reconcile_scan w) s = (r, s')" and inv: "mut_inv s"
  shows "mut_inv s'"
proof -
  obtain l s1 where 1: "run_state (ListDevcontainers w (sv_cfg s)) s = (l, s1)" by fastforce
  have s1: "mut_inv s1" using io_only_client[OF ListDevcontainers_io 1] inv by (simp add: mut_inv_def)
  show ?thesis
  proof (cases "\<exists>out. l = Inr (Inr out)")
    case False
    then have "s' = s1" using run 1 by (auto simp: reconcile_scan_def split: sum.splits)
    then show ?thesis using s1 by simp
  next
    case True
    then obtain out where out: "l = Inr (Inr out)" by blast
    obtain probed s2 where 2: "run_state (probe_loop w (sv_cfg s) (publicBaseURL (srv_Listen (cfg_Server (sv_cfg s))))
        (sv_containers s1) out) s1 = (probed, s2)" by fastforce
    have s2: "mut_inv s2" using io_only_client[OF probe_loop_io 2] s1 by (simp add: mut_inv_def)
    obtain q s3 where 3: "run_state (Reconcile w (mutagen_service w) probed (sv_cfg s)) s2 = (q, s3)" by fastforce
    then have "mut_inv s3" using mutagen.Reconcile_inv[OF s2, of w w probed "sv_cfg s"] by simp
    moreover have "s' = s3" using run 1 out 2 3 by (auto simp: reconcile_scan_def split: sum.splits)
    ultimately show ?thesis by simp
  qed
qed

lemma handleEnvironmentAction_inv:
  assumes run: "run_state (handleEnvironmentAction w r) s = (reply, s')" and inv: "svc_inv w old s"
  shows "svc_inv w old s'"
proof -
  obtain envID action ok where cut: "Cut (TrimPrefix (in_Path r) ''/api/environments/'') CHR ''/'' = (envID, action, ok)"
    by (metis prod.exhaust)
  obtain env s1 where 1: "run_state (environment w envID) s = (env, s1)" by fastforce
  have "s1 = s\<lparr>hist := CallMapRange # hist s\<rparr>"
    using environment_run(1)[OF _ 1] inv by (simp add: svc_inv_def)
  then have inv1: "svc_inv w old s1" using svc_inv_grow[OF inv] by simp
  obtain g s2 where 2: "run_state (GeneratePairingCode w envID) s1 = (g, s2)" by fastforce
  have inv2: "svc_inv w old s2"
    using moves_byD[OF gw_only_generate 2] moves_byD[OF tok_generate 2] inv1 by (rule svc_inv_gw)
  show ?thesis
    using run cut 1 2 inv inv1 inv2 by (auto simp: handleEnvironmentAction_def split: if_splits option.splits prod.splits)
qed

lemma read_only_run:
  assumes "keyed (sv_containers s)"
  shows "snd (run_state (api_containers w) s) = s\<lparr>hist := CallMapRange # hist s\<rparr>"
    "snd (run_state (api_environments w) s) = s\<lparr>hist := CallMapRange # hist s\<rparr>"
    "snd (run_state (api_sessions w) s) = s\<lparr>hist := CallMapRange # hist s\<rparr>"
proof -
  obtain cs s1 where 1: "run_state (containerList w) s = (cs, s1)" by fastforce
  have s1: "s1 = s\<lparr>hist := CallMapRange # hist s\<rparr>" using containerList_run(3)[OF assms 1] .
  show "snd (run_state (api_containers w) s) = s\<lparr>hist := CallMapRange # hist s\<rparr>"
    "snd (run_state (api_environments w) s) = s\<lparr>hist := CallMapRange # hist s\<rparr>"
    unfolding api_containers_def api_environments_def environments_def by (simp_all add: 1 s1)
  show "snd (run_state (api_sessions w) s) = s\<lparr>hist := CallMapRange # hist s\<rparr>"
    by (simp add: api_sessions_def sessionList_def any_order_def map_range_def)
qed

lemma routes_inv:
  assumes run: "run_state (routes w svc r) s = (reply, s')" and ts: "store_ok w (svc_tokenStore svc)"
    and inv: "svc_inv w old s"
  shows "svc_inv w old s'"
proof -
  have k: "keyed (sv_containers s)" using inv by (simp add: svc_inv_def)
  note ro = read_only_run[OF k, of w]
  show ?thesis
  proof (cases "mux_route r")
    case EnvironmentAction
    then show ?thesis using run handleEnvironmentAction_inv[OF _ inv] by (auto simp: routes_def replied_def split: prod.splits)
  next
    case EnvProxy
    then show ?thesis using run handleEnvProxy_inv[OF _ ts inv] by (auto simp: routes_def split: prod.splits sum.splits)
  next
    case ApiContainers
    then show ?thesis using run ro(1) svc_inv_grow[OF inv] by (auto simp: routes_def replied_def split: prod.splits)
  next
    case ApiEnvironments
    then show ?thesis using run ro(2) svc_inv_grow[OF inv] by (auto simp: routes_def replied_def split: prod.splits)
  next
    case ApiSessions
    then show ?thesis using run ro(3) svc_inv_grow[OF inv] by (auto simp: routes_def replied_def split: prod.splits)
  qed (use run inv in \<open>auto simp: routes_def replied_def\<close>)
qed

text \<open>A scan changes the history and the Mutagen client only, and leaves that consistent.\<close>

lemma scan_inv:
  assumes run: "run_state (reconcile_scan w) s = (r, s')" and inv: "svc_inv w old s"
  shows "svc_inv w old s'"
proof -
  have frame: "mut_frame s s'" using reconcile_scan_only run by (rule moves_byD)
  then obtain n where n: "hist s' = n @ hist s" by (auto simp: mut_frame_def)
  have s': "s' = s\<lparr>hist := n @ hist s, ms_client := ms_client s'\<rparr>"
    using frame n by (simp add: mut_frame_def)
  have "tokens_ok w old s'"
    using tokens_ok_hist[of w old s n] inv by (subst s') (simp add: svc_inv_def tokens_ok_def)
  moreover have "keyed (sv_containers s')" using inv by (subst s') (simp add: svc_inv_def)
  ultimately show ?thesis using reconcile_scan_mut[OF run] inv by (simp add: svc_inv_def)
qed

lemma reconcile_inv:
  assumes run: "run_state (reconcile w) s = (r, s')" and inv: "svc_inv w old s"
  shows "svc_inv w old s'"
proof -
  obtain q s1 where 1: "run_state (reconcile_scan w) s = (q, s1)" by fastforce
  have inv1: "svc_inv w old s1" using scan_inv[OF 1 inv] .
  show ?thesis
  proof (cases "\<exists>cs ss. q = Inr (Inr (cs, ss))")
    case True
    then obtain cs ss where "q = Inr (Inr (cs, ss))" by blast
    then have "s' = s1\<lparr>sv_containers := next_containers cs, sv_sessions := ss\<rparr>"
      using run 1 by (simp add: reconcile_def reconcile_store_def)
    then show ?thesis
      using inv1 next_containers_spec(1)[of cs] by (simp add: svc_inv_def mut_inv_def tokens_ok_def)
  next
    case False
    then have "s' = s1" using run 1 by (auto simp: reconcile_def split: sum.splits)
    then show ?thesis using inv1 by simp
  qed
qed

lemma reaction_inv:
  assumes "run_state (bind_sum (reconcile w) (\<lambda>_. State_Monad.return (Inr ()))) s = (r, s')" "svc_inv w old s"
  shows "svc_inv w old s'"
proof -
  obtain q s1 where 1: "run_state (reconcile w) s = (q, s1)" by fastforce
  then have "s' = s1" using assms(1) by (auto split: sum.splits)
  then show ?thesis using reconcile_inv[OF 1 assms(2)] by simp
qed

lemma watchDocker_inv:
  assumes "run_state (watchDocker_on w msg) s = (r, s')" "svc_inv w old s"
  shows "svc_inv w old s'"
  using assms reaction_inv svc_inv_grow
  by (cases msg) (auto simp: watchDocker_on_def Events_def split: if_splits)

lemma watchConfig_inv:
  assumes run: "run_state (watchConfig_fire w yaml path) s = (r, s')" and inv: "svc_inv w old s"
  shows "svc_inv w old s'"
proof -
  obtain c s1 where 1: "run_state (Load w yaml path) s = (c, s1)" by fastforce
  then have s1: "svc_inv w old s1" using svc_inv_grow[OF inv] by (auto simp: Load_def)
  obtain cfg err where c: "c = (cfg, err)" by fastforce
  show ?thesis
  proof (cases err)
    case (Some e)
    then show ?thesis using run 1 c s1 by (simp add: watchConfig_fire_def)
  next
    case None
    have "svc_inv w old (s1\<lparr>sv_cfg := cfg\<rparr>)" using s1 by (simp add: svc_inv_def mut_inv_def tokens_ok_def)
    moreover have "run_state (bind_sum (reconcile w) (\<lambda>_. State_Monad.return (Inr ()))) (s1\<lparr>sv_cfg := cfg\<rparr>) = (r, s')"
      using run 1 c None by (simp add: watchConfig_fire_def)
    ultimately show ?thesis using reaction_inv by blast
  qed
qed

lemma step_inv:
  assumes "svc_step w yaml svc c c'" "store_ok w (svc_tokenStore svc)" "svc_inv w old (fst c)"
  shows "svc_inv w old (fst c')"
  using assms(1)
proof cases
  case (step_request r s reply s' armed)
  then show ?thesis using routes_inv[OF step_request(3) assms(2)] assms(3) by simp
next
  case (step_docker msg s s' armed)
  then show ?thesis using watchDocker_inv assms(3) by simp
next
  case (step_event s name armed)
  then show ?thesis using assms(3) by simp
next
  case (step_fire s s')
  then show ?thesis using watchConfig_inv assms(3) by simp
next
  case (step_tick s s' armed)
  then show ?thesis using reaction_inv assms(3) by (auto simp: periodic_tick_def)
next
  case (step_watcher c s armed)
  then show ?thesis using svc_inv_grow assms(3) by simp
qed

lemma reachable_inv:
  assumes "reachable w yaml svc s0 c" "store_ok w (svc_tokenStore svc)" "svc_inv w old s0"
  shows "svc_inv w old (fst c)"
  using assms(1)
proof induction
  case (reach_start err s)
  then show ?case using reconcile_inv assms(3) by simp
next
  case (reach_step c c')
  then show ?case using step_inv[OF _ assms(2)] by blast
qed

text \<open>A new service satisfies the invariant; the tokens accounted for are those of the table.\<close>

definition table_tokens :: "'z pg_state_scheme \<Rightarrow> string set" where
  "table_tokens s = (\<lambda>(i, row). row_token row) ` set (pg_rows s)"

lemma app_New_cases:
  assumes run: "run_state (app_New w path cfg) s = (Inr svc, s')"
  shows "svc_inv w (table_tokens s) s' \<and> store_ok w (svc_tokenStore svc) \<and> svc_configPath svc = path \<and>
    (svc_tokenStore svc = None) = (ptc_PostgresURL (cfg_PairingTokens cfg) = []) \<and>
    sv_cfg s' = cfg \<and> sv_containers s' = [] \<and> sv_sessions s' = [] \<and> gw_pairing s' = [] \<and> gw_browserAuth s' = [] \<and>
    pg_rows s' = pg_rows s"
proof -
  have rows: "svc_inv w (table_tokens s) (s1\<lparr>gw_pairing := [], gw_browserAuth := [], ms_client := newMutagenClient,
      sv_cfg := cfg, sv_containers := [], sv_sessions := []\<rparr>)"
    if "pg_rows s1 = pg_rows s" for s1
    using that by (auto simp: svc_inv_def keyed_def mut_inv_def client_ok_def newMutagenClient_def tokens_ok_def
        table_tokens_def accounted_def list_all_iff intro!: rev_image_eqI)
  show ?thesis
  proof (cases "ptc_PostgresURL (cfg_PairingTokens cfg) = []")
    case True
    then show ?thesis
      using run rows[of "s\<lparr>hist := CallDockerNew # hist s\<rparr>"]
      by (auto simp: app_New_def dockerx_New_def init_service_def newGateway_def store_ok_def split: sum.splits)
  next
    case False
    obtain st s1 where 1: "run_state (NewPostgresPairingTokenStore w (ptc_PostgresURL (cfg_PairingTokens cfg)))
        (s\<lparr>hist := CallDockerNew # hist s\<rparr>) = (st, s1)" by fastforce
    then have s1: "pg_rows s1 = pg_rows s" "st = Inr x \<Longrightarrow> x = postgres_store w" for x
      by (auto simp: NewPostgresPairingTokenStore_def pg_init_def pg_Close_def pool_Exec_run Let_def
          split: sum.splits db_outcome.splits option.splits)
    then show ?thesis
      using run False 1 rows[OF s1(1)]
      by (auto simp: app_New_def dockerx_New_def dockerx_Close_def init_service_def newGateway_def store_ok_def
          split: sum.splits)
  qed
qed

section \<open>Which requests have effects\<close>

text \<open>Calls that stay within the service: the clock, randomness, the order of a map, the token store.\<close>

definition quiet_call :: "call \<Rightarrow> bool" where
  "quiet_call c \<longleftrightarrow> token_call c \<or> (\<exists>n. c = CallRand n) \<or> c = CallMapRange"

lemma quiet_simps [simp]: "quiet_call CallMapRange" "quiet_call (CallRand n)" "quiet_call CallNow"
  "token_call c \<Longrightarrow> quiet_call c"
  by (simp_all add: quiet_call_def token_call_def)

lemma quiet_token: "list_all token_call n \<Longrightarrow> list_all quiet_call n"
  by (simp add: list_all_iff)

text \<open>What an accepted request of an environment carries.\<close>

definition credentials_ok :: "world \<Rightarrow> string set \<Rightarrow> in_request \<Rightarrow> call list \<Rightarrow> bool" where
  "credentials_ok w old r h \<longleftrightarrow> (case bearer_token (in_Header r) of None \<Rightarrow> False | Some t \<Rightarrow> accounted w old h t)"

lemma authorized_credentials:
  assumes "run_state (authorizedWithStore w ts r envID k) s = (True, s')" "store_ok w ts" "tokens_ok w old s"
  shows "credentials_ok w old r (hist s)"
  using authorized_tokens[OF assms] by (auto simp: credentials_ok_def)

lemma serve_container_guard:
  assumes run: "run_state (serve_container w svc r rest (env_ID env) env c) s = (reply, s')"
    and ts: "store_ok w (svc_tokenStore svc)" and inv: "tokens_ok w old s"
    and effect: "hist s' = n @ hist s" "\<not> list_all quiet_call n"
  shows "is_public w r (env_ID env) \<or> credentials_ok w old r (hist s)"
proof -
  note ts' = ts[unfolded store_ok_def]
  let ?ref = "Some (refresh_container w c)"
  consider (down) "t3_BackendURL (ctr_T3 c) = []"
    | (spawn) b where "run_state (ServeSpawnStage w (svc_tokenStore svc) (dockerx_client w) r c ?ref) s = (b, s')"
    | (env) "run_state (ServeEnv w (svc_tokenStore svc) r env (ctr_T3 c) ?ref) s = (reply, s')"
    using run by (auto simp: serve_container_def split: if_splits prod.splits)
  then show ?thesis
  proof cases
    case down
    then have "s' = s" using run by (simp add: serve_container_def)
    then show ?thesis using effect by simp
  next
    case spawn
    from spawn ts' show ?thesis
    proof (cases rule: pg_gateway.spawn_cases)
      case (rejected n' code msg)
      then show ?thesis using effect quiet_token by simp
    next
      case (accepted req s1 n')
      then show ?thesis using authorized_credentials[OF _ ts inv] by blast
    qed
  next
    case env
    from env ts' show ?thesis
    proof (cases rule: pg_gateway.ServeEnv_cases)
      case (bootstrap b)
      obtain n' where n': "hist s' = n' @ hist s" "list_all (\<lambda>c. token_call c \<or> c = CallRand 32) n'"
        using postgres.bootstrap_calls[OF ts'] bootstrap(2) by (rule calls_withinE)
      then have "list_all quiet_call n" using effect(1) by (auto simp: list_all_iff)
      then show ?thesis using effect(2) by simp
    next
      case (refused n')
      then show ?thesis using effect quiet_token by simp
    next
      case (websocket s1 n')
      then show ?thesis using authorized_credentials[OF _ ts inv] by blast
    next
      case (proxied s1 n' b)
      then show ?thesis using authorized_credentials[OF _ ts inv] by (auto split: if_splits)
    qed
  qed
qed

lemma accounted_range: "accounted w old (CallMapRange # h) t = accounted w old h t"
  by (auto simp: accounted_def suffix_Cons)

lemma handleEnvProxy_guard:
  assumes run: "run_state (handleEnvProxy w svc r) s = (reply, s')" and ts: "store_ok w (svc_tokenStore svc)"
    and inv: "svc_inv w old s" and effect: "\<not> list_all quiet_call (new_calls (hist s) (hist s'))"
  shows "is_public w r (env_of_path r) \<or> credentials_ok w old r (hist s)"
proof -
  have k: "keyed (sv_containers s)" using inv by (simp add: svc_inv_def)
  show ?thesis
    using run k
  proof (cases rule: handleEnvProxy_cases)
    case (missing n')
    then have "list_all quiet_call n'" by (auto simp: list_all_iff)
    then show ?thesis using effect missing(2) by simp
  next
    case (served env c s2)
    have "svc_inv w old s2" unfolding served(1) by (rule svc_inv_hist[OF inv])
    then have inv2: "tokens_ok w old s2" by (simp add: svc_inv_def)
    obtain m where m: "hist s' = m @ hist s2"
      using moves_byD[OF svc_keep_serve[OF ts refl] served(5)] unfolding svc_keep_def by blast
    have "hist s' = (m @ [CallMapRange, CallMapRange]) @ hist s" using m served(1) by simp
    then have "new_calls (hist s) (hist s') = m @ [CallMapRange, CallMapRange]" using new_calls_append by metis
    then have "\<not> list_all quiet_call m" using effect by simp
    then have "is_public w r (env_ID env) \<or> credentials_ok w old r (hist s2)"
      using serve_container_guard[OF _ ts inv2 m] served(4,5) by metis
    moreover have "credentials_ok w old r (hist s2) = credentials_ok w old r (hist s)"
      using served(1) by (simp add: credentials_ok_def accounted_range split: option.split)
    ultimately show ?thesis using served(4) by simp
  qed
qed

lemma handleEnvironmentAction_quiet:
  assumes run: "run_state (handleEnvironmentAction w r) s = (reply, s')" and k: "keyed (sv_containers s)"
  shows "\<exists>n. hist s' = n @ hist s \<and> list_all quiet_call n"
proof -
  obtain envID action ok where cut: "Cut (TrimPrefix (in_Path r) ''/api/environments/'') CHR ''/'' = (envID, action, ok)"
    by (metis prod.exhaust)
  obtain env s1 where 1: "run_state (environment w envID) s = (env, s1)" by fastforce
  have s1: "s1 = s\<lparr>hist := CallMapRange # hist s\<rparr>" using environment_run(1)[OF k 1] .
  obtain g s2 where 2: "run_state (GeneratePairingCode w envID) s1 = (g, s2)" by fastforce
  then have s2: "hist s2 = CallNow # CallRand 18 # hist s1"
    by (auto simp: GeneratePairingCode_def randomCode_def Let_def)
  have "hist s' = hist s \<or> hist s' = hist s1 \<or> hist s' = hist s2"
    using run cut 1 2 by (auto simp: handleEnvironmentAction_def split: if_splits option.splits prod.splits)
  then show ?thesis
  proof (elim disjE)
    assume "hist s' = hist s" then show ?thesis by (intro exI[of _ "[]"]) simp
  next
    assume "hist s' = hist s1" then show ?thesis using s1 by (intro exI[of _ "[CallMapRange]"]) simp
  next
    assume "hist s' = hist s2"
    then show ?thesis using s1 s2 by (intro exI[of _ "[CallNow, CallRand 18, CallMapRange]"]) simp
  qed
qed

lemma routes_guard:
  assumes run: "run_state (routes w svc r) s = (reply, s')" and ts: "store_ok w (svc_tokenStore svc)"
    and inv: "svc_inv w old s" and effect: "\<not> list_all quiet_call (new_calls (hist s) (hist s'))"
  shows "mux_route r = EnvProxy \<and> (is_public w r (env_of_path r) \<or> credentials_ok w old r (hist s))"
proof -
  have k: "keyed (sv_containers s)" using inv by (simp add: svc_inv_def)
  note ro = read_only_run[OF k, of w]
  have quiet: thesis if "hist s' = n @ hist s" "list_all quiet_call n" for n thesis
    using that effect by simp
  show ?thesis
  proof (cases "mux_route r")
    case EnvProxy
    obtain b s1 where 1: "run_state (handleEnvProxy w svc r) s = (b, s1)" by fastforce
    then have "s1 = s'" using run EnvProxy by (auto simp: routes_def split: sum.splits)
    then show ?thesis using handleEnvProxy_guard[OF 1 ts inv] effect EnvProxy by simp
  next
    case EnvironmentAction
    obtain b s1 where 1: "run_state (handleEnvironmentAction w r) s = (b, s1)" by fastforce
    then have "s1 = s'" using run EnvironmentAction by (simp add: routes_def replied_def)
    then show ?thesis using handleEnvironmentAction_quiet[OF 1 k] quiet by blast
  next
    case ApiContainers
    then have "s' = s\<lparr>hist := CallMapRange # hist s\<rparr>"
      using run ro by (auto simp: routes_def replied_def split: prod.splits)
    then show ?thesis using quiet[of "[CallMapRange]"] by simp
  next
    case ApiEnvironments
    then have "s' = s\<lparr>hist := CallMapRange # hist s\<rparr>"
      using run ro by (auto simp: routes_def replied_def split: prod.splits)
    then show ?thesis using quiet[of "[CallMapRange]"] by simp
  next
    case ApiSessions
    then have "s' = s\<lparr>hist := CallMapRange # hist s\<rparr>"
      using run ro by (auto simp: routes_def replied_def split: prod.splits)
    then show ?thesis using quiet[of "[CallMapRange]"] by simp
  qed (use run quiet[of "[]"] in \<open>auto simp: routes_def replied_def\<close>)
qed

section \<open>Properties\<close>

text \<open>Claim C1. Who gets through: in every reachable state of a service, whatever its requests, reconciliations and
  reloads were, a request that makes the service do anything outside itself (a request or
  websocket to a backend, a command in a container) is one below an environment, and either a
  plain one for the public path, or it carries a bearer token that a bootstrap drew since the
  start or that was in the table at the start.\<close>

theorem effects_need_a_token:
  assumes new: "run_state (app_New w path cfg) s00 = (Inr svc, s0)" and reach: "reachable w yaml svc s0 (s, armed)"
    and run: "run_state (routes w svc r) s = (reply, s')"
    and effect: "\<not> list_all quiet_call (new_calls (hist s) (hist s'))"
  shows "mux_route r = EnvProxy \<and>
    (if is_public w r (env_of_path r) then True
     else case bearer_token (in_Header r) of None \<Rightarrow> False | Some t \<Rightarrow> accounted w (table_tokens s00) (hist s) t)"
proof -
  note start = app_New_cases[OF new]
  have "svc_inv w (table_tokens s00) s" using reachable_inv[OF reach] start by auto
  then show ?thesis using routes_guard[OF run _ _ effect] start by (auto simp: credentials_ok_def)
qed

text \<open>Claim C9. In every state that whole handlers and reactions reach, one after the other without overlapping,
  the containers are keyed by their identifiers, each once, the Mutagen
  client's stubs belong to its connection (so that no operation finds a nil one), and every
  browser token in memory or in the table is under its own key and was drawn by a bootstrap or
  there at the start. Overlapping ones do break the first two parts: see
  \<open>refresh_revives_dropped\<close> in \<open>Interleaving\<close> and \<open>concurrent_listings_panic\<close> in \<open>ClientRace\<close>.\<close>

theorem reachable_invariant:
  assumes "run_state (app_New w path cfg) s00 = (Inr svc, s0)" and "reachable w yaml svc s0 (s, armed)"
  shows "keyed (sv_containers s) \<and> mut_inv s \<and> tokens_ok w (table_tokens s00) s"
  using reachable_inv[OF assms(2)] app_New_cases[OF assms(1)] by (auto simp: svc_inv_def)

text \<open>A service that starts has an empty gateway and no containers, keeps the configuration it was given,
  and uses a token store exactly when a Postgres URL is configured; its table is as it was.\<close>

theorem app_New_start:
  assumes "run_state (app_New w path cfg) s = (Inr svc, s')"
  shows "svc_configPath svc = path \<and> svc_tokenStore svc =
      (if ptc_PostgresURL (cfg_PairingTokens cfg) = [] then None else Some (postgres_store w)) \<and>
    sv_cfg s' = cfg \<and> sv_containers s' = [] \<and> sv_sessions s' = [] \<and> gw_pairing s' = [] \<and> gw_browserAuth s' = [] \<and>
    pg_rows s' = pg_rows s"
  using app_New_cases[OF assms] by (auto simp: store_ok_def)

section \<open>A live service\<close>

text \<open>A concrete run: a host with one devcontainer, a backend that answers its probe, and one public
  request, over which the hypotheses of the theorems above are discharged.\<close>

definition live_world :: world where
  "live_world = docker_world\<lparr>w_DockerNew := \<lambda>_. Inr (),
     w_url_Parse := \<lambda>_. Inr \<lparr>url_Scheme = ''http'', url_Host = ''172.20.0.5:3773'', url_Path = [], url_RawQuery = []\<rparr>,
     w_json_stream := \<lambda>_. Inr (JObj [(''environmentId'', JStr ''env-1'')]),
     w_Http := \<lambda>_ _. Inr \<lparr>resp_StatusCode = 200, resp_Status = ''200 OK'', resp_Header = [], resp_Body = []\<rparr>\<rparr>"

definition live_config :: Config where
  "live_config = dcm_config\<lparr>cfg_Sync := (cfg_Sync dcm_config)\<lparr>sync_Enabled := False\<rparr>,
     cfg_T3 := (cfg_T3 dcm_config)\<lparr>t3c_AutoIssueBackendToken := False\<rparr>\<rparr>"

definition live_init :: svc_state where
  "live_init = \<lparr>hist = [CallDockerNew], ms_client = newMutagenClient, gw_pairing = [], gw_browserAuth = [], pg_rows = [],
     sv_cfg = live_config, sv_containers = [], sv_sessions = []\<rparr>"

definition live_service :: "svc_state service" where
  "live_service = \<lparr>svc_configPath = ''/etc/dcm.yaml'', svc_tokenStore = None\<rparr>"

lemma live_New: "run_state (app_New live_world ''/etc/dcm.yaml'' live_config) (live_init\<lparr>hist := []\<rparr>) = (Inr live_service, live_init)"
  by (simp add: app_New_def dockerx_New_def init_service_def newGateway_def live_init_def live_service_def live_world_def
      live_config_def dcm_config_def Default_def)

lemma live_listed: "\<exists>c s1. run_state (ListDevcontainers live_world live_config) live_init = (Inr (Inr [c]), s1) \<and>
    ctr_ID c = ''c1'' \<and> ctr_Running c \<and> ctr_ContainerIP c = ''172.20.0.5'' \<and> t3_enabled c live_config"
proof -
  have "case run_state (ListDevcontainers live_world live_config) live_init of (Inr (Inr out), s) \<Rightarrow>
     map (\<lambda>c. (ctr_ID c, ctr_Running c, ctr_ContainerIP c, t3_enabled c live_config)) out =
       [(''c1'', True, ''172.20.0.5'', True)] | _ \<Rightarrow> False"
    by code_simp
  then show ?thesis by (auto split: prod.splits sum.splits simp: map_eq_Cons_conv)
qed

lemma live_probe: "\<exists>s'. run_state (probe live_world b) s = (Inr ''env-1'', s')"
  by (simp add: probe_def client_Do_def live_world_def Let_def success_def read_body_def decode_map_def json_string_def)

lemma live_reconciled: "\<exists>c s'. run_state (reconcile live_world) live_init = (Inr None, s') \<and>
    sv_containers s' = [(''c1'', c)] \<and> t3_EnvironmentID (ctr_T3 c) = ''env-1'' \<and> ctr_ID c = ''c1'' \<and>
    t3_BackendURL (ctr_T3 c) \<noteq> []"
proof -
  obtain c s1 where 1: "run_state (ListDevcontainers live_world live_config) live_init = (Inr (Inr [c]), s1)"
    and c: "ctr_ID c = ''c1''" "ctr_Running c" "ctr_ContainerIP c = ''172.20.0.5''" "t3_enabled c live_config"
    using live_listed by blast
  have cfg: "sv_cfg live_init = live_config" "\<not> sync_Enabled (cfg_Sync live_config)"
      "\<not> t3c_AutoIssueBackendToken (cfg_T3 live_config)"
    by (simp_all add: live_init_def live_config_def)
  have "mut_frame live_init s1" using ListDevcontainers_only 1 by (rule moves_byD)
  then have "sv_containers s1 = sv_containers live_init" by (simp add: mut_frame_def) (metis svc_fields)
  then have cs: "sv_containers s1 = []" by (simp add: live_init_def)
  let ?base = "publicBaseURL (srv_Listen (cfg_Server live_config))"
  have "\<exists>c' s2. run_state (ReconcileContainer live_world (dockerx_client live_world) c live_config ?base) s1 = (c', s2) \<and>
      t3_EnvironmentID (ctr_T3 c') = ''env-1'' \<and> ctr_ID c' = ''c1'' \<and> t3_BackendURL (ctr_T3 c') \<noteq> []"
    using live_probe[of "backend_url c live_config" "s1\<lparr>hist := CallNow # hist s1\<rparr>"] c cfg
    by (auto simp: ReconcileContainer_def reconcile_ready_def ready_status_def set_t3_def Let_def backend_url_def)
  then show ?thesis
    using 1 cs cfg c
    by (auto simp: reconcile_def reconcile_scan_def Reconcile_def reconcile_store_def next_containers_def keep_token_def
        applySyncSummaries_def)
qed

definition public_get :: in_request where
  "public_get = \<lparr>in_Method = ''GET'', in_Path = ''/env/env-1/.well-known/t3/environment'', in_RawQuery = [], in_Header = [],
     in_Body = []\<rparr>"

lemma public_get_facts: "mux_route public_get = EnvProxy" "env_of_path public_get = ''env-1''"
  "TrimPrefix (in_Path public_get) ''/env/'' = ''env-1/.well-known/t3/environment''"
  "TrimPrefix ''env-1/.well-known/t3/environment'' ''env-1'' = ''/.well-known/t3/environment''"
  "env_rest public_get ''env-1'' = ''/.well-known/t3/environment''"
  by code_simp+

lemma live_request:
  assumes "sv_containers s = [(''c1'', c)]" "t3_EnvironmentID (ctr_T3 c) = ''env-1''" "ctr_ID c = ''c1''"
    "t3_BackendURL (ctr_T3 c) \<noteq> []"
  shows "\<exists>q. hist (snd (run_state (routes live_world live_service public_get) s)) =
    CallHttp q # CallMapRange # CallMapRange # hist s"
proof -
  let ?s = "s\<lparr>hist := CallMapRange # CallMapRange # hist s\<rparr>"
  have order: "w_MapOrder live_world h ks = ks" and up: "\<not> w_IsWebSocketUpgrade live_world h'"  for h ks h'
    by (simp_all add: live_world_def docker_world_def offline_world_def)
  have env: "run_state (environment live_world ''env-1'') s = (Some (envFromContainer c), s\<lparr>hist := CallMapRange # hist s\<rparr>)"
    using assms order by (simp add: environment_def environments_def containerList_def map_range_def Let_def envFromContainer_def)
  have found: "run_state (containerByEnv live_world ''env-1'') (s\<lparr>hist := CallMapRange # hist s\<rparr>) = (Some c, ?s)"
    using assms order by (simp add: containerByEnv_def map_range_def Let_def)
  obtain b s2 where http: "run_state (proxyHTTP live_world public_get ''/.well-known/t3/environment'' (ctr_T3 c)
      (Some (refresh_container live_world c))) ?s = (b, s2)" by fastforce
  have "\<exists>q. s2 = ?s\<lparr>hist := CallHttp q # hist ?s\<rparr>"
    using http by (simp add: proxyHTTP_def with_refresh_def proxy_do_def client_Do_def live_world_def Let_def) blast
  then obtain q where s2: "s2 = ?s\<lparr>hist := CallHttp q # hist ?s\<rparr>" by blast
  note http = http[unfolded s2]
  have "run_state (serve_container live_world live_service public_get ''env-1/.well-known/t3/environment'' ''env-1''
      (envFromContainer c) c) ?s = (Inr b, ?s\<lparr>hist := CallHttp q # hist ?s\<rparr>)"
    using assms http up public_get_facts
    by (simp add: serve_container_def ServeEnv_def envFromContainer_def is_bootstrap_def publicPath_def)
  then have "run_state (handleEnvProxy live_world live_service public_get) s = (Inr b, ?s\<lparr>hist := CallHttp q # hist ?s\<rparr>)"
    using env found public_get_facts by (simp add: handleEnvProxy_def env_of_path_def Let_def)
  then show ?thesis using public_get_facts(1) by (simp add: routes_def)
qed

theorem effects_need_a_token_witness: "mux_route public_get = EnvProxy \<and> is_public live_world public_get ''env-1''"
proof -
  obtain c s where s: "run_state (reconcile live_world) live_init = (Inr None, s)" "sv_containers s = [(''c1'', c)]"
    "t3_EnvironmentID (ctr_T3 c) = ''env-1''" "ctr_ID c = ''c1''" "t3_BackendURL (ctr_T3 c) \<noteq> []"
    using live_reconciled by blast
  obtain q where q: "hist (snd (run_state (routes live_world live_service public_get) s)) =
    CallHttp q # CallMapRange # CallMapRange # hist s"
    using live_request[OF s(2-5)] by blast
  let ?r = "run_state (routes live_world live_service public_get) s"
  have effect: "\<not> list_all quiet_call (new_calls (hist s) (hist (snd ?r)))"
    unfolding q using new_calls_append[of "hist s" "[CallHttp q, CallMapRange, CallMapRange]"]
    by (simp add: quiet_call_def token_call_def)
  have reach: "reachable live_world yaml live_service live_init (s, False)" for yaml
    using reach_start[OF s(1)] .
  have "?r = (fst ?r, snd ?r)" by simp
  note e = effects_need_a_token[OF live_New reach this effect]
  have "bearer_token (in_Header public_get) = None" by code_simp
  then show ?thesis using e public_get_facts(2) by (simp split: if_splits)
qed

theorem reachable_invariant_witness: "\<exists>s. reachable live_world (\<lambda>_ c. Inr c) live_service live_init (s, False) \<and>
    keyed (sv_containers s) \<and> map fst (sv_containers s) = [''c1'']"
proof -
  obtain c s where s: "run_state (reconcile live_world) live_init = (Inr None, s)" "sv_containers s = [(''c1'', c)]"
    using live_reconciled by blast
  have reach: "reachable live_world (\<lambda>_ c. Inr c) live_service live_init (s, False)"
    using reach_start[OF s(1)] .
  then show ?thesis using reachable_invariant[OF live_New reach] s(2) by (intro exI[of _ s]) simp
qed

theorem app_New_start_witness: "sv_cfg live_init = live_config \<and> gw_browserAuth live_init = []"
  using app_New_start[OF live_New] by simp

end
