(* ===== verification/EndToEnd.thy ===== *)
theory EndToEnd
  imports Lifecycle Invariants
begin

text \<open>
  From the button to the backend: the requests of a browser that pairs with an environment and
  then uses it, through the routes of the service.
\<close>

section \<open>Requests\<close>

definition asks_code :: "in_request \<Rightarrow> string \<Rightarrow> bool" where
  "asks_code r i \<longleftrightarrow> mux_route r = EnvironmentAction \<and> in_Path r = ''/api/environments/'' @ i @ ''/pairing-code''"

definition goes_to :: "in_request \<Rightarrow> string \<Rightarrow> string \<Rightarrow> bool" where
  "goes_to r i rest \<longleftrightarrow> mux_route r = EnvProxy \<and> in_Path r = ''/env/'' @ i @ CHR ''/'' # rest"

text \<open>What the replies carry.\<close>

definition member_of :: "string \<Rightarrow> response go \<Rightarrow> string option" where
  "member_of k reply = (case reply of
       Inr (Replied (JSON_reply _ (JObj kvs))) \<Rightarrow> map_option json_string (map_of kvs k) | _ \<Rightarrow> None)"

definition served_by :: "'z svc_state_scheme \<Rightarrow> string \<Rightarrow> Container \<Rightarrow> bool" where
  "served_by s i c \<longleftrightarrow> keyed (sv_containers s) \<and> i \<noteq> [] \<and> CHR ''/'' \<notin> set i \<and>
     filter (has_env i) (map snd (sv_containers s)) = [c]"

section \<open>Lookups\<close>

lemma served_only:
  assumes "served_by s i c"
  shows "has_env i c" "c \<in> snd ` set (sv_containers s)" "c' \<in> snd ` set (sv_containers s) \<Longrightarrow> has_env i c' \<Longrightarrow> c' = c"
proof -
  have f: "filter (has_env i) (map snd (sv_containers s)) = [c]" using assms by (simp add: served_by_def)
  then have "set (filter (has_env i) (map snd (sv_containers s))) = {c}" by simp
  then show "has_env i c" "c \<in> snd ` set (sv_containers s)" "c' \<in> snd ` set (sv_containers s) \<Longrightarrow> has_env i c' \<Longrightarrow> c' = c"
    by auto
qed

lemma environment_served:
  assumes "served_by s i c"
  shows "run_state (environment w i) s = (Some (envFromContainer c), s\<lparr>hist := CallMapRange # hist s\<rparr>)"
proof -
  obtain env s1 where 1: "run_state (environment w i) s = (env, s1)" by fastforce
  have k: "keyed (sv_containers s)" "i \<noteq> []" using assms by (simp_all add: served_by_def)
  note e = environment_run[OF k(1) 1]
  have "env \<noteq> None"
  proof
    assume "env = None"
    then show False using e(2) k(2) served_only(1,2)[OF assms] by (auto simp: list_all_iff)
  qed
  then obtain e0 where e0: "env = Some e0" by auto
  then have "\<exists>c\<in>snd ` set (sv_containers s). has_env i c \<and> e0 = envFromContainer c" using e(2) by simp
  then have "env = Some (envFromContainer c)" using served_only(3)[OF assms] e0 by blast
  then show ?thesis using 1 e(1) by simp
qed

lemma containerByEnv_served:
  assumes "served_by s i c"
  shows "run_state (containerByEnv w i) s = (Some c, s\<lparr>hist := CallMapRange # hist s\<rparr>)"
proof -
  obtain found s1 where 1: "run_state (containerByEnv w i) s = (found, s1)" by fastforce
  have k: "keyed (sv_containers s)" using assms by (simp add: served_by_def)
  note f = containerByEnv_run[OF k 1]
  have "found \<noteq> None"
  proof
    assume "found = None"
    then show False using f(2) served_only(1,2)[OF assms] by (auto simp: list_all_iff)
  qed
  then obtain c' where c': "found = Some c'" by auto
  then have "c' \<in> snd ` set (sv_containers s)" "has_env i c'" using f(2) by simp_all
  then have "found = Some c" using served_only(3)[OF assms] c' by blast
  then show ?thesis using 1 f(1) by simp
qed

lemma served_by_other: "sv_containers s' = sv_containers s \<Longrightarrow> served_by s' i c = served_by s i c"
  by (simp add: served_by_def)

lemma goes_to_env: "goes_to r i rest \<Longrightarrow> CHR ''/'' \<notin> set i \<Longrightarrow>
    mux_route r = EnvProxy \<and> env_of_path r = i \<and> TrimPrefix (in_Path r) ''/env/'' = i @ CHR ''/'' # rest \<and>
    env_rest r i = CHR ''/'' # rest"
  using TrimPrefix_append[of "''/env/''" "i @ CHR ''/'' # rest"] TrimPrefix_append[of "''/env/'' @ i" "CHR ''/'' # rest"]
    Cut_append[of "CHR ''/''" i rest]
  by (simp add: goes_to_def env_of_path_def env_rest_def)

lemma envproxy_served:
  assumes s: "served_by s i c" and r: "goes_to r i rest"
  shows "run_state (routes w svc r) s =
    (case run_state (serve_container w svc r (i @ CHR ''/'' # rest) i (envFromContainer c) c)
        (s\<lparr>hist := CallMapRange # CallMapRange # hist s\<rparr>) of
      (Inl p, s') \<Rightarrow> (Inl p, s') | (Inr reply, s') \<Rightarrow> (Inr (Replied reply), s'))"
proof -
  have "CHR ''/'' \<notin> set i" using s by (simp add: served_by_def)
  note p = goes_to_env[OF r this]
  have cut: "fst (Cut (i @ CHR ''/'' # rest) CHR ''/'') = i"
    using Cut_append[of "CHR ''/''" i rest] s by (simp add: served_by_def)
  have s1: "served_by (s\<lparr>hist := CallMapRange # hist s\<rparr>) i c" using s by (simp add: served_by_def)
  show ?thesis
    using p cut environment_served[OF s] containerByEnv_served[OF s1]
    by (simp add: routes_def handleEnvProxy_def Let_def split: prod.split sum.split)
qed

section \<open>The three requests\<close>

lemma code_request:
  assumes s: "served_by s i c" and r: "asks_code r i"
  shows "\<exists>code h h' e. run_state (routes w svc r) s =
    (Inr (Replied (JSON_reply 200 (JObj [(''environmentId'', JStr i), (''pairingCode'', JStr code), e]))),
     s\<lparr>hist := h, gw_pairing := AList.update code
       \<lparr>pc_Code = code, pc_EnvID = i, pc_ExpiresAt = w_Now w h' + 5 * minute\<rparr> (gw_pairing s)\<rparr>)"
proof -
  have i: "CHR ''/'' \<notin> set i" using s by (simp add: served_by_def)
  have p: "mux_route r = EnvironmentAction" "Cut (TrimPrefix (in_Path r) ''/api/environments/'') CHR ''/'' = (i, ''pairing-code'', True)"
    using r TrimPrefix_append[of "''/api/environments/''" "i @ ''/pairing-code''"] Cut_append[OF i, of "''pairing-code''"]
    by (simp_all add: asks_code_def)
  show ?thesis
    using p environment_served[OF s, of w]
    by (auto simp: routes_def replied_def handleEnvironmentAction_def GeneratePairingCode_def randomCode_def Let_def)
qed

lemma bootstrap_request:
  assumes s: "served_by s i c" and b: "t3_BackendURL (ctr_T3 c) \<noteq> []" and svc: "svc_tokenStore svc = None"
    and r: "goes_to r i ''api/auth/bootstrap/bearer''" "in_Method r = ''POST''"
    and code: "map_of (gw_pairing s) (request_code w r) = Some p" "pc_EnvID p = i" "\<And>h. w_Now w h \<le> pc_ExpiresAt p"
  shows "\<exists>t h h' e1 e2 pairing auth. run_state (routes w svc r) s =
    (Inr (Replied (JSON_reply 200 (JObj [(''bearerToken'', JStr t), (''token'', JStr t), e1, e2]))),
     s\<lparr>hist := h, gw_pairing := pairing, gw_browserAuth :=
       AList.update t \<lparr>bt_Token = t, bt_EnvID = i, bt_ExpiresAt = w_Now w h' + 24 * hour\<rparr> auth\<rparr>)"
proof -
  have i: "CHR ''/'' \<notin> set i" "env_ID (envFromContainer c) = i"
    using s served_only(1)[OF s] by (simp_all add: served_by_def has_env_def envFromContainer_def)
  have "is_bootstrap r i" using goes_to_env[OF r(1) i(1)] r(2) by (simp add: is_bootstrap_def)
  moreover have "\<not> pc_ExpiresAt p < w_Now w h" for h using code(3) by (simp add: not_less)
  ultimately show ?thesis
    using b svc i(2) code(1,2) envproxy_served[OF s r(1), of w svc]
    by (auto simp: serve_container_def ServeEnv_def handleBootstrap_def redeem_none Let_def)
qed

lemma proxied_request:
  fixes s :: "'z svc_state_scheme"
  assumes s: "served_by s i c" and b: "w_url_Parse w (t3_BackendURL (ctr_T3 c)) = Inr target" "t3_BackendURL (ctr_T3 c) \<noteq> []"
    and svc: "svc_tokenStore svc = None"
    and r: "goes_to r i rest" "rest \<notin> {''spawn-stage'', ''api/auth/bootstrap/bearer''}"
    and http: "\<not> w_IsWebSocketUpgrade w (in_Header r)"
    and token: "bearer_token (in_Header r) = Some t" "map_of (gw_browserAuth s) t = Some e" "bt_EnvID e = i"
      "\<And>h. w_Now w h < bt_ExpiresAt e"
    and q: "q = \<lparr>req_Method = in_Method r, req_URL = proxy_url w target r (CHR ''/'' # rest),
      req_Header = proxy_header r (t3_BackendToken (ctr_T3 c)), req_Body = in_Body r\<rparr>"
    and ok: "w_url_Parse w (req_URL q) = Inr u" "\<And>h. w_Http w h q = Inr resp" "resp_StatusCode resp \<noteq> 401"
  shows "\<exists>n. run_state (routes w svc r) s =
    (Inr (Replied (Relay (resp_StatusCode resp) (copyHeader [] (resp_Header resp)) (resp_Body resp))),
     s\<lparr>hist := CallHttp q # n @ hist s\<rparr>)"
proof -
  have i: "CHR ''/'' \<notin> set i" "env_ID (envFromContainer c) = i"
    using s served_only(1)[OF s] by (simp_all add: served_by_def has_env_def envFromContainer_def)
  note g = goes_to_env[OF r(1) i(1)]
  have not_boot: "\<not> is_bootstrap r i" using g r(2) by (simp add: is_bootstrap_def)
  have auth: "\<exists>n. run_state (authorizedWithStore w None r i j) s' = (True, s'\<lparr>hist := n @ hist s'\<rparr>)"
    if "gw_browserAuth s' = gw_browserAuth s" for s' :: "'z svc_state_scheme" and j
    using token that by (intro exI[of _ "[CallNow]"]) (simp add: authorizedWithStore_def cached_check_def)
  have proxy: "run_state (proxyHTTP w r (CHR ''/'' # rest) (ctr_T3 c) (Some f)) s' =
      (Relay (resp_StatusCode resp) (copyHeader [] (resp_Header resp)) (resp_Body resp), s'\<lparr>hist := CallHttp q # hist s'\<rparr>)"
      for f and s' :: "'z svc_state_scheme"
    using b(1) q ok by (simp add: proxyHTTP_def with_refresh_def proxy_do_def client_Do_def Let_def)
  define s0 where "s0 = s\<lparr>hist := CallMapRange # CallMapRange # hist s\<rparr>"
  have "TrimPrefix (i @ CHR ''/'' # rest) i \<noteq> ''/spawn-stage''" using r(2) by simp
  then have serve: "run_state (serve_container w svc r (i @ CHR ''/'' # rest) i (envFromContainer c) c) s0 =
      run_state (ServeEnv w None r (envFromContainer c) (ctr_T3 c) (Some (refresh_container w c))) s0"
    using b(2) svc by (simp add: serve_container_def)
  obtain n where n: "run_state (authorizedWithStore w None r i (store_key (envFromContainer c))) s0 =
      (True, s0\<lparr>hist := n @ hist s0\<rparr>)" using auth[of s0] by (auto simp: s0_def)
  have "\<exists>n. run_state (ServeEnv w None r (envFromContainer c) (ctr_T3 c) (Some (refresh_container w c))) s0 =
      (Inr (Relay (resp_StatusCode resp) (copyHeader [] (resp_Header resp)) (resp_Body resp)),
       s0\<lparr>hist := CallHttp q # n @ hist s0\<rparr>)"
    using n not_boot i(2) http g proxy by (cases "publicPath (CHR ''/'' # rest)") (auto simp: ServeEnv_def intro: exI[of _ "[]"])
  then obtain m where "run_state (ServeEnv w None r (envFromContainer c) (ctr_T3 c) (Some (refresh_container w c))) s0 =
      (Inr (Relay (resp_StatusCode resp) (copyHeader [] (resp_Header resp)) (resp_Body resp)),
       s0\<lparr>hist := CallHttp q # m @ hist s0\<rparr>)" by blast
  then show ?thesis
    using envproxy_served[OF s r(1), of w svc] serve unfolding s0_def
    by (intro exI[of _ "m @ [CallMapRange, CallMapRange]"]) simp
qed

section \<open>Property\<close>

text \<open>Claim C10. A browser gets through: when an environment is served by one container with a backend, the code
  that the API hands out, presented within five minutes, is traded for a token, and a request
  with that token reaches the backend, with the owner's token in place of the browser's, and
  gets the backend's answer.\<close>

theorem paired_browser_reaches_backend:
  assumes s: "served_by s i c" and b: "w_url_Parse w (t3_BackendURL (ctr_T3 c)) = Inr target" "t3_BackendURL (ctr_T3 c) \<noteq> []"
    and svc: "svc_tokenStore svc = None" and clock: "\<And>h. T \<le> w_Now w h \<and> w_Now w h \<le> T + 5 * minute"
    and r1: "asks_code r1 i" and r2: "goes_to r2 i ''api/auth/bootstrap/bearer''" "in_Method r2 = ''POST''"
    and r3: "goes_to r3 i rest" "rest \<notin> {''spawn-stage'', ''api/auth/bootstrap/bearer''}"
      "\<not> w_IsWebSocketUpgrade w (in_Header r3)"
    and q: "q = \<lparr>req_Method = in_Method r3, req_URL = proxy_url w target r3 (CHR ''/'' # rest),
      req_Header = proxy_header r3 (t3_BackendToken (ctr_T3 c)), req_Body = in_Body r3\<rparr>"
    and ok: "w_url_Parse w (req_URL q) = Inr u" "\<And>h. w_Http w h q = Inr resp" "resp_StatusCode resp \<noteq> 401"
    and run: "run_state (routes w svc r1) s = (reply1, s1)" "run_state (routes w svc r2) s1 = (reply2, s2)"
      "run_state (routes w svc r3) s2 = (reply3, s3)"
    and code: "member_of ''pairingCode'' reply1 = Some (request_code w r2)"
    and token: "bearer_token (in_Header r3) = member_of ''token'' reply2"
  shows "reply3 = Inr (Replied (Relay (resp_StatusCode resp) (copyHeader [] (resp_Header resp)) (resp_Body resp))) \<and>
    (\<exists>n. hist s3 = CallHttp q # n @ hist s2)"
proof -
  have close: "w_Now w h \<le> w_Now w h' + 5 * minute" for h h' using clock[of h] clock[of h'] by linarith
  obtain code h h1 where 1: "member_of ''pairingCode'' reply1 = Some code" "s1 = s\<lparr>hist := h, gw_pairing :=
      AList.update code \<lparr>pc_Code = code, pc_EnvID = i, pc_ExpiresAt = w_Now w h1 + 5 * minute\<rparr> (gw_pairing s)\<rparr>"
    using code_request[OF s r1, of w svc] run(1) by (auto simp: member_of_def json_string_def)
  have served1: "served_by s1 i c" using s by (simp add: 1(2) served_by_def)
  have "map_of (gw_pairing s1) (request_code w r2) =
      Some \<lparr>pc_Code = code, pc_EnvID = i, pc_ExpiresAt = w_Now w h1 + 5 * minute\<rparr>"
    using code 1 by (simp add: update_conv')
  note boot = bootstrap_request[OF served1 b(2) svc r2 this]
  obtain t h h2 auth where 2: "member_of ''token'' reply2 = Some t" "gw_browserAuth s2 =
      AList.update t \<lparr>bt_Token = t, bt_EnvID = i, bt_ExpiresAt = w_Now w h2 + 24 * hour\<rparr> auth"
      "sv_containers s2 = sv_containers s"
    using boot close[of _ h1] run(2) by (auto simp: member_of_def json_string_def 1(2))
  have served2: "served_by s2 i c" using s by (simp add: 2(3) served_by_def)
  have held: "map_of (gw_browserAuth s2) t = Some \<lparr>bt_Token = t, bt_EnvID = i, bt_ExpiresAt = w_Now w h2 + 24 * hour\<rparr>"
    by (simp add: 2(2) update_conv')
  have "5 * minute < 24 * hour" by (simp add: hour_def minute_def second_def)
  then have fresh: "w_Now w h < w_Now w h2 + 24 * hour" for h using close[of h h2] by linarith
  have bearer: "bearer_token (in_Header r3) = Some t" using token 2(1) by simp
  show ?thesis
    using proxied_request[OF served2 b svc r3 bearer held _ _ q ok] fresh run(3) by auto
qed

section \<open>Witness\<close>

definition web_world :: world where
  "web_world = pairing_world\<lparr>
     w_url_Parse := \<lambda>_. Inr \<lparr>url_Scheme = ''http'', url_Host = ''10.0.0.2:3773'', url_Path = [], url_RawQuery = []\<rparr>,
     w_Http := \<lambda>_ _. Inr \<lparr>resp_StatusCode = 200, resp_Status = ''200 OK'', resp_Header = [], resp_Body = ''hello''\<rparr>\<rparr>"

definition web_container :: Container where
  "web_container = zero_container\<lparr>ctr_ID := ''c1'', ctr_T3 := empty_t3\<lparr>t3_EnvironmentID := ''env-1'',
     t3_BackendURL := ''http://10.0.0.2:3773'', t3_BackendToken := ''owner''\<rparr>\<rparr>"

definition web_state :: svc_state where
  "web_state = live_init\<lparr>sv_containers := [(''c1'', web_container)]\<rparr>"

definition web_code :: in_request where
  "web_code = plain_request\<lparr>in_Path := ''/api/environments/env-1/pairing-code''\<rparr>"

definition web_bootstrap :: in_request where
  "web_bootstrap = plain_request\<lparr>in_Path := ''/env/env-1/api/auth/bootstrap/bearer''\<rparr>"

definition web_get :: in_request where
  "web_get = (bearer_request zero_token)\<lparr>in_Method := ''GET'', in_Path := ''/env/env-1/x''\<rparr>"

definition web_answer :: http_response where
  "web_answer = \<lparr>resp_StatusCode = 200, resp_Status = ''200 OK'', resp_Header = [], resp_Body = ''hello''\<rparr>"

lemma web_requests: "asks_code web_code ''env-1''" "goes_to web_bootstrap ''env-1'' ''api/auth/bootstrap/bearer''"
  "in_Method web_bootstrap = ''POST''" "goes_to web_get ''env-1'' ''x''"
  by code_simp+

lemma web_world_simps [simp]:
  "w_Now web_world h = 0" "w_Rand web_world h n = replicate n (CHR 0x00)" "request_code web_world r = zero_code"
  "w_Http web_world h q = Inr web_answer" "\<not> w_IsWebSocketUpgrade web_world hs"
  "w_url_Parse web_world x = Inr \<lparr>url_Scheme = ''http'', url_Host = ''10.0.0.2:3773'', url_Path = [], url_RawQuery = []\<rparr>"
  by (simp_all add: web_world_def web_answer_def pairing_world_def db_world_def offline_world_def request_code_def
      Let_def decode_strings_def json_string_def map_get_def)

lemma web_served: "served_by web_state ''env-1'' web_container"
  by (simp add: served_by_def web_state_def web_container_def keyed_def has_env_def zero_container_def)

definition web_paired :: svc_state where
  "web_paired = web_state\<lparr>hist := CallNow # CallRand 18 # CallMapRange # hist web_state,
     gw_pairing := [(zero_code, \<lparr>pc_Code = zero_code, pc_EnvID = ''env-1'', pc_ExpiresAt = 5 * minute\<rparr>)]\<rparr>"

lemma web_code_run:
  "member_of ''pairingCode'' (fst (run_state (routes web_world live_service web_code) web_state)) = Some zero_code"
  "snd (run_state (routes web_world live_service web_code) web_state) = web_paired"
proof -
  have p: "mux_route web_code = EnvironmentAction"
    "Cut (TrimPrefix (in_Path web_code) ''/api/environments/'') CHR ''/'' = (''env-1'', ''pairing-code'', True)" by code_simp+
  show "member_of ''pairingCode'' (fst (run_state (routes web_world live_service web_code) web_state)) = Some zero_code"
    "snd (run_state (routes web_world live_service web_code) web_state) = web_paired"
    using p environment_served[OF web_served, of web_world]
    by (simp_all add: routes_def replied_def handleEnvironmentAction_def GeneratePairingCode_def randomCode_def Let_def
        zero_codes member_of_def json_string_def web_paired_def web_state_def live_init_def)
qed

lemma web_bootstrap_run:
  "member_of ''token'' (fst (run_state (routes web_world live_service web_bootstrap) web_paired)) = Some zero_token"
proof -
  have served: "served_by web_paired ''env-1'' web_container" using web_served by (simp add: served_by_def web_paired_def)
  have "is_bootstrap web_bootstrap ''env-1''" "TrimPrefix ''env-1/api/auth/bootstrap/bearer'' ''env-1'' \<noteq> ''/spawn-stage''"
    by code_simp+
  moreover have "env_ID (envFromContainer web_container) = ''env-1''" "t3_BackendURL (ctr_T3 web_container) \<noteq> []"
    "svc_tokenStore live_service = None"
    by (simp_all add: web_container_def envFromContainer_def live_service_def)
  moreover have "gw_pairing web_paired = [(zero_code, \<lparr>pc_Code = zero_code, pc_EnvID = ''env-1'', pc_ExpiresAt = 5 * minute\<rparr>)]"
    by (simp add: web_paired_def)
  ultimately show ?thesis
    using envproxy_served[OF served web_requests(2), of web_world live_service]
    by (simp add: serve_container_def ServeEnv_def handleBootstrap_def redeem_none Let_def zero_codes
        member_of_def json_string_def minute_def second_def)
qed

theorem paired_browser_reaches_backend_witness:
  "fst (run_state (routes web_world live_service web_get) (snd (run_state (routes web_world live_service web_bootstrap)
     web_paired))) = Inr (Replied (Relay 200 [] ''hello''))"
proof -
  have b: "t3_BackendURL (ctr_T3 web_container) \<noteq> []" by (simp add: web_container_def)
  have svc: "svc_tokenStore live_service = None" by (simp add: live_service_def)
  have token: "bearer_token (in_Header web_get) =
      member_of ''token'' (fst (run_state (routes web_world live_service web_bootstrap) web_paired))"
    using bearer_zero by (simp add: web_bootstrap_run web_get_def)
  have code: "run_state (routes web_world live_service web_code) web_state =
      (fst (run_state (routes web_world live_service web_code) web_state), web_paired)"
    by (rule prod_eqI) (simp_all add: web_code_run)
  have carries: "member_of ''pairingCode'' (fst (run_state (routes web_world live_service web_code) web_state)) =
      Some (request_code web_world web_bootstrap)"
    by (simp add: web_code_run)
  have "fst (run_state (routes web_world live_service web_get) (snd (run_state (routes web_world live_service web_bootstrap)
      web_paired))) = Inr (Replied (Relay (resp_StatusCode web_answer) (copyHeader [] (resp_Header web_answer)) (resp_Body web_answer)))"
    by (rule paired_browser_reaches_backend[where T = 0, THEN conjunct1, OF web_served web_world_simps(6) b svc _ web_requests(1)
        web_requests(2,3) web_requests(4) _ _ refl web_world_simps(6) web_world_simps(4) _ code
        prod.collapse[symmetric] prod.collapse[symmetric] carries token])
      (simp_all add: web_answer_def minute_def second_def)
  then show ?thesis by (simp add: web_answer_def)
qed

end
