(* ===== verification/Interleaving.thy ===== *)
theory Interleaving
  imports Invariants
begin

text \<open>
  The goroutines of the service at a finer grain. The mutex of the gateway is not held while
  \<open>authorizedWithStore\<close> asks the store, the lock of the service is not held while a token is
  issued or while a reconciliation works on its copies. Here these operations take several
  steps, with the local variables of the goroutines in between as pending work, so that other
  operations come in between. What holds of the tokens at every such point is proved; what the
  code loses between its steps is shown too.
\<close>

section \<open>Operations in parts\<close>

text \<open>\<open>store_check\<close> after the store has answered.\<close>

definition store_decide :: "world \<Rightarrow> ('z gw_state_scheme) token_store \<Rightarrow> string \<Rightarrow> string \<Rightarrow> (browserToken \<times> bool) res \<Rightarrow>
    ('z gw_state_scheme, browserToken option) state" where
  "store_decide w st storeID token got = (case got of
       Inl err \<Rightarrow> State_Monad.return None
     | Inr (entry, ok) \<Rightarrow> do {
         refused \<leftarrow> (if \<not> ok \<or> bt_Token entry \<noteq> token then State_Monad.return True
                    else do { now \<leftarrow> time_Now w; State_Monad.return (now > bt_ExpiresAt entry) });
         if refused then do {
           expired \<leftarrow> (if ok then do { now \<leftarrow> time_Now w; State_Monad.return (now > bt_ExpiresAt entry) }
                       else State_Monad.return False);
           _ \<leftarrow> (if expired then ts_Delete st storeID else State_Monad.return None);
           State_Monad.return None
         }
         else State_Monad.return (Some entry)
       })"

lemma store_check_parts:
  "store_check w st storeID token = do { got \<leftarrow> ts_Get st storeID; store_decide w st storeID token got }"
  unfolding store_check_def store_decide_def ..

text \<open>The second part of the closure \<open>refresh\<close>, under the lock.\<close>

definition remember :: "string \<Rightarrow> string \<Rightarrow> ('z svc_state_scheme, unit) state" where
  "remember i token = do {
     containers \<leftarrow> get_containers;
     put_containers (remember_token i token containers)
   }"

lemma refresh_container_parts:
  "run_state (refresh_container w c) s = run_state (do {
     issued \<leftarrow> RefreshBackendToken (dockerx_client w) (ctr_ID c) (ctr_WorkspaceFolder c);
     case issued of Inl err \<Rightarrow> State_Monad.return (Inl err)
     | Inr token \<Rightarrow> do { remember (ctr_ID c) token; State_Monad.return (Inr token) }
   }) s"
  by (simp add: refresh_container_def remember_def split: prod.split sum.split)

datatype pending =
    PendingEntry string string string "(browserToken \<times> bool) res"
  | PendingCache string string browserToken
  | PendingToken string string
  | PendingStore "Container list" "Session list"

type_synonym system = "svc_state \<times> pending list"

text \<open>
  Steps. A bootstrap and the making of a code hold the mutex throughout; a request that finds
  its token in the map changes nothing.
\<close>

inductive fine_step :: "world \<Rightarrow> system \<Rightarrow> system \<Rightarrow> bool" for w where
  fine_generate: "run_state (GeneratePairingCode w envID) s = (a, s') \<Longrightarrow> fine_step w (s, ps) (s', ps)"
| fine_bootstrap: "run_state (handleBootstrap w (Some (postgres_store w)) r env) s = (reply, s') \<Longrightarrow>
    fine_step w (s, ps) (s', ps)"
| fine_fetch: "run_state (pg_Get w storeID) s = (got, s') \<Longrightarrow>
    fine_step w (s, ps) (s', PendingEntry envID storeID token got # ps)"
| fine_decide: "p = PendingEntry envID storeID token got \<Longrightarrow> p \<in> set ps \<Longrightarrow>
    run_state (store_decide w (postgres_store w) storeID token got) s = (found, s') \<Longrightarrow>
    fine_step w (s, ps) (s', (case found of None \<Rightarrow> [] | Some e \<Rightarrow> [PendingCache envID token e]) @ remove1 p ps)"
| fine_cache: "p = PendingCache envID token e \<Longrightarrow> p \<in> set ps \<Longrightarrow> run_state (cache_token envID token e) s = (a, s') \<Longrightarrow>
    fine_step w (s, ps) (s', remove1 p ps)"
| fine_issue: "run_state (RefreshBackendToken (dockerx_client w) i workspace) s = (Inr token, s') \<Longrightarrow>
    fine_step w (s, ps) (s', PendingToken i token # ps)"
| fine_remember: "p = PendingToken i token \<Longrightarrow> p \<in> set ps \<Longrightarrow> run_state (remember i token) s = (a, s') \<Longrightarrow>
    fine_step w (s, ps) (s', remove1 p ps)"
| fine_scan: "run_state (reconcile_scan w) s = (Inr (Inr (cs, ss)), s') \<Longrightarrow>
    fine_step w (s, ps) (s', PendingStore cs ss # ps)"
| fine_store: "p = PendingStore cs ss \<Longrightarrow> p \<in> set ps \<Longrightarrow> run_state (reconcile_store cs ss) s = (a, s') \<Longrightarrow>
    fine_step w (s, ps) (s', remove1 p ps)"

inductive fine_reach :: "world \<Rightarrow> system \<Rightarrow> system \<Rightarrow> bool" for w c0 where
  fine_here: "fine_reach w c0 c0"
| fine_next: "fine_reach w c0 c \<Longrightarrow> fine_step w c c' \<Longrightarrow> fine_reach w c0 c'"

section \<open>What every step keeps\<close>

fun pending_ok :: "world \<Rightarrow> string set \<Rightarrow> call list \<Rightarrow> pending \<Rightarrow> bool" where
  "pending_ok w old h (PendingEntry envID storeID token (Inr (e, True))) = accounted w old h (bt_Token e)"
| "pending_ok w old h (PendingCache envID token e) = (bt_Token e = token \<and> accounted w old h token)"
| "pending_ok w old h _ = True"

definition fine_inv :: "world \<Rightarrow> string set \<Rightarrow> system \<Rightarrow> bool" where
  "fine_inv w old c \<longleftrightarrow> tokens_ok w old (fst c) \<and> distinct (map fst (sv_containers (fst c))) \<and>
     list_all (pending_ok w old (hist (fst c))) (snd c)"

lemma pending_ok_mono: "pending_ok w old h p \<Longrightarrow> pending_ok w old (n @ h) p"
  by (cases "(w, old, h, p)" rule: pending_ok.cases) (auto intro: accounted_mono)

text \<open>A step is described by what it does to the calls, the tokens, the containers, and by the work it adds.\<close>

lemma fine_invI:
  assumes inv: "fine_inv w old (s, ps)" and h: "hist s' = n @ hist s"
    and tok: "tokens_ok w old s'" and ctr: "distinct (map fst (sv_containers s'))"
    and new: "list_all (pending_ok w old (hist s')) add" and sub: "set ps' \<subseteq> set ps"
  shows "fine_inv w old (s', add @ ps')"
  using assms by (auto simp: fine_inv_def list_all_iff pending_ok_mono)

lemma fine_tok:
  assumes inv: "fine_inv w old (s, ps)" and keep: "tok_keep w old s s'" and same: "sv_containers s' = sv_containers s"
    and new: "list_all (pending_ok w old (hist s')) add" and sub: "set ps' \<subseteq> set ps"
  shows "fine_inv w old (s', add @ ps')"
proof -
  obtain n where "hist s' = n @ hist s" "tokens_ok w old s'"
    using keep inv by (auto simp: tok_keep_def fine_inv_def)
  then show ?thesis using fine_invI[OF inv _ _ _ new sub] inv same by (simp add: fine_inv_def)
qed

lemma remove1_sub: "set (remove1 p ps) \<subseteq> set ps"
  by (rule set_remove1_subset)

lemma tok_keep_decide: "moves_by (tok_keep w old) (store_decide w (postgres_store w) i t got)"
  unfolding store_decide_def time_Now_def postgres_store_def token_store.select_convs
  by (intro tok.io_rules tok_store)

lemma gw_only_decide: "moves_by gw_only (store_decide w (postgres_store w) i t got)"
  unfolding store_decide_def time_Now_def postgres_store_def token_store.select_convs
  by (intro gwf.io_rules gw_only_store)

lemma store_decide_found:
  assumes "run_state (store_decide w st i t got) s = (Some e, s')"
  shows "got = Inr (e, True) \<and> bt_Token e = t"
  using assms by (auto simp: store_decide_def split: sum.splits if_splits prod.splits)

lemma pg_Get_entry:
  assumes "run_state (pg_Get w i) s = (Inr (e, True), s')" "tokens_ok w old s"
  shows "accounted w old (hist s) (bt_Token e)"
proof -
  have "pg_view s i = Some e" using pg_Get_law[OF assms(1)] by simp
  then show ?thesis using assms(2) by (auto simp: pg_view_def token_row_def intro: row_accounted dest!: map_of_SomeD)
qed

lemma step_fine_inv:
  assumes step: "fine_step w (s, ps) (s', ps')" and inv: "fine_inv w old (s, ps)"
  shows "fine_inv w old (s', ps')"
  using step
proof cases
  case (fine_generate envID a)
  have "tok_keep w old s s'" using tok_generate fine_generate(2) by (rule moves_byD)
  then show ?thesis
    using fine_tok[OF inv _ gw_only_svc(1)[OF moves_byD[OF gw_only_generate fine_generate(2)]], of "[]" ps] fine_generate(1)
    by simp
next
  case (fine_bootstrap r env reply)
  have ts: "store_ok w (Some (postgres_store w))" by (simp add: store_ok_def)
  have "\<exists>n. hist s' = n @ hist s"
    by (rule calls_grow[OF postgres.bootstrap_calls fine_bootstrap(2)]) simp
  then have "tok_keep w old s s'" by (rule tok_keepI) (rule bootstrap_tokens[OF fine_bootstrap(2) ts])
  then show ?thesis
    using fine_tok[OF inv _ gw_only_svc(1)[OF moves_byD[OF gw_only_bootstrap[OF ts] fine_bootstrap(2)]], of "[]" ps] fine_bootstrap(1)
    by simp
next
  case (fine_fetch storeID got envID token)
  have keep: "tok_keep w old s s'" using tok_store(1) fine_fetch(2) by (rule moves_byD)
  have "pending_ok w old (hist s') (PendingEntry envID storeID token got)"
  proof (cases "\<exists>e. got = Inr (e, True)")
    case True
    then obtain e where e: "got = Inr (e, True)" by blast
    have "accounted w old (hist s) (bt_Token e)"
      using pg_Get_entry[OF fine_fetch(2)[unfolded e]] inv by (simp add: fine_inv_def)
    then show ?thesis using keep accounted_mono by (auto simp: e tok_keep_def)
  next
    case False
    then show ?thesis
    proof (cases got)
      case (Inr b)
      then obtain e where "got = Inr (e, False)" using False by (cases b) auto
      then show ?thesis by simp
    qed simp
  qed
  then show ?thesis
    using fine_tok[OF inv keep gw_only_svc(1)[OF moves_byD[OF gw_only_store(2) fine_fetch(2)]],
        of "[PendingEntry envID storeID token got]" ps] fine_fetch(1) by simp
next
  case (fine_decide p envID storeID token got found)
  have keep: "tok_keep w old s s'" using tok_keep_decide fine_decide(4) by (rule moves_byD)
  have p: "pending_ok w old (hist s) p" using inv fine_decide(3) by (simp add: fine_inv_def list_all_iff)
  have "list_all (pending_ok w old (hist s')) (case found of None \<Rightarrow> [] | Some e \<Rightarrow> [PendingCache envID token e])"
  proof (cases found)
    case (Some e)
    note e = store_decide_found[OF fine_decide(4)[unfolded Some]]
    have "accounted w old (hist s) token" using p e fine_decide(2) by simp
    then show ?thesis using Some e keep accounted_mono by (auto simp: tok_keep_def)
  qed simp
  then show ?thesis
    using fine_tok[OF inv keep gw_only_svc(1)[OF moves_byD[OF gw_only_decide fine_decide(4)]] _ remove1_sub] fine_decide(1) by simp
next
  case (fine_cache p envID token e a)
  have p: "pending_ok w old (hist s) p" using inv fine_cache(3) by (simp add: fine_inv_def list_all_iff)
  have s': "s' = s\<lparr>gw_browserAuth := AList.update token (e\<lparr>bt_EnvID := envID\<rparr>) (gw_browserAuth s)\<rparr>"
    using fine_cache(4) by (simp add: cache_token_run)
  have "tokens_ok w old s'"
    unfolding s' tokens_ok_auth
    using inv p fine_cache(2) by (auto simp: fine_inv_def tokens_ok_def intro!: list_all_update)
  then have "tok_keep w old s s'" by (simp add: tok_keep_def s')
  then show ?thesis using fine_tok[OF inv _ _ _ remove1_sub, of s' "[]" p] fine_cache(1) by (simp add: s')
next
  case (fine_issue i workspace token)
  have io: "io_only (\<lambda>_. True) (RefreshBackendToken (dockerx_client w) i workspace :: (svc_state, string res) state)"
    unfolding RefreshBackendToken_def by (rule dockerx.issueBackendToken_io) simp
  obtain n where n: "s' = s\<lparr>hist := n @ hist s\<rparr>" using io fine_issue(2) by (rule io_onlyE)
  then have "tok_keep w old s s'" by (simp add: tok_keep_def tokens_ok_hist)
  then show ?thesis using fine_tok[OF inv, of s' "[PendingToken i token]" ps] fine_issue(1) by (simp add: n)
next
  case (fine_remember p i token a)
  have s': "s' = s\<lparr>sv_containers := remember_token i token (sv_containers s)\<rparr>"
    using fine_remember(4) by (simp add: remember_def)
  have "tokens_ok w old s'" using inv by (simp add: s' fine_inv_def tokens_ok_def)
  moreover have "distinct (map fst (sv_containers s'))"
    using inv by (simp add: s' fine_inv_def remember_token_def distinct_update)
  ultimately have "fine_inv w old (s', [] @ remove1 p ps)"
    by (intro fine_invI[OF inv, of s' "[]"] remove1_sub) (simp_all add: s')
  then show ?thesis using fine_remember(1) by simp
next
  case (fine_scan cs ss)
  have frame: "mut_frame s s'" using reconcile_scan_only fine_scan(2) by (rule moves_byD)
  then obtain n where n: "hist s' = n @ hist s" by (auto simp: mut_frame_def)
  then have s': "s' = s\<lparr>hist := n @ hist s, ms_client := ms_client s'\<rparr>" using frame by (simp add: mut_frame_def)
  have "tok_keep w old s s'"
  proof (rule tok_keepI)
    assume "tokens_ok w old s"
    then show "tokens_ok w old s'"
      using tokens_ok_hist[of w old s n] by (subst s') (simp add: tokens_ok_def)
  qed (use n in blast)
  moreover have "sv_containers s' = sv_containers s" by (subst s') simp
  ultimately show ?thesis using fine_tok[OF inv, of s' "[PendingStore cs ss]" ps] fine_scan(1) by simp
next
  case (fine_store p cs ss a)
  have s': "s' = s\<lparr>sv_containers := next_containers cs, sv_sessions := ss\<rparr>"
    using fine_store(4) by (simp add: reconcile_store_def)
  have "tokens_ok w old s'" using inv by (simp add: s' fine_inv_def tokens_ok_def)
  moreover have "distinct (map fst (sv_containers s'))"
    using next_containers_spec(1)[of cs] by (simp add: s' keyed_def)
  ultimately have "fine_inv w old (s', [] @ remove1 p ps)"
    by (intro fine_invI[OF inv, of s' "[]"] remove1_sub) (simp_all add: s')
  then show ?thesis using fine_store(1) by simp
qed

lemma reach_fine_inv: "fine_reach w c0 c \<Longrightarrow> fine_inv w old c0 \<Longrightarrow> fine_inv w old c"
proof (induction rule: fine_reach.induct)
  case (fine_next c c')
  then show ?case using step_fine_inv[of w "fst c" "snd c" "fst c'" "snd c'"] by simp
qed simp

section \<open>Properties\<close>

text \<open>Claim C19. However the steps of requests, bootstraps and reconciliations interleave, every browser token in
  memory, in the table or on its way from the one to the other was drawn by a bootstrap or there
  at the start, and no container is stored twice.\<close>

theorem interleaved_tokens:
  assumes new: "run_state (app_New w path cfg) s00 = (Inr svc, s0)" and reach: "fine_reach w (s0, []) (s, ps)"
  shows "tokens_ok w (table_tokens s00) s \<and> distinct (map fst (sv_containers s)) \<and>
    list_all (pending_ok w (table_tokens s00) (hist s)) ps"
proof -
  have "fine_inv w (table_tokens s00) (s0, [])"
    using app_New_cases[OF new] by (simp add: fine_inv_def svc_inv_def keyed_def)
  from reach_fine_inv[OF reach this] show ?thesis by (simp add: fine_inv_def)
qed

text \<open>Claim C20. Rotation does not hold between the steps: a request that has read its token's row before a
  bootstrap replaces it puts the revoked token back into the map afterwards, and from then on
  that token is accepted again until it expires.\<close>

theorem revoked_token_returns:
  assumes fetch: "run_state (pg_Get w (store_key env)) s = (Inr (e, True), s1)"
    and boot: "run_state (handleBootstrap w (Some (postgres_store w)) r env) s1 = (JSON_reply c b, s2)"
    and token: "bearer_token (in_Header r') = Some (bt_Token e)"
    and valid: "\<And>h. w_Now w h < bt_ExpiresAt e"
  shows "\<exists>s3. fine_reach w (s, []) (s3, []) \<and> fst (run_state (authorizedWithStore w ts r' (env_ID env) k) s3)"
proof -
  let ?p = "PendingEntry (env_ID env) (store_key env) (bt_Token e) (Inr (e, True))"
  let ?q = "PendingCache (env_ID env) (bt_Token e) e"
  let ?s3 = "s2\<lparr>hist := CallNow # hist s2\<rparr>"
  let ?s4 = "?s3\<lparr>gw_browserAuth := AList.update (bt_Token e) (e\<lparr>bt_EnvID := env_ID env\<rparr>) (gw_browserAuth s2)\<rparr>"
  have "fine_reach w (s, []) (s1, [?p])" using fine_next[OF fine_here fine_fetch[OF fetch]] .
  then have "fine_reach w (s, []) (s2, [?p])" by (rule fine_next) (rule fine_bootstrap[OF boot])
  moreover have "\<not> bt_ExpiresAt e < w_Now w h" for h using valid[of h] by simp
  then have "run_state (store_decide w (postgres_store w) (store_key env) (bt_Token e) (Inr (e, True))) s2 = (Some e, ?s3)"
    by (simp add: store_decide_def)
  then have "fine_step w (s2, [?p]) (?s3, [?q])" using fine_decide[OF refl, of _ _ _ _ "[?p]"] by fastforce
  ultimately have "fine_reach w (s, []) (?s3, [?q])" by (rule fine_next)
  moreover have "fine_step w (?s3, [?q]) (?s4, remove1 ?q [?q])"
    by (rule fine_cache[OF refl]) (simp_all add: cache_token_run)
  then have "fine_step w (?s3, [?q]) (?s4, [])" by simp
  ultimately have "fine_reach w (s, []) (?s4, [])" by (rule fine_next)
  moreover have "fst (run_state (authorizedWithStore w ts r' (env_ID env) k) ?s4)"
    using token valid by (simp add: authorizedWithStore_def cached_check_def update_conv')
  ultimately show ?thesis by blast
qed

text \<open>A container that a reconciliation has dropped while its token was being issued comes back as an entry
  with a token and nothing else, not even its identifier.\<close>

lemma refresh_revives_dropped:
  assumes "map_of cs i = None" "i \<noteq> []"
  shows "map_of (remember_token i token cs) i = Some (set_backend_token token zero_container)"
    and "\<not> keyed (remember_token i token cs)"
proof -
  show *: "map_of (remember_token i token cs) i = Some (set_backend_token token zero_container)"
    using assms(1) by (simp add: remember_token_def update_conv')
  show "\<not> keyed (remember_token i token cs)"
  proof
    assume "keyed (remember_token i token cs)"
    then have "ctr_ID (set_backend_token token zero_container) = i"
      using map_of_SomeD[OF *] by (auto simp: keyed_def list_all_iff)
    then show False using assms(2) by (simp add: set_backend_token_def set_t3_def zero_container_def)
  qed
qed

text \<open>A reconciliation stores the tokens it has read at its start: one issued meanwhile is lost.\<close>

lemma store_forgets_refresh:
  "run_state (do { remember i token; reconcile_store cs ss }) s = run_state (reconcile_store cs ss) s"
  by (simp add: remember_def reconcile_store_def)

text \<open>An expired row is deleted by its key: when a bootstrap has replaced it meanwhile, the new row is gone.\<close>

lemma late_delete_drops_row:
  assumes "bt_ExpiresAt e < w_Now w (CallNow # hist s)" "bt_ExpiresAt e < w_Now w (hist s)"
    and "w_Db w (CallNow # CallNow # hist s) = DbDone now" "bt_Token e = token"
    and run: "run_state (store_decide w (postgres_store w) i token (Inr (e, True))) s = (found, s')"
  shows "found = None \<and> pg_view s' i = None"
  using assms by (auto simp: store_decide_def postgres_store_def pg_Delete_def pool_Exec_run Let_def pg_view_def delete_conv')

section \<open>Witnesses\<close>

definition race_start :: svc_state where
  "race_start = live_init\<lparr>hist := hist paired, gw_pairing := gw_pairing paired,
     pg_rows := [(''container-1'', \<lparr>row_token = ''old'', row_expires_at = hour, row_issued_at = 0\<rparr>)]\<rparr>"

theorem interleaved_tokens_witness:
  "\<exists>s got. fine_reach live_world (live_init, []) (s, [PendingEntry ''env-1'' ''c1'' ''t'' got]) \<and> gw_pairing s \<noteq> [] \<and>
     tokens_ok live_world {} s \<and> list_all (pending_ok live_world {} (hist s)) [PendingEntry ''env-1'' ''c1'' ''t'' got]"
proof -
  have old: "table_tokens (live_init\<lparr>hist := []\<rparr>) = {}" by (simp add: table_tokens_def live_init_def)
  obtain a s1 where 1: "run_state (GeneratePairingCode live_world ''env-1'') live_init = (a, s1)" by fastforce
  then have "length (gw_pairing s1) = 1"
    by (auto simp: GeneratePairingCode_def randomCode_def Let_def live_init_def)
  moreover obtain got s2 where 2: "run_state (pg_Get live_world ''c1'') s1 = (got, s2)" by fastforce
  moreover have "gw_pairing s2 = gw_pairing s1" using pg_Get_law[OF 2] by (simp add: gw_frame_def)
  moreover have reach: "fine_reach live_world (live_init, []) (s2, [PendingEntry ''env-1'' ''c1'' ''t'' got])"
    using fine_next[OF fine_next[OF fine_here fine_generate[OF 1]] fine_fetch[OF 2]] .
  ultimately show ?thesis
    using interleaved_tokens[OF live_New reach] old by (intro exI[of _ s2] exI[of _ got]) auto
qed

theorem revoked_token_returns_witness:
  "\<exists>s3. fine_reach pairing_world (race_start, []) (s3, []) \<and>
     fst (run_state (authorizedWithStore pairing_world None (bearer_request ''old'') ''env-1'' ''container-1'') s3)"
proof -
  let ?e = "\<lparr>bt_Token = ''old'', bt_EnvID = ''container-1'', bt_ExpiresAt = hour\<rparr>"
  let ?s1 = "race_start\<lparr>hist := CallDb (DbSelect ''container-1'') # hist race_start\<rparr>"
  have k: "store_key example_env = ''container-1''" "env_ID example_env = ''env-1''"
    by (simp_all add: store_key_def example_env_def)
  have fetch: "run_state (pg_Get pairing_world (store_key example_env)) race_start = (Inr (?e, True), ?s1)"
    by (simp add: pg_Get_def k race_start_def)
  have "\<exists>s2. run_state (handleBootstrap pairing_world (Some (postgres_store pairing_world)) plain_request example_env) ?s1 =
      (token_reply, s2)"
    by (simp add: race_start_def paired_eq handleBootstrap_def redeem_def store_Save_def postgres_store_def pg_Save_def
        pool_Exec_def k zero_codes token_reply_def minute_def second_def Let_def)
  then obtain s2 where boot: "run_state (handleBootstrap pairing_world (Some (postgres_store pairing_world)) plain_request
      example_env) ?s1 = (token_reply, s2)" by blast
  have token: "bearer_token (in_Header (bearer_request ''old'')) = Some (bt_Token ?e)" by code_simp
  have valid: "w_Now pairing_world h < bt_ExpiresAt ?e" for h by (simp add: hour_def minute_def second_def)
  show ?thesis
    using revoked_token_returns[OF fetch boot[unfolded token_reply_def] token valid] by (simp only: k)
qed

end
