(* ===== verification/Disclosure.thy ===== *)
theory Disclosure
  imports Server
begin

text \<open>
  What the API discloses: the fields \<open>BackendURL\<close> and \<open>BackendToken\<close> of a container's status are
  tagged as not encoded, and no reply but the proxy's depends on them. (The address itself is no secret:
  \<open>/api/containers\<close> prints the container's IP address, and the error of a failed probe names the URL.)
\<close>

section \<open>States without the fields that are not encoded\<close>

definition redact :: "Container \<Rightarrow> Container" where
  "redact c = set_t3 c ((ctr_T3 c)\<lparr>t3_BackendURL := [], t3_BackendToken := []\<rparr>)"

definition redact_map :: "(string, Container) gomap \<Rightarrow> (string, Container) gomap" where
  "redact_map m = map (\<lambda>(k, c). (k, redact c)) m"

definition redacted :: "'z svc_state_scheme \<Rightarrow> 'z svc_state_scheme" where
  "redacted s = s\<lparr>sv_containers := redact_map (sv_containers s)\<rparr>"

lemma redact_views [simp]:
  "container_json w (redact c) = container_json w c" "envFromContainer (redact c) = envFromContainer c"
  "ctr_Name (redact c) = ctr_Name c" "t3_EnvironmentID (ctr_T3 (redact c)) = t3_EnvironmentID (ctr_T3 c)"
  by (simp_all add: redact_def set_t3_def container_json_def envFromContainer_def t3_json_def)

lemma redacted_fields [simp]:
  "hist (redacted s) = hist s" "sv_sessions (redacted s) = sv_sessions s" "gw_pairing (redacted s) = gw_pairing s"
  "sv_containers (redacted s) = redact_map (sv_containers s)"
  "(redacted s)\<lparr>hist := h\<rparr> = redacted (s\<lparr>hist := h\<rparr>)"
  "redacted s\<lparr>gw_pairing := p\<rparr> = redacted (s\<lparr>gw_pairing := p\<rparr>)"
  by (simp_all add: redacted_def)

lemma insort_key_map: "(\<And>x. k (f x) = k x) \<Longrightarrow> insort_key k (f x) (map f xs) = map f (insort_key k x xs)"
  by (induction xs) auto

lemma sort_key_map: "(\<And>x. k (f x) = k x) \<Longrightarrow> sort_key k (map f xs) = map f (sort_key k xs)"
  by (induction xs) (simp_all add: insort_key_map)

lemma redact_map_simps: "map fst (redact_map m) = map fst m" "map_of (redact_map m) i = map_option redact (map_of m i)"
  by (induction m) (auto simp: redact_map_def)

text \<open>The range of the redacted map is the redacted range.\<close>

definition visited :: "world \<Rightarrow> call list \<Rightarrow> string list \<Rightarrow> string list" where
  "visited w h ks = (let order = w_MapOrder w h ks in
     if length order = length ks \<and> set order = set ks then order else ks)"

lemma set_visited: "set (visited w h ks) = set ks"
  by (simp add: visited_def Let_def)

lemma map_range_eq: "run_state (map_range w m) s =
    (map (\<lambda>k. the (map_of m k)) (visited w (hist s) (map fst m)), s\<lparr>hist := CallMapRange # hist s\<rparr>)"
  unfolding map_range_def visited_def Let_def by (simp only: run_ask)

lemma map_range_redacted:
  "run_state (map_range w (redact_map m)) s =
     (map redact (fst (run_state (map_range w m) s)), s\<lparr>hist := CallMapRange # hist s\<rparr>)"
proof -
  have "the (map_of (redact_map m) k) = redact (the (map_of m k))" if "k \<in> set (visited w (hist s) (map fst m))" for k
  proof -
    have "k \<in> fst ` set m" using that by (simp add: set_visited)
    then obtain c where "map_of m k = Some c" by (metis domD dom_map_of_conv_image_fst)
    then show ?thesis by (simp add: redact_map_simps)
  qed
  then show ?thesis by (simp add: map_range_eq redact_map_simps(1))
qed

lemma containerList_redacted:
  "run_state (containerList w) (redacted s) =
     (map redact (fst (run_state (containerList w) s)), redacted (snd (run_state (containerList w) s)))"
  unfolding containerList_def
  by (simp add: map_range_redacted sort_key_map) (simp add: map_range_eq)

lemma environments_redacted:
  "run_state (environments w) (redacted s) =
     (fst (run_state (environments w) s), redacted (snd (run_state (environments w) s)))"
proof -
  obtain cs s1 where "run_state (containerList w) s = (cs, s1)" by fastforce
  then show ?thesis
    by (simp add: environments_def containerList_redacted filter_map comp_def)
qed

lemma environment_redacted:
  "run_state (environment w i) (redacted s) =
     (fst (run_state (environment w i) s), redacted (snd (run_state (environment w i) s)))"
proof -
  obtain es s1 where "run_state (environments w) s = (es, s1)" by fastforce
  then show ?thesis by (simp add: environment_def environments_redacted)
qed

lemma action_redacted:
  "fst (run_state (handleEnvironmentAction w r) (redacted s)) = fst (run_state (handleEnvironmentAction w r) s)"
proof -
  obtain i act ok where cut: "Cut (TrimPrefix (in_Path r) ''/api/environments/'') CHR ''/'' = (i, act, ok)"
    by (metis prod.exhaust)
  obtain e s1 where e: "run_state (environment w i) s = (e, s1)" by fastforce
  have g: "fst (run_state (GeneratePairingCode w i) (redacted s1)) = fst (run_state (GeneratePairingCode w i) s1)"
    by (simp add: GeneratePairingCode_def randomCode_def Let_def)
  show ?thesis
  proof (cases "\<not> ok \<or> act \<noteq> ''pairing-code''")
    case True
    then show ?thesis by (simp add: handleEnvironmentAction_def cut)
  next
    case False
    obtain c x s2 where "run_state (GeneratePairingCode w i) s1 = ((c, x), s2)" by (metis prod.exhaust)
    moreover obtain c' x' s2' where "run_state (GeneratePairingCode w i) (redacted s1) = ((c', x'), s2')" by (metis prod.exhaust)
    ultimately show ?thesis
      using g False e by (cases e) (simp_all add: handleEnvironmentAction_def cut environment_redacted)
  qed
qed

section \<open>Properties\<close>

text \<open>Claim C17. But for the proxy below \<open>/env/\<close>, no reply of the API depends on the stored fields
  \<open>BackendURL\<close> and \<open>BackendToken\<close> of any container's status, the two that the struct tags keep from
  being encoded: clearing them in every container changes no reply. (The other fields may name the address:
  the container's IP address, the error of a failed probe.)\<close>

theorem api_hides_backend:
  "if mux_route r = EnvProxy then True
   else fst (run_state (routes w svc r) (redacted s)) = fst (run_state (routes w svc r) s)"
proof -
  obtain cs s1 where cs: "run_state (containerList w) s = (cs, s1)" by fastforce
  obtain es s2 where es: "run_state (environments w) s = (es, s2)" by fastforce
  obtain reply s3 where reply: "run_state (handleEnvironmentAction w r) s = (reply, s3)" by fastforce
  obtain reply' s3' where reply': "run_state (handleEnvironmentAction w r) (redacted s) = (reply', s3')" by fastforce
  obtain out s4 where order: "run_state (any_order w (sv_sessions s)) s = (out, s4)" by fastforce
  have order': "run_state (any_order w xs) (redacted u) =
      (fst (run_state (any_order w xs) u), redacted (snd (run_state (any_order w xs) u)))" for xs :: "'b list" and u
    by (simp add: any_order_def map_range_eq)
  have "reply' = reply" using action_redacted[of w r s] reply reply' by simp
  then show ?thesis
    using cs es reply reply' order
    by (cases "mux_route r")
      (simp_all add: routes_def replied_def api_containers_def api_environments_def api_sessions_def sessionList_def
        order' containerList_redacted environments_redacted comp_def)
qed

end
