(* ===== verification/Schema.thy ===== *)
theory Schema
  imports Server
begin

text \<open>
  The types of the API: the JSON schemas that the struct tags of \<open>internal/model/model.go\<close> and
  the replies of the handlers amount to, and that every JSON reply of a route conforms to its
  schema.
\<close>

section \<open>Schemas\<close>

text \<open>The members of a record are those declared, in the order of their declaration; one that may be omitted
  is marked by \<open>False\<close>.\<close>

datatype schema =
    SString
  | SInt
  | SBool
  | SAny
  | SNullOr schema
  | SList schema
  | SMapOf schema
  | SRecord "(string \<times> bool \<times> schema) list"

definition int_text :: "string \<Rightarrow> bool" where
  "int_text t = (let d = TrimPrefix t ''-'' in d \<noteq> [] \<and> list_all is_digit d)"

fun conforms :: "schema \<Rightarrow> json \<Rightarrow> bool" where
  "conforms SString j = (case j of JStr _ \<Rightarrow> True | _ \<Rightarrow> False)"
| "conforms SInt j = (case j of JNum t \<Rightarrow> int_text t | _ \<Rightarrow> False)"
| "conforms SBool j = (case j of JBool _ \<Rightarrow> True | _ \<Rightarrow> False)"
| "conforms SAny j = True"
| "conforms (SNullOr sc) j = (j = JNull \<or> conforms sc j)"
| "conforms (SList sc) j = (case j of JArr xs \<Rightarrow> list_all (conforms sc) xs | _ \<Rightarrow> False)"
| "conforms (SMapOf sc) j = (case j of JObj kvs \<Rightarrow> list_all (\<lambda>(k, v). conforms sc v) kvs | _ \<Rightarrow> False)"
| "conforms (SRecord members) j = (case j of
     JObj kvs \<Rightarrow> subseq (map fst kvs) (map fst members) \<and>
       list_all (\<lambda>(k, required, sc). case map_of kvs k of None \<Rightarrow> \<not> required | Some v \<Rightarrow> conforms sc v) members
   | _ \<Rightarrow> False)"

definition req :: "string \<Rightarrow> schema \<Rightarrow> string \<times> bool \<times> schema" where "req k sc = (k, True, sc)"
definition opt :: "string \<Rightarrow> schema \<Rightarrow> string \<times> bool \<times> schema" where "opt k sc = (k, False, sc)"

section \<open>The schemas of the API\<close>

definition t3_schema :: schema where
  "t3_schema = SRecord [req ''enabled'' SBool, opt ''environmentId'' SString, opt ''httpBaseUrl'' SString,
     opt ''wsBaseUrl'' SString, req ''status'' SString, opt ''error'' SString, req ''lastProbe'' SString]"

definition summary_schema :: schema where
  "summary_schema = SRecord [req ''enabled'' SBool, req ''status'' SString, req ''sessions'' SInt, opt ''error'' SString]"

definition container_schema :: schema where
  "container_schema = SRecord [req ''id'' SString, req ''shortId'' SString, req ''name'' SString, req ''image'' SString,
     req ''labels'' (SNullOr (SMapOf SString)), req ''status'' SString, req ''running'' SBool, req ''localFolder'' SString,
     req ''configFile'' SString, req ''workspace'' SString, req ''metadata'' (SNullOr (SList (SNullOr (SMapOf SAny)))),
     opt ''composeService'' SString, req ''containerUser'' SString, req ''containerHome'' SString, req ''userSource'' SString,
     req ''rule'' SString, req ''lastSeen'' SString, opt ''containerIp'' SString, req ''t3'' t3_schema,
     req ''sync'' summary_schema, req ''discoveryReasons'' (SNullOr (SList SString)), opt ''warnings'' (SList SString)]"

definition environment_schema :: schema where
  "environment_schema = SRecord [req ''id'' SString, req ''containerId'' SString, req ''name'' SString,
     req ''httpBaseUrl'' SString, req ''wsBaseUrl'' SString, req ''status'' SString, opt ''error'' SString,
     req ''lastProbe'' SString]"

definition session_schema :: schema where
  "session_schema = SRecord [req ''id'' SString, req ''name'' SString, req ''containerId'' SString, req ''rule'' SString,
     req ''syncIndex'' SInt, req ''mode'' SString, req ''alpha'' SString, req ''beta'' SString, req ''status'' SString,
     opt ''error'' SString, req ''labels'' (SMapOf SString), req ''desired'' SBool]"

definition token_schema :: schema where
  "token_schema = SRecord [req ''bearerToken'' SString, req ''token'' SString, req ''tokenType'' SString, req ''expiresAt'' SString]"

definition thread_schema :: schema where
  "thread_schema = SRecord [req ''threadId'' SString]"

text \<open>What a route may reply as JSON; below \<open>/env/\<close> it is a token or, from the spawn stage, a thread.\<close>

definition reply_schema :: "in_request \<Rightarrow> schema" where
  "reply_schema r = (case mux_route r of
       Healthz \<Rightarrow> SRecord [req ''status'' SString]
     | ApiContainers \<Rightarrow> SRecord [req ''containers'' (SList container_schema)]
     | ApiEnvironments \<Rightarrow> SRecord [req ''environments'' (SList environment_schema)]
     | ApiSessions \<Rightarrow> SRecord [req ''sessions'' (SNullOr (SList session_schema))]
     | EnvironmentAction \<Rightarrow> SRecord [req ''environmentId'' SString, req ''pairingCode'' SString, req ''expiresAt'' SString]
     | _ \<Rightarrow>
         let rest = TrimPrefix (in_Path r) ''/env/'' in
         if TrimPrefix rest (fst (Cut rest CHR ''/'')) = ''/spawn-stage'' then thread_schema else token_schema)"

section \<open>Views conform\<close>

lemma int_text_Itoa: "int_text (Itoa i)"
proof -
  have d: "list_all is_digit (nat_digits n)" for n using nat_digits_digits by (auto simp: list_all_iff)
  have "\<not> HasPrefix (nat_digits n) ''-''" for n
  proof -
    obtain c cs where n: "nat_digits n = c # cs" using nat_digits_nonempty by (cases "nat_digits n") auto
    then have "is_digit c" using nat_digits_digits[of c n] by simp
    then show ?thesis by (auto simp: n HasPrefix_def is_digit_def)
  qed
  then show ?thesis using d by (simp add: int_text_def Itoa_def TrimPrefix_def HasPrefix_def)
qed

lemma conforms_basic:
  "conforms SString (JStr t)" "conforms SString (json_time w n)" "conforms SInt (json_int i)" "conforms SBool (json_bool b)"
  "conforms (SMapOf SString) (json_labels m)" "conforms (SMapOf SAny) (JObj kvs)"
  by (simp_all add: json_time_def json_int_def json_bool_def json_labels_def int_text_Itoa list_all_iff split_beta)

lemma conforms_list: "(\<And>x. conforms sc (f x)) \<Longrightarrow> conforms (SList sc) (JArr (map f xs))"
  by (simp add: list_all_iff)

lemma conforms_slice: "(\<And>x. conforms sc (f x)) \<Longrightarrow> conforms (SNullOr (SList sc)) (json_slice f xs)"
  by (simp add: json_slice_def list_all_iff)

lemma conforms_nil: "(\<And>x. conforms sc (f x)) \<Longrightarrow> conforms (SNullOr sc) (json_nil f x)"
  by (cases x) (simp_all add: json_nil_def)

lemma conforms_record: "conforms (SRecord members) (JObj kvs) \<longleftrightarrow> subseq (map fst kvs) (map fst members) \<and>
    list_all (\<lambda>(k, required, sc). case map_of kvs k of None \<Rightarrow> \<not> required | Some v \<Rightarrow> conforms sc v) members"
  by simp

declare conforms.simps [simp del]

lemmas view_simps = req_def opt_def omit_empty_def conforms_basic conforms_record

lemma conforms_t3: "conforms t3_schema (t3_json w t)"
  unfolding t3_schema_def t3_json_def by (simp add: view_simps)

lemma conforms_summary: "conforms summary_schema (summary_json y)"
  unfolding summary_schema_def summary_json_def by (simp add: view_simps)

lemma conforms_environment: "conforms environment_schema (environment_json w e)"
  unfolding environment_schema_def environment_json_def by (simp add: view_simps)

lemma conforms_session: "conforms session_schema (session_json x)"
  unfolding session_schema_def session_json_def by (simp add: view_simps)

lemma conforms_container: "conforms container_schema (container_json w c)"
proof -
  have "conforms (SNullOr (SMapOf SString)) (json_nil json_labels (ctr_Labels c))"
    by (rule conforms_nil) (rule conforms_basic)
  moreover have "conforms (SNullOr (SList (SNullOr (SMapOf SAny)))) (json_metadata (ctr_Metadata c))"
    unfolding json_metadata_def by (intro conforms_nil conforms_list conforms_basic)
  moreover have "conforms (SNullOr (SList SString)) (json_slice JStr (ctr_DiscoveryReasons c))"
    by (rule conforms_slice, rule conforms_basic)
  moreover have "conforms (SList SString) (json_slice JStr (ctr_Warnings c))" if "ctr_Warnings c \<noteq> []"
    using that conforms_list[OF conforms_basic(1), of "\<lambda>x. x"] by (simp add: json_slice_def)
  ultimately show ?thesis
    unfolding container_schema_def container_json_def by (simp add: view_simps conforms_t3 conforms_summary)
qed

section \<open>Replies conform\<close>

text \<open>Every value a program returns satisfies a predicate.\<close>

definition yields :: "('a \<Rightarrow> bool) \<Rightarrow> ('s, 'a) state \<Rightarrow> bool" where
  "yields P m \<longleftrightarrow> (\<forall>s. P (fst (run_state m s)))"

named_theorems yields_rules "what the programs return"

lemma yields_return [yields_rules]: "P a \<Longrightarrow> yields P (State_Monad.return a)"
  by (simp add: yields_def)

lemma yields_bind [yields_rules]: "(\<And>a. yields P (f a)) \<Longrightarrow> yields P (State_Monad.bind m f)"
  by (auto simp: yields_def split: prod.split)

lemma yields_bind_sum [yields_rules]: "(\<And>e. P (Inl e)) \<Longrightarrow> (\<And>a. yields P (f a)) \<Longrightarrow> yields P (bind_sum m f)"
  by (auto simp: yields_def split: prod.split sum.split)

lemma yields_if [yields_rules]: "yields P m \<Longrightarrow> yields P n \<Longrightarrow> yields P (if b then m else n)"
  by simp

lemma yields_cases [yields_rules]:
  "yields P m \<Longrightarrow> (\<And>a. yields P (f a)) \<Longrightarrow> yields P (case o1 of None \<Rightarrow> m | Some a \<Rightarrow> f a)"
  "(\<And>e. yields P (g e)) \<Longrightarrow> (\<And>a. yields P (h a)) \<Longrightarrow> yields P (case r of Inl e \<Rightarrow> g e | Inr a \<Rightarrow> h a)"
  "(\<And>a b. yields P (k a b)) \<Longrightarrow> yields P (case p of (a, b) \<Rightarrow> k a b)"
  "(\<And>x. yields P (l x)) \<Longrightarrow> yields P (Let y l)"
  by (auto split: option.split sum.split prod.split)

lemma yields_map:
  assumes "yields Q m" "\<And>a. Q a \<Longrightarrow> P (h a)"
  shows "yields P (State_Monad.bind m (\<lambda>a. State_Monad.return (h a)))"
  using assms unfolding yields_def by (auto split: prod.split) (metis fst_conv)

definition typed :: "schema \<Rightarrow> reply \<Rightarrow> bool" where
  "typed sc reply = (case reply of JSON_reply status v \<Rightarrow> status = 200 \<and> conforms sc v | _ \<Rightarrow> True)"

definition typed_go :: "schema \<Rightarrow> reply go \<Rightarrow> bool" where
  "typed_go sc r = (case r of Inl _ \<Rightarrow> True | Inr reply \<Rightarrow> typed sc reply)"

lemma typed_simps [simp]:
  "typed sc (JSON_reply status v) \<longleftrightarrow> status = 200 \<and> conforms sc v" "typed sc NotFound_reply" "typed sc (Error_reply n e)"
  "typed sc (Relay n h b)" "typed sc WS_not_upgraded" "typed sc (WS_closed e)" "typed sc WS_piped"
  "typed sc unauthorized" "typed sc invalid_code"
  "typed_go sc (Inl p)" "typed_go sc (Inr reply) = typed sc reply"
  by (simp_all add: typed_def typed_go_def unauthorized_def invalid_code_def)

lemma yields_bootstrap [yields_rules]: "yields (typed token_schema) (handleBootstrap w ts r env)"
  unfolding handleBootstrap_def redeem_def
  by (intro yields_rules) (simp_all add: token_schema_def view_simps)

lemma yields_spawn [yields_rules]: "yields (typed thread_schema) (ServeSpawnStage w ts docker r c refresh)"
  unfolding ServeSpawnStage_def run_stage_def
  by (intro yields_rules) (simp_all add: thread_schema_def view_simps split: sum.split)

lemma yields_proxy [yields_rules]: "yields (typed sc) (proxyHTTP w r rest status refresh)"
  "yields (typed_go sc) (proxyWebsocket w r rest status refresh)"
  unfolding proxyHTTP_def proxyWebsocket_def by (intro yields_rules; simp split: sum.split)+

lemma yields_ServeEnv: "yields (typed_go token_schema) (ServeEnv w ts r env status refresh)"
proof -
  have b: "yields (typed_go token_schema) (do { reply \<leftarrow> handleBootstrap w ts r env; State_Monad.return (Inr reply) })"
    by (rule yields_map[OF yields_bootstrap]) simp
  have p: "yields (typed_go token_schema) (do { reply \<leftarrow> proxyHTTP w r rest status refresh; State_Monad.return (Inr reply) })"
    for rest by (rule yields_map[OF yields_proxy(1)]) simp
  show ?thesis
    unfolding ServeEnv_def
    by (rule yields_if, rule b, rule yields_if) (intro yields_bind yields_if yields_return p yields_proxy; simp)+
qed

lemma yields_serve:
  "yields (typed_go (if TrimPrefix rest envID = ''/spawn-stage'' then thread_schema else token_schema))
     (serve_container w svc r rest envID env c)"
proof -
  have "yields (typed_go thread_schema) (do { reply \<leftarrow> ServeSpawnStage w ts docker r c refresh; State_Monad.return (Inr reply) })"
    for ts docker refresh by (rule yields_map[OF yields_spawn]) simp
  then show ?thesis
    unfolding serve_container_def by (auto intro: yields_return yields_ServeEnv)
qed

lemma yields_EnvProxy:
  "yields (typed_go (let rest = TrimPrefix (in_Path r) ''/env/'' in
     if TrimPrefix rest (fst (Cut rest CHR ''/'')) = ''/spawn-stage'' then thread_schema else token_schema)) (handleEnvProxy w svc r)"
  unfolding handleEnvProxy_def Let_def by (intro yields_bind yields_cases(1) yields_serve yields_return) simp_all

lemma yields_API [yields_rules]:
  "yields (typed (SRecord [req ''containers'' (SList container_schema)])) (api_containers w)"
  "yields (typed (SRecord [req ''environments'' (SList environment_schema)])) (api_environments w)"
  "yields (typed (SRecord [req ''sessions'' (SNullOr (SList session_schema))])) (api_sessions w)"
  "yields (typed (SRecord [req ''environmentId'' SString, req ''pairingCode'' SString, req ''expiresAt'' SString]))
     (handleEnvironmentAction w r)"
  unfolding api_containers_def api_environments_def api_sessions_def handleEnvironmentAction_def
  by (intro yields_rules;
      simp add: view_simps conforms_list[OF conforms_container] conforms_list[OF conforms_environment] conforms_slice[OF conforms_session])+

section \<open>Properties\<close>

text \<open>Claim C18. The API is typed: a JSON reply of a route has status 200 and the members that the struct tags and the
  handlers declare, in their order and with values of their types, a nil slice or map being \<open>null\<close>; the others are plain text,
  files, redirections and relayed answers.\<close>

theorem api_replies_typed:
  "case fst (run_state (routes w svc r) s) of Inr (Replied reply) \<Rightarrow> typed (reply_schema r) reply | _ \<Rightarrow> True"
proof -
  let ?typed = "\<lambda>x. case x of Inr (Replied reply) \<Rightarrow> typed (reply_schema r) reply | _ \<Rightarrow> True"
  have replied: "yields ?typed (replied m)" if "yields (typed (reply_schema r)) m" for m :: "('z svc_state_scheme, reply) state"
    unfolding replied_def by (rule yields_map[OF that]) simp
  have proxy: "yields ?typed (bind_sum (handleEnvProxy w svc r) (\<lambda>reply. State_Monad.return (Inr (Replied reply))))"
    if "mux_route r = EnvProxy"
    unfolding bind_sum_def
  proof (rule yields_def[THEN iffD2], rule allI)
    fix s
    obtain x s1 where x: "run_state (handleEnvProxy w svc r) s = (x, s1)" by fastforce
    have "typed_go (reply_schema r) x" using yields_EnvProxy[of r w svc, unfolded yields_def, rule_format, of s] x that
      by (simp add: reply_schema_def Let_def)
    then show "?typed (fst (run_state (State_Monad.bind (handleEnvProxy w svc r)
        (\<lambda>y. case y of Inl e \<Rightarrow> State_Monad.return (Inl e) | Inr reply \<Rightarrow> State_Monad.return (Inr (Replied reply)))) s))"
      using x by (cases x) simp_all
  qed
  have "yields ?typed (routes w svc r)"
  proof (cases "mux_route r")
    case EnvProxy
    then show ?thesis using proxy by (simp add: routes_def)
  next
    case Healthz
    then have "typed (reply_schema r) (JSON_reply 200 (JObj [(''status'', JStr ''ok'')]))"
      by (simp add: reply_schema_def view_simps)
    then show ?thesis unfolding routes_def Healthz route.case by (rule replied[OF yields_return])
  next
    case ApiContainers
    show ?thesis unfolding routes_def ApiContainers route.case
      by (rule replied) (simp add: reply_schema_def ApiContainers yields_API)
  next
    case ApiEnvironments
    show ?thesis unfolding routes_def ApiEnvironments route.case
      by (rule replied) (simp add: reply_schema_def ApiEnvironments yields_API)
  next
    case ApiSessions
    show ?thesis unfolding routes_def ApiSessions route.case
      by (rule replied) (simp add: reply_schema_def ApiSessions yields_API)
  next
    case EnvironmentAction
    show ?thesis unfolding routes_def EnvironmentAction route.case
      by (rule replied) (simp add: reply_schema_def EnvironmentAction yields_API)
  qed (simp_all add: routes_def yields_return)
  then show ?thesis by (simp add: yields_def)
qed

end
