(* ===== verification/Cmd.thy ===== *)
theory Cmd
  imports Invariants
begin

text \<open>
  The command, from \<open>cmd/devcontainer-manager/main.go\<close>: the options and the environment
  variables behind them, the choice of the configuration, the check of the listen address, and
  the start of the service with it. A run that starts listens on an address that was checked.
\<close>

section \<open>Options\<close>

text \<open>What \<open>flag.Parse\<close> leaves: the options that the command line gives. The \<open>flag\<close> package itself ends
  the process on a command line it cannot parse.\<close>

record main_flags =
  fl_config :: "string option"
  fl_listen :: "string option"
  fl_allowNonLoopback :: "bool option"

definition envOrDefault :: "world \<Rightarrow> string \<Rightarrow> string \<Rightarrow> string" where
  "envOrDefault w name fallback = (let value = w_Getenv w name in if value \<noteq> [] then value else fallback)"

definition envBool :: "world \<Rightarrow> string \<Rightarrow> bool" where
  "envBool w name = (let value = ToLower (TrimSpace (w_Getenv w name)) in
     value = ''1'' \<or> value = ''true'' \<or> value = ''yes'')"

definition config_path :: "world \<Rightarrow> main_flags \<Rightarrow> string" where
  "config_path w fl = (case fl_config fl of Some p \<Rightarrow> p
     | None \<Rightarrow> envOrDefault w ''DCM_CONFIG'' ''/etc/devcontainer-manager/config.yaml'')"

definition listen_override :: "world \<Rightarrow> main_flags \<Rightarrow> string" where
  "listen_override w fl = (case fl_listen fl of Some l \<Rightarrow> l | None \<Rightarrow> w_Getenv w ''DCM_LISTEN'')"

definition allow_override :: "world \<Rightarrow> main_flags \<Rightarrow> bool" where
  "allow_override w fl = (case fl_allowNonLoopback fl of Some b \<Rightarrow> b | None \<Rightarrow> envBool w ''DCM_ALLOW_NON_LOOPBACK'')"

section \<open>The listen address\<close>

text \<open>\<open>net.IP.IsLoopback\<close>, on the 4 or 16 bytes of an address; an IPv4 address may come in 16 bytes.\<close>

definition to4 :: "string \<Rightarrow> string option" where
  "to4 ip = (if length ip = 4 then Some ip
     else if length ip = 16 \<and> take 12 ip = replicate 10 (CHR 0x00) @ [CHR 0xFF, CHR 0xFF] then Some (drop 12 ip)
     else None)"

definition IsLoopback :: "string \<Rightarrow> bool" where
  "IsLoopback ip = (case to4 ip of Some ip4 \<Rightarrow> hd ip4 = CHR 0x7F
     | None \<Rightarrow> ip = replicate 15 (CHR 0x00) @ [CHR 0x01])"

definition not_loopback :: string where
  "not_loopback = ''non-loopback bindings require --allow-non-loopback''"

fun check_resolved :: "bool \<Rightarrow> string list \<Rightarrow> string option" where
  "check_resolved allow [] = None"
| "check_resolved allow (ip # ips) =
     (if \<not> IsLoopback ip \<and> \<not> allow then Some not_loopback else check_resolved allow ips)"

definition listen_host :: "string \<Rightarrow> string" where
  "listen_host host = (if host = [] then ''0.0.0.0'' else host)"

definition validateListen :: "world \<Rightarrow> string \<Rightarrow> bool \<Rightarrow> ('z io_state_scheme, string option) state" where
  "validateListen w addr allowNonLoopback =
     (case SplitHostPort addr of
        Inl err \<Rightarrow> State_Monad.return (Some err)
      | Inr (host0, port) \<Rightarrow>
          let host = listen_host host0 in
          (case w_ParseIP w host of
             None \<Rightarrow> do {
               ips \<leftarrow> ask (\<lambda>h. w_LookupIP w h host) (CallLookupIP host);
               State_Monad.return (case ips of Inl err \<Rightarrow> Some err | Inr ips \<Rightarrow> check_resolved allowNonLoopback ips)
             }
           | Some ip \<Rightarrow> State_Monad.return
               (if \<not> IsLoopback ip \<and> \<not> allowNonLoopback then Some not_loopback else None)))"

section \<open>main\<close>

datatype main_exit = ExitConfig load_error | ExitListen string | ExitService string

definition not_exist :: "load_error \<Rightarrow> bool" where
  "not_exist e = (case e of LoadRead (ReadNotExist _) \<Rightarrow> True | _ \<Rightarrow> False)"

definition override :: "string \<Rightarrow> bool \<Rightarrow> Config \<Rightarrow> Config" where
  "override listen allow cfg =
     (let srv = cfg_Server cfg;
          srv = (if listen \<noteq> [] then srv\<lparr>srv_Listen := listen\<rparr> else srv);
          srv = (if allow then srv\<lparr>srv_AllowNonLoopback := True\<rparr> else srv)
      in cfg\<lparr>cfg_Server := srv\<rparr>)"

text \<open>The configuration the service gets: a missing file means the defaults, any other failure the end.\<close>

definition main_config :: "world \<Rightarrow> (string \<Rightarrow> Config \<Rightarrow> Config res) \<Rightarrow> main_flags \<Rightarrow>
    ('z io_state_scheme, main_exit + Config) state" where
  "main_config w yaml fl = do {
     (loaded, err) \<leftarrow> Load w yaml (config_path w fl);
     let chosen = (case err of None \<Rightarrow> Inr loaded
       | Some e \<Rightarrow> if not_exist e then Inr Default else Inl (ExitConfig e));
     case chosen of
       Inl e \<Rightarrow> State_Monad.return (Inl e)
     | Inr cfg0 \<Rightarrow> do {
         let cfg = override (listen_override w fl) (allow_override w fl) cfg0;
         refused \<leftarrow> validateListen w (srv_Listen (cfg_Server cfg)) (srv_AllowNonLoopback (cfg_Server cfg));
         State_Monad.return (case refused of Some e \<Rightarrow> Inl (ExitListen e) | None \<Rightarrow> Inr cfg)
       }
   }"

definition main_start :: "world \<Rightarrow> (string \<Rightarrow> Config \<Rightarrow> Config res) \<Rightarrow> main_flags \<Rightarrow>
    ('z svc_state_scheme, main_exit + ('z svc_state_scheme) service) state" where
  "main_start w yaml fl = bind_sum (main_config w yaml fl) (\<lambda>cfg. do {
     made \<leftarrow> app_New w (config_path w fl) cfg;
     State_Monad.return (case made of Inl e \<Rightarrow> Inl (ExitService e) | Inr svc \<Rightarrow> Inr svc)
   })"

text \<open>The first steps of \<open>Run\<close>: a reconciliation, whose failure is logged, and the address of the server.\<close>

definition Run_start :: "world \<Rightarrow> ('z svc_state_scheme, string go) state" where
  "Run_start w = bind_sum (reconcile w) (\<lambda>_. do {
     cfg \<leftarrow> get_cfg;
     State_Monad.return (Inr (srv_Listen (cfg_Server cfg)))
   })"

section \<open>Lemmas\<close>

lemma check_resolved_iff: "check_resolved allow ips = None \<longleftrightarrow> allow \<or> list_all IsLoopback ips"
  by (induction ips) auto

text \<open>What an address must be for its check to pass.\<close>

definition listen_allowed :: "world \<Rightarrow> string \<Rightarrow> bool \<Rightarrow> bool" where
  "listen_allowed w addr allow \<longleftrightarrow>
     (\<exists>host port. SplitHostPort addr = Inr (host, port) \<and>
       (case w_ParseIP w (listen_host host) of
          Some ip \<Rightarrow> allow \<or> IsLoopback ip
        | None \<Rightarrow> \<exists>h ips. w_LookupIP w h (listen_host host) = Inr ips \<and> (allow \<or> list_all IsLoopback ips)))"

lemma validateListen_allowed:
  assumes run: "run_state (validateListen w addr allow) s = (None, s')"
  shows "listen_allowed w addr allow"
proof -
  obtain host port where hp: "SplitHostPort addr = Inr (host, port)"
    using run by (cases "SplitHostPort addr") (auto simp: validateListen_def)
  show ?thesis
  proof (cases "w_ParseIP w (listen_host host)")
    case None
    then obtain ips where "w_LookupIP w (hist s) (listen_host host) = Inr ips" "check_resolved allow ips = None"
      using run hp by (cases "w_LookupIP w (hist s) (listen_host host)") (simp_all add: validateListen_def Let_def)
    then show ?thesis using hp None by (auto simp: listen_allowed_def check_resolved_iff)
  next
    case (Some ip)
    then show ?thesis using run hp by (auto simp: listen_allowed_def validateListen_def Let_def split: if_splits)
  qed
qed

definition start_call :: "call \<Rightarrow> bool" where
  "start_call c \<longleftrightarrow> (case c of CallReadFile _ \<Rightarrow> True | CallLookupIP _ \<Rightarrow> True | _ \<Rightarrow> False)"

lemma main_config_io: "io_only start_call (main_config w yaml fl)"
proof -
  have load: "io_only start_call (Load w yaml p)" for p
    by (rule Load_io) (simp add: start_call_def)
  have listen: "io_only start_call (validateListen w a b)" for a b
    unfolding validateListen_def Let_def by (intro call_rules) (simp add: start_call_def)
  show ?thesis unfolding main_config_def Let_def by (intro call_rules load listen)
qed

lemma override_fields [simp]:
  "srv_AllowNonLoopback (cfg_Server (override listen allow cfg)) = (allow \<or> srv_AllowNonLoopback (cfg_Server cfg))"
  "srv_Listen (cfg_Server (override listen allow cfg)) = (if listen = [] then srv_Listen (cfg_Server cfg) else listen)"
  by (simp_all add: override_def Let_def)

lemma wf_config_override: "wf_config w cfg \<Longrightarrow> wf_config w (override listen allow cfg)"
  by (auto simp: wf_config_def defaults_set_def override_def Let_def)

lemma wf_config_Default: "wf_config w Default"
  by (simp add: wf_config_def defaults_set_Default)
    (simp add: Default_def named_rule_def valid_rule_def valid_matcher_def empty_match_def empty_matcher_def)

lemma main_config_run:
  assumes "run_state (main_config w yaml fl) s = (Inr cfg, s')"
  shows "wf_config w cfg \<and> listen_allowed w (srv_Listen (cfg_Server cfg)) (srv_AllowNonLoopback (cfg_Server cfg)) \<and>
    (listen_override w fl \<noteq> [] \<longrightarrow> srv_Listen (cfg_Server cfg) = listen_override w fl)"
proof -
  obtain loaded err s1 where 1: "run_state (Load w yaml (config_path w fl)) s = ((loaded, err), s1)"
    by (metis prod.exhaust)
  let ?o = "override (listen_override w fl) (allow_override w fl)"
  define cfg0 where "cfg0 = (if err = None then loaded else Default)"
  have wf: "wf_config w cfg0"
    using Load_ok 1 wf_config_Default by (cases err) (auto simp: cfg0_def)
  have "\<exists>s2. run_state (validateListen w (srv_Listen (cfg_Server (?o cfg0)))
      (srv_AllowNonLoopback (cfg_Server (?o cfg0)))) s1 = (None, s2) \<and> cfg = ?o cfg0"
    using assms 1 by (auto simp: main_config_def cfg0_def Let_def simp del: override_fields
        split: option.splits if_splits prod.splits)
  then show ?thesis using validateListen_allowed wf_config_override[OF wf] by auto
qed

lemma reconcile_keeps_cfg:
  assumes "run_state (reconcile w) s = (r, s')"
  shows "sv_cfg s' = sv_cfg s"
proof -
  obtain a s1 where 1: "run_state (reconcile_scan w) s = (a, s1)" by fastforce
  then obtain h c where "s1 = s\<lparr>hist := h, ms_client := c\<rparr>" using reconcile_scan_only by (metis mut_onlyE)
  then show ?thesis
    using assms 1 by (auto simp: reconcile_def reconcile_store_def split: sum.splits prod.splits)
qed

section \<open>Properties\<close>

text \<open>Claim C23. The address the server listens on was checked: a run that gets as far as serving does so on an
  address whose host is a loopback address (or resolved to nothing but loopback addresses),
  unless other bindings were allowed; it is the one of the option or the environment variable
  where there is one; and the configuration of the service is well formed.\<close>

theorem server_address_checked:
  assumes start: "run_state (main_start w yaml fl) s = (Inr svc, s0)"
    and run: "run_state (Run_start w) s0 = (Inr addr, s1)"
  shows "listen_allowed w addr (srv_AllowNonLoopback (cfg_Server (sv_cfg s0))) \<and> wf_config w (sv_cfg s0) \<and>
    (if listen_override w fl = [] then True else addr = listen_override w fl)"
proof -
  obtain r s2 where 2: "run_state (main_config w yaml fl) s = (r, s2)" by fastforce
  obtain cfg where cfg: "run_state (main_config w yaml fl) s = (Inr cfg, s2)"
    using start 2 by (cases r) (simp_all add: main_start_def)
  obtain made s3 where 3: "run_state (app_New w (config_path w fl) cfg) s2 = (made, s3)" by fastforce
  then have new: "run_state (app_New w (config_path w fl) cfg) s2 = (Inr svc, s0)"
    using start cfg by (cases made) (simp_all add: main_start_def)
  have c0: "sv_cfg s0 = cfg" using app_New_cases[OF new] by blast
  obtain e s4 where 4: "run_state (reconcile w) s0 = (e, s4)" by fastforce
  have "addr = srv_Listen (cfg_Server (sv_cfg s4))"
    using run 4 by (cases e) (auto simp: Run_start_def)
  then have "addr = srv_Listen (cfg_Server cfg)" using reconcile_keeps_cfg[OF 4] c0 by simp
  then show ?thesis using main_config_run[OF cfg] c0 by auto
qed

text \<open>A configuration that cannot be read or decoded, is not valid or has a refused listen address ends
  the process before it has touched anything: it has read the file and looked the host up, and
  neither Docker nor the database was reached.\<close>

theorem main_refuses:
  assumes "run_state (main_start w yaml fl) s = (Inl e, s')"
  shows "case e of ExitService _ \<Rightarrow> True
    | _ \<Rightarrow> s' = s\<lparr>hist := hist s'\<rparr> \<and> list_all start_call (new_calls (hist s) (hist s'))"
proof -
  obtain r s1 where 1: "run_state (main_config w yaml fl) s = (r, s1)" by fastforce
  obtain n where n: "s1 = s\<lparr>hist := n @ hist s\<rparr>" "list_all start_call n"
    using main_config_io 1 by (rule io_onlyE)
  show ?thesis
  proof (cases r)
    case (Inl e')
    then have "s' = s1" using assms 1 by (simp add: main_start_def)
    then show ?thesis using n by (simp split: main_exit.split)
  next
    case (Inr cfg)
    obtain made s2 where "run_state (app_New w (config_path w fl) cfg) s1 = (made, s2)" by fastforce
    then show ?thesis using assms 1 Inr by (cases made) (auto simp: main_start_def)
  qed
qed

text \<open>The override of the address is not part of a reloaded configuration: from the first reload on the
  service announces its environments under the address of the file, on which it does not listen.\<close>

lemma reload_drops_override:
  assumes load: "run_state (Load w yaml path) s = ((cfg, None), s1)"
    and fire: "run_state (watchConfig_fire w yaml path) s = (r, s')"
  shows "sv_cfg s' = cfg"
proof -
  obtain e s2 where 2: "run_state (reconcile w) (s1\<lparr>sv_cfg := cfg\<rparr>) = (e, s2)" by fastforce
  have "s' = s2" using fire load 2 by (cases e) (simp_all add: watchConfig_fire_def)
  then show ?thesis using reconcile_keeps_cfg[OF 2] by simp
qed

section \<open>Witnesses\<close>

definition main_world :: world where
  "main_world = offline_world\<lparr>w_DockerNew := \<lambda>_. Inr (),
     w_ParseIP := \<lambda>host. if host = ''127.0.0.1'' then Some [CHR 0x7F, CHR 0x00, CHR 0x00, CHR 0x01]
       else if host = ''0.0.0.0'' then Some (replicate 4 (CHR 0x00)) else None\<rparr>"

definition no_flags :: main_flags where
  "no_flags = \<lparr>fl_config = None, fl_listen = None, fl_allowNonLoopback = None\<rparr>"

definition main_state :: svc_state where
  "main_state = live_init\<lparr>hist := []\<rparr>"

text \<open>Without an address every interface is meant, which is refused by default.\<close>

lemma any_interface_refused:
  "fst (run_state (validateListen main_world '':8787'' False) main_state) = Some not_loopback"
  "fst (run_state (validateListen main_world ''127.0.0.1:8787'' False) main_state) = None"
  by code_simp+

lemma main_runs: "run_state (main_config main_world yaml no_flags) main_state =
    (Inr Default, main_state\<lparr>hist := [CallReadFile ''/etc/devcontainer-manager/config.yaml'']\<rparr>)"
proof -
  have o: "override [] False Default = Default" by (simp add: override_def Default_def Let_def)
  have p: "config_path main_world no_flags = ''/etc/devcontainer-manager/config.yaml''" "listen_override main_world no_flags = []"
    "\<not> allow_override main_world no_flags"
    by code_simp+
  have a: "srv_Listen (cfg_Server Default) = ''127.0.0.1:8787''" "\<not> srv_AllowNonLoopback (cfg_Server Default)"
    by (simp_all add: Default_def)
  have v: "run_state (validateListen main_world ''127.0.0.1:8787'' False) st = (None, st)" for st :: svc_state
  proof -
    have h: "SplitHostPort ''127.0.0.1:8787'' = Inr (''127.0.0.1'', ''8787'')"
      "w_ParseIP main_world (listen_host ''127.0.0.1'') = Some [CHR 0x7F, CHR 0x00, CHR 0x00, CHR 0x01]"
      "IsLoopback [CHR 0x7F, CHR 0x00, CHR 0x00, CHR 0x01]"
      by code_simp+
    show ?thesis by (simp add: validateListen_def h)
  qed
  have l: "run_state (Load main_world yaml ''/etc/devcontainer-manager/config.yaml'') main_state =
      ((empty_config, Some (LoadRead (ReadNotExist ''no such file''))),
       main_state\<lparr>hist := [CallReadFile ''/etc/devcontainer-manager/config.yaml'']\<rparr>)"
    by (simp add: Load_def main_world_def offline_world_def main_state_def)
  show ?thesis by (simp add: main_config_def p l not_exist_def o a v)
qed

text \<open>The service \<open>main\<close> starts with its defaults, and its state then.\<close>

definition main_service :: "svc_state service" where
  "main_service = \<lparr>svc_configPath = ''/etc/devcontainer-manager/config.yaml'', svc_tokenStore = None\<rparr>"

definition main_ready :: svc_state where
  "main_ready = main_state\<lparr>hist := [CallDockerNew, CallReadFile ''/etc/devcontainer-manager/config.yaml''], gw_pairing := [],
     gw_browserAuth := [], ms_client := newMutagenClient, sv_cfg := Default, sv_containers := [], sv_sessions := []\<rparr>"

lemma Default_simps: "srv_Listen (cfg_Server Default) = ''127.0.0.1:8787''" "\<not> srv_AllowNonLoopback (cfg_Server Default)"
    "ptc_PostgresURL (cfg_PairingTokens Default) = []"
  by (simp_all add: Default_def)

lemma main_started: "run_state (main_start main_world yaml no_flags) main_state = (Inr main_service, main_ready)"
proof -
  have p: "config_path main_world no_flags = ''/etc/devcontainer-manager/config.yaml''" by code_simp
  show ?thesis
    by (simp add: main_start_def main_runs p app_New_def dockerx_New_def Default_simps)
      (simp add: main_world_def init_service_def newGateway_def main_service_def main_ready_def)
qed

lemma main_listens: "run_state (Run_start main_world) main_ready =
    (Inr ''127.0.0.1:8787'', main_ready\<lparr>hist := CallContainerList # hist main_ready\<rparr>)"
proof -
  have "run_state (reconcile main_world) main_ready = (Inr (Some ''offline''), main_ready\<lparr>hist := CallContainerList # hist main_ready\<rparr>)"
    by (simp add: reconcile_def reconcile_scan_def ListDevcontainers_def main_world_def offline_world_def)
  then show ?thesis by (simp add: Run_start_def main_ready_def Default_simps)
qed

theorem server_address_checked_witness:
  "\<exists>s0. wf_config main_world (sv_cfg (s0 :: svc_state)) \<and> listen_allowed main_world ''127.0.0.1:8787'' False \<and>
     sv_cfg s0 = Default"
  using server_address_checked[OF main_started main_listens] Default_simps
  by (intro exI[of _ main_ready]) (simp add: main_ready_def)

theorem main_refuses_witness:
  "\<exists>s'. s' = main_state\<lparr>hist := hist s'\<rparr> \<and> list_all start_call (new_calls [] (hist s'))"
proof -
  let ?w = "main_world\<lparr>w_ReadFile := \<lambda>_ _. Inl (ReadFailed ''permission denied'')\<rparr>"
  have p: "config_path ?w no_flags = ''/etc/devcontainer-manager/config.yaml''" by code_simp
  have run: "run_state (main_start ?w (\<lambda>_ c. Inr c) no_flags) main_state =
      (Inl (ExitConfig (LoadRead (ReadFailed ''permission denied''))),
       main_state\<lparr>hist := [CallReadFile ''/etc/devcontainer-manager/config.yaml'']\<rparr>)"
    by (simp add: main_start_def main_config_def p Load_def not_exist_def main_state_def)
  show ?thesis
    by (intro exI[of _ "main_state\<lparr>hist := [CallReadFile ''/etc/devcontainer-manager/config.yaml'']\<rparr>"])
      (use main_refuses[OF run] in \<open>simp add: main_state_def live_init_def\<close>)
qed

end
