(* ===== verification/Loops.thy ===== *)
theory Loops
  imports Cmd
begin

text \<open>
  The goroutines of the service to their ends, from \<open>internal/app/service.go\<close>: the loops of
  \<open>watchDocker\<close>, \<open>watchConfig\<close> and \<open>periodicReconcile\<close>, the end of \<open>Run\<close> with its deferred calls,
  and \<open>Close\<close> and \<open>copyWS\<close> of \<open>internal/t3/gateway.go\<close>. A loop need not end, so it is a partial
  function whose value is \<open>None\<close> then. It runs along a schedule: the case its \<open>select\<close> takes in each
  round (the runtime's choice among the ready ones) and what the rest of the process does to the
  state while it waits.
\<close>

section \<open>What a goroutine sees\<close>

text \<open>
  For each round: the case its \<open>select\<close> takes, whether the context is done by then, and what the rest
  of the process does to the state before it.
\<close>

record ('m, 's) schedule =
  sch_chosen :: "nat \<Rightarrow> 'm"
  sch_done :: "nat \<Rightarrow> bool"
  sch_others :: "nat \<Rightarrow> 's \<Rightarrow> 's"

section \<open>watchDocker\<close>

datatype docker_select = DockerDone | DockerMessage docker_message

text \<open>The end of the stream ends the goroutine when the context is done.\<close>

partial_function (option) watchDocker_loop :: "world \<Rightarrow> (docker_select, 'z svc_state_scheme) schedule \<Rightarrow> nat \<Rightarrow>
    'z svc_state_scheme \<Rightarrow> (unit go \<times> 'z svc_state_scheme) option" where
  "watchDocker_loop w sch n s =
     (case sch_chosen sch n of
        DockerDone \<Rightarrow> Some (Inr (), sch_others sch n s)
      | DockerMessage msg \<Rightarrow>
          if msg = StreamClosed \<and> sch_done sch n then Some (Inr (), sch_others sch n s)
          else (case run_state (watchDocker_on w msg) (sch_others sch n s) of (r, s') \<Rightarrow>
            if isl r then Some (r, s') else watchDocker_loop w sch (Suc n) s'))"

definition watchDocker :: "world \<Rightarrow> (docker_select, 'z svc_state_scheme) schedule \<Rightarrow> 'z svc_state_scheme \<Rightarrow>
    (unit go \<times> 'z svc_state_scheme) option" where
  "watchDocker w sch s = watchDocker_loop w sch 0 (snd (run_state Events s))"

section \<open>watchConfig\<close>

datatype config_select = ConfigDone | ConfigEvent string | ConfigError | TimerFired

text \<open>
  The loop, with what it does when the timer fires. The channel of a timer that is not armed is
  nil, so that its case is never chosen: such an entry of the schedule is passed over.
\<close>

partial_function (option) watchConfig_loop :: "('z svc_state_scheme, unit go) state \<Rightarrow> string \<Rightarrow>
    (config_select, 'z svc_state_scheme) schedule \<Rightarrow> nat \<Rightarrow> bool \<Rightarrow> 'z svc_state_scheme \<Rightarrow>
    (unit go \<times> 'z svc_state_scheme) option" where
  "watchConfig_loop fire configPath sch n armed s =
     (case sch_chosen sch n of
        ConfigDone \<Rightarrow> Some (Inr (), sch_others sch n s)
      | ConfigEvent name \<Rightarrow>
          watchConfig_loop fire configPath sch (Suc n) (watchConfig_event configPath name armed) (sch_others sch n s)
      | ConfigError \<Rightarrow> watchConfig_loop fire configPath sch (Suc n) armed (sch_others sch n s)
      | TimerFired \<Rightarrow>
          if \<not> armed then watchConfig_loop fire configPath sch (Suc n) armed (sch_others sch n s)
          else (case run_state fire (sch_others sch n s) of (r, s') \<Rightarrow>
            if isl r then Some (r, s') else watchConfig_loop fire configPath sch (Suc n) False s'))"

definition watcher_Close :: "('z io_state_scheme, unit) state" where
  "watcher_Close = ask (\<lambda>_. ()) CallWatcherClose"

text \<open>The watcher is closed however the goroutine ends, once it has been made.\<close>

definition watchConfig :: "world \<Rightarrow> (string \<Rightarrow> Config \<Rightarrow> Config res) \<Rightarrow> string \<Rightarrow>
    (config_select, 'z svc_state_scheme) schedule \<Rightarrow> 'z svc_state_scheme \<Rightarrow> (unit go \<times> 'z svc_state_scheme) option" where
  "watchConfig w yaml configPath sch s =
     (let dir = filepath_Dir configPath in
      case run_state (ask (w_NewWatcher w) CallNewWatcher) s of
        (Inl _, s1) \<Rightarrow> Some (Inr (), s1)
      | (Inr _, s1) \<Rightarrow> (case run_state (ask (\<lambda>h. w_WatcherAdd w h dir) (CallWatcherAdd dir)) s1 of
          (Inl _, s2) \<Rightarrow> Some (Inr (), snd (run_state watcher_Close s2))
        | (Inr _, s2) \<Rightarrow> map_option (\<lambda>(r, s'). (r, snd (run_state watcher_Close s')))
            (watchConfig_loop (watchConfig_fire w yaml configPath) configPath sch 0 False s2)))"

section \<open>periodicReconcile\<close>

datatype tick_select = TickDone | Tick

partial_function (option) periodicReconcile :: "world \<Rightarrow> (tick_select, 'z svc_state_scheme) schedule \<Rightarrow> nat \<Rightarrow>
    'z svc_state_scheme \<Rightarrow> (unit go \<times> 'z svc_state_scheme) option" where
  "periodicReconcile w sch n s =
     (case sch_chosen sch n of
        TickDone \<Rightarrow> Some (Inr (), sch_others sch n s)
      | Tick \<Rightarrow> (case run_state (periodic_tick w) (sch_others sch n s) of (r, s') \<Rightarrow>
          if isl r then Some (r, s') else periodicReconcile w sch (Suc n) s'))"

section \<open>The end of Run\<close>

text \<open>The context is done, or the server could not go on; either with the error that \<open>Run\<close> returns.\<close>

datatype run_select = ContextDone string | ServerFailed string

definition gateway_Close :: "'s token_store option \<Rightarrow> ('z io_state_scheme, unit) state" where
  "gateway_Close tokenStore = (case tokenStore of None \<Rightarrow> State_Monad.return () | Some _ \<Rightarrow> pg_Close)"

text \<open>The answer of the shutdown is not looked at. The deferred calls run last, in the reverse of their order.\<close>

definition Run_end :: "('z svc_state_scheme) service \<Rightarrow> run_select \<Rightarrow> ('z svc_state_scheme, unit) state" where
  "Run_end svc chosen = do {
     (case chosen of ContextDone _ \<Rightarrow> ask (\<lambda>_. ()) CallShutdown | ServerFailed _ \<Rightarrow> ask (\<lambda>_. ()) CallServerClose);
     dockerx_Close;
     gateway_Close (svc_tokenStore svc)
   }"

text \<open>All of \<open>Run\<close>: \<open>serve\<close> is what the server and the goroutines do until one of the two happens. The server
  listens on the address it was made with.\<close>

definition Run :: "world \<Rightarrow> ('z svc_state_scheme) service \<Rightarrow> (string \<Rightarrow> ('z svc_state_scheme, run_select go) state) \<Rightarrow>
    ('z svc_state_scheme, run_select go) state" where
  "Run w svc serve = bind_sum (Run_start w) (\<lambda>addr. bind_sum (serve addr) (\<lambda>chosen. do {
     Run_end svc chosen;
     State_Monad.return (Inr chosen)
   }))"

text \<open>The process: its exit status, or the panic it ends by. The context of \<open>main\<close> is only ever cancelled, by a
  signal, and then the process ends in good order. The ends that \<open>flag.Parse\<close> itself makes (a bad flag,
  \<open>-h\<close>) come before and are outside the model.\<close>

definition main_run :: "world \<Rightarrow> (string \<Rightarrow> Config \<Rightarrow> Config res) \<Rightarrow> main_flags \<Rightarrow>
    (('z svc_state_scheme) service \<Rightarrow> string \<Rightarrow> ('z svc_state_scheme, run_select go) state) \<Rightarrow>
    ('z svc_state_scheme, nat go) state" where
  "main_run w yaml fl serve = do {
     started \<leftarrow> main_start w yaml fl;
     case started of
       Inl _ \<Rightarrow> State_Monad.return (Inr 1)
     | Inr svc \<Rightarrow> bind_sum (Run w svc (serve svc)) (\<lambda>err. State_Monad.return (Inr
         (case err of ContextDone _ \<Rightarrow> 0 | ServerFailed _ \<Rightarrow> 1)))
   }"

section \<open>copyWS\<close>

text \<open>
  One direction of an open websocket: what its \<open>n\<close>th read gives, and whether the \<open>n\<close>th write of a
  message fails. The result is the messages that were written and the error it ends with.
\<close>

type_synonym ws_message = "int \<times> string"

partial_function (option) copyWS :: "(nat \<Rightarrow> ws_message res) \<Rightarrow> (nat \<Rightarrow> ws_message \<Rightarrow> string option) \<Rightarrow> nat \<Rightarrow>
    ws_message list \<Rightarrow> (ws_message list \<times> string) option" where
  "copyWS reads writes n written =
     (case reads n of
        Inl err \<Rightarrow> Some (written, err)
      | Inr msg \<Rightarrow> (case writes n msg of
          Some err \<Rightarrow> Some (written, err)
        | None \<Rightarrow> copyWS reads writes (Suc n) (written @ [msg])))"

section \<open>The loops return\<close>

text \<open>
  The context of a goroutine ends: it is done in some round, and from then on the \<open>select\<close>, which
  chooses among the ready cases at random, does not pass over \<open>ctx.Done()\<close> for ever.
\<close>

definition context_ends :: "'m \<Rightarrow> ('m, 's) schedule \<Rightarrow> bool" where
  "context_ends done_case sch \<longleftrightarrow> (\<exists>n. sch_done sch n) \<and>
     (\<forall>n. sch_done sch n \<longrightarrow> (\<exists>m\<ge>n. sch_chosen sch m = done_case))"

lemma context_endsE:
  assumes "context_ends done_case sch"
  obtains m where "sch_chosen sch m = done_case"
  using assms unfolding context_ends_def by blast

text \<open>A goroutine returns, without a panic, in the round \<open>k\<close> or before: nothing that the schedule says of
  later rounds changes its result.\<close>

definition agree :: "nat \<Rightarrow> ('m, 's) schedule \<Rightarrow> ('m, 's) schedule \<Rightarrow> bool" where
  "agree k sch sch' \<longleftrightarrow> (\<forall>n\<le>k. sch_chosen sch' n = sch_chosen sch n \<and> sch_done sch' n = sch_done sch n \<and>
     sch_others sch' n = sch_others sch n)"

definition returns_by :: "nat \<Rightarrow> ('m, 's) schedule \<Rightarrow> (('m, 's) schedule \<Rightarrow> (unit go \<times> 's) option) \<Rightarrow> bool" where
  "returns_by k sch f \<longleftrightarrow> (\<exists>s'. \<forall>sch'. agree k sch sch' \<longrightarrow> f sch' = Some (Inr (), s'))"

lemma returns_by_self: "returns_by k sch f \<Longrightarrow> \<exists>s'. f sch = Some (Inr (), s')"
  unfolding returns_by_def agree_def by blast

text \<open>A reaction neither panics nor breaks the Mutagen client, when Docker's answers are complete.\<close>

definition safe :: "('z mut_state_scheme, unit go) state \<Rightarrow> bool" where
  "safe m \<longleftrightarrow> (\<forall>s. mut_inv s \<longrightarrow> (\<exists>s'. run_state m s = (Inr (), s') \<and> mut_inv s'))"

lemma safeE:
  assumes "safe m" "mut_inv s"
  obtains s' where "run_state m s = (Inr (), s')" "mut_inv s'"
  using assms unfolding safe_def by blast

definition others_keep :: "('m, 'z mut_state_scheme) schedule \<Rightarrow> bool" where
  "others_keep sch \<longleftrightarrow> (\<forall>n s. mut_inv s \<longrightarrow> mut_inv (sch_others sch n s))"

lemma mut_inv_hist [simp]: "mut_inv (s\<lparr>hist := h\<rparr>) = mut_inv s"
  by (simp add: mut_inv_def)

lemma reconcile_never_panics:
  assumes "complete_answers w" "mut_inv s"
  shows "\<exists>err s'. run_state (reconcile w) s = (Inr err, s') \<and> mut_inv s'"
proof (cases "w_ContainerList w (hist s)")
  case (Inl e)
  then have "run_state (reconcile w) s = (Inr (Some e), s\<lparr>hist := CallContainerList # hist s\<rparr>)"
    by (simp add: reconcile_def reconcile_scan_def ListDevcontainers_def)
  then show ?thesis using assms(2) by simp
next
  case (Inr items)
  obtain out s1 where "run_state (ListDevcontainers w (sv_cfg s)) s = (Inr (Inr out), s1)"
    using ListDevcontainers_returns[OF assms(1) Inr] by blast
  then have "fst (run_state (reconcile w) s) = Inr None" using reconcile_completes[OF _ assms(2)] by blast
  then obtain s' where run: "run_state (reconcile w) s = (Inr None, s')" by (metis prod.collapse)
  obtain cs ss s2 where "run_state (reconcile_scan w) s = (Inr (Inr (cs, ss)), s2)"
    "s' = s2\<lparr>sv_containers := next_containers cs, sv_sessions := ss\<rparr>"
    using run by (rule reconcile_runE)
  then have "mut_inv s'" using reconcile_scan_mut[OF _ assms(2)] by (simp add: mut_inv_def)
  then show ?thesis using run by blast
qed

lemma safe_reaction: "complete_answers w \<Longrightarrow> safe (bind_sum (reconcile w) (\<lambda>_. State_Monad.return (Inr ())))"
  unfolding safe_def using reconcile_never_panics by fastforce

lemma watchConfig_fire_returns:
  assumes w: "complete_answers w" and s: "mut_inv (s :: 'z svc_state_scheme)"
  shows "\<exists>s'. run_state (watchConfig_fire w yaml path) s = (Inr (), s') \<and> mut_inv s'"
proof -
  obtain cfg err s1 where 1: "run_state (Load w yaml path) s = ((cfg, err), s1)" by (metis prod.exhaust)
  then have s1: "mut_inv s1" using s by (auto simp: Load_def)
  show ?thesis
  proof (cases err)
    case None
    have "mut_inv (s1\<lparr>sv_cfg := cfg\<rparr>)" using s1 by (simp add: mut_inv_def)
    then obtain s' where "run_state (bind_sum (reconcile w) (\<lambda>_. State_Monad.return (Inr ()))) (s1\<lparr>sv_cfg := cfg\<rparr>) = (Inr (), s')"
      "mut_inv s'" using safeE[OF safe_reaction[OF w]] by blast
    moreover have "run_state (watchConfig_fire w yaml path) s =
        run_state (bind_sum (reconcile w) (\<lambda>_. State_Monad.return (Inr ()))) (s1\<lparr>sv_cfg := cfg\<rparr>)"
      by (simp add: watchConfig_fire_def 1 None)
    ultimately show ?thesis by metis
  qed (use 1 s1 in \<open>simp add: watchConfig_fire_def\<close>)
qed

lemma safe_reactions:
  assumes "complete_answers w"
  shows "safe (watchDocker_on w msg)" "safe (watchConfig_fire w yaml path)" "safe (periodic_tick w)"
proof -
  show "safe (watchDocker_on w msg)"
    using safe_reaction[OF assms] by (cases msg) (auto simp: watchDocker_on_def safe_def Events_def)
  show "safe (periodic_tick w)" unfolding periodic_tick_def by (rule safe_reaction[OF assms])
  show "safe (watchConfig_fire w yaml path)" unfolding safe_def using watchConfig_fire_returns[OF assms] by blast
qed

text \<open>The round in which a loop returns at the latest: its \<open>select\<close> takes the case of the context, or, for
  \<open>watchDocker\<close>, finds the stream at its end and the context done.\<close>

lemma watchDocker_loop_by:
  assumes w: "complete_answers w" and others: "others_keep sch"
    and k: "sch_chosen sch k = DockerDone \<or> sch_chosen sch k = DockerMessage StreamClosed \<and> sch_done sch k"
  shows "n \<le> k \<Longrightarrow> mut_inv s \<Longrightarrow> returns_by k sch (\<lambda>sch. watchDocker_loop w sch n s)"
proof (induction "k - n" arbitrary: n s)
  case 0
  then have n: "n = k" by simp
  have "watchDocker_loop w sch' n s = Some (Inr (), sch_others sch n s)" if "agree k sch sch'" for sch'
    using that k unfolding n by (subst watchDocker_loop.simps) (auto simp: agree_def)
  then show ?case unfolding returns_by_def by blast
next
  case (Suc j)
  let ?s = "sch_others sch n s"
  have inv: "mut_inv ?s" using others Suc.prems(2) by (simp add: others_keep_def)
  show ?case
  proof (cases "\<exists>msg. sch_chosen sch n = DockerMessage msg \<and> \<not> (msg = StreamClosed \<and> sch_done sch n)")
    case True
    then obtain msg where msg: "sch_chosen sch n = DockerMessage msg" "\<not> (msg = StreamClosed \<and> sch_done sch n)" by blast
    obtain s1 where s1: "run_state (watchDocker_on w msg) ?s = (Inr (), s1)" "mut_inv s1"
      using safeE[OF safe_reactions(1)[OF w] inv] by blast
    have "watchDocker_loop w sch' n s = watchDocker_loop w sch' (Suc n) s1" if "agree k sch sch'" for sch'
      using that msg s1 Suc.prems(1) by (subst watchDocker_loop.simps) (auto simp: agree_def)
    moreover have "returns_by k sch (\<lambda>sch. watchDocker_loop w sch (Suc n) s1)"
      by (rule Suc.hyps(1)) (use Suc.hyps(2) Suc.prems s1 in auto)
    ultimately show ?thesis unfolding returns_by_def by simp
  next
    case False
    then have "watchDocker_loop w sch' n s = Some (Inr (), ?s)" if "agree k sch sch'" for sch'
      using that Suc.prems(1) by (subst watchDocker_loop.simps) (auto simp: agree_def split: docker_select.split)
    then show ?thesis unfolding returns_by_def by blast
  qed
qed

lemma watchConfig_loop_by:
  assumes fire: "safe fire" and others: "others_keep sch" and k: "sch_chosen sch k = ConfigDone"
  shows "n \<le> k \<Longrightarrow> mut_inv s \<Longrightarrow> returns_by k sch (\<lambda>sch. watchConfig_loop fire path sch n armed s)"
proof (induction "k - n" arbitrary: n s armed)
  case 0
  then have n: "n = k" by simp
  have "watchConfig_loop fire path sch' n armed s = Some (Inr (), sch_others sch n s)" if "agree k sch sch'" for sch'
    using that k unfolding n by (subst watchConfig_loop.simps) (simp add: agree_def)
  then show ?case unfolding returns_by_def by blast
next
  case (Suc j)
  let ?s = "sch_others sch n s"
  have inv: "mut_inv ?s" using others Suc.prems(2) by (simp add: others_keep_def)
  obtain s1 where s1: "run_state fire ?s = (Inr (), s1)" "mut_inv s1" using safeE[OF fire inv] by blast
  have later: "returns_by k sch (\<lambda>sch. watchConfig_loop fire path sch (Suc n) a u)" if "mut_inv u" for a u
    by (rule Suc.hyps(1)) (use Suc.hyps(2) Suc.prems that in auto)
  have "\<exists>a u. mut_inv u \<and> (\<forall>sch'. agree k sch sch' \<longrightarrow>
      watchConfig_loop fire path sch' n armed s = watchConfig_loop fire path sch' (Suc n) a u)"
    if "sch_chosen sch n \<noteq> ConfigDone"
  proof (cases "sch_chosen sch n")
    case (ConfigEvent name)
    then have "\<forall>sch'. agree k sch sch' \<longrightarrow> watchConfig_loop fire path sch' n armed s =
        watchConfig_loop fire path sch' (Suc n) (watchConfig_event path name armed) ?s"
      using Suc.prems(1) by (subst watchConfig_loop.simps) (simp add: agree_def)
    then show ?thesis using inv by blast
  next
    case ConfigError
    then have "\<forall>sch'. agree k sch sch' \<longrightarrow> watchConfig_loop fire path sch' n armed s =
        watchConfig_loop fire path sch' (Suc n) armed ?s"
      using Suc.prems(1) by (subst watchConfig_loop.simps) (simp add: agree_def)
    then show ?thesis using inv by blast
  next
    case TimerFired
    then have "\<forall>sch'. agree k sch sch' \<longrightarrow> watchConfig_loop fire path sch' n armed s =
        watchConfig_loop fire path sch' (Suc n) False (if armed then s1 else ?s)"
      using Suc.prems(1) s1(1) by (subst watchConfig_loop.simps) (simp add: agree_def)
    then show ?thesis using inv s1(2) by (cases armed) auto
  qed (use that in simp)
  moreover have "returns_by k sch (\<lambda>sch. watchConfig_loop fire path sch n armed s)" if "sch_chosen sch n = ConfigDone"
  proof -
    have "watchConfig_loop fire path sch' n armed s = Some (Inr (), ?s)" if "agree k sch sch'" for sch'
      using that \<open>sch_chosen sch n = ConfigDone\<close> Suc.prems(1) by (subst watchConfig_loop.simps) (simp add: agree_def)
    then show ?thesis unfolding returns_by_def by blast
  qed
  ultimately show ?case using later unfolding returns_by_def by metis
qed

lemma watchConfig_by:
  assumes w: "complete_answers w" and others: "others_keep sch" and k: "sch_chosen sch k = ConfigDone" and s: "mut_inv s"
  shows "returns_by k sch (\<lambda>sch. watchConfig w yaml path sch s)"
proof (cases "w_NewWatcher w (hist s)")
  case (Inl e)
  then show ?thesis by (simp add: watchConfig_def returns_by_def)
next
  case (Inr u)
  let ?h = "CallNewWatcher # hist s"
  let ?s = "s\<lparr>hist := CallWatcherAdd (filepath_Dir path) # ?h\<rparr>"
  show ?thesis
  proof (cases "w_WatcherAdd w ?h (filepath_Dir path)")
    case (Inl e)
    then show ?thesis using Inr by (simp add: watchConfig_def returns_by_def watcher_Close_def Let_def)
  next
    case (Inr v)
    have "returns_by k sch (\<lambda>sch. watchConfig_loop (watchConfig_fire w yaml path) path sch 0 False ?s)"
      by (rule watchConfig_loop_by[OF safe_reactions(2)[OF w] others k le0]) (simp add: s)
    then show ?thesis using Inr \<open>w_NewWatcher w (hist s) = Inr u\<close> by (auto simp: watchConfig_def returns_by_def Let_def)
  qed
qed

lemma periodicReconcile_by:
  assumes w: "complete_answers w" and others: "others_keep sch" and k: "sch_chosen sch k = TickDone"
  shows "n \<le> k \<Longrightarrow> mut_inv s \<Longrightarrow> returns_by k sch (\<lambda>sch. periodicReconcile w sch n s)"
proof (induction "k - n" arbitrary: n s)
  case 0
  then have n: "n = k" by simp
  have "periodicReconcile w sch' n s = Some (Inr (), sch_others sch n s)" if "agree k sch sch'" for sch'
    using that k unfolding n by (subst periodicReconcile.simps) (simp add: agree_def)
  then show ?case unfolding returns_by_def by blast
next
  case (Suc j)
  let ?s = "sch_others sch n s"
  have inv: "mut_inv ?s" using others Suc.prems(2) by (simp add: others_keep_def)
  show ?case
  proof (cases "sch_chosen sch n")
    case Tick
    obtain s1 where s1: "run_state (periodic_tick w) ?s = (Inr (), s1)" "mut_inv s1"
      using safeE[OF safe_reactions(3)[OF w] inv] by blast
    have "periodicReconcile w sch' n s = periodicReconcile w sch' (Suc n) s1" if "agree k sch sch'" for sch'
      using that Tick s1 Suc.prems(1) by (subst periodicReconcile.simps) (simp add: agree_def)
    moreover have "returns_by k sch (\<lambda>sch. periodicReconcile w sch (Suc n) s1)"
      by (rule Suc.hyps(1)) (use Suc.hyps(2) Suc.prems s1 in auto)
    ultimately show ?thesis unfolding returns_by_def by simp
  next
    case TickDone
    then have "periodicReconcile w sch' n s = Some (Inr (), ?s)" if "agree k sch sch'" for sch'
      using that Suc.prems(1) by (subst periodicReconcile.simps) (simp add: agree_def)
    then show ?thesis unfolding returns_by_def by blast
  qed
qed

section \<open>The loops take the steps of the service\<close>

lemma when_returned:
  assumes "\<And>s'. r = Some (Inr (), s') \<Longrightarrow> P s'"
  shows "case r of Some (Inr (), s') \<Rightarrow> P s' | _ \<Rightarrow> True"
proof (cases r)
  case (Some y)
  obtain x s' where y: "y = (x, s')" by (metis prod.exhaust)
  show ?thesis
  proof (cases x)
    case (Inr u)
    have "u = ()" by (rule old.unit.exhaust)
    then show ?thesis using assms[of s'] Some y Inr by (simp only: option.case prod.case sum.case old.unit.case)
  qed (simp add: Some y)
qed simp

abbreviation svc_steps :: "world \<Rightarrow> (string \<Rightarrow> Config \<Rightarrow> Config res) \<Rightarrow> svc_state service \<Rightarrow> running \<Rightarrow> running \<Rightarrow> bool" where
  "svc_steps w yaml svc \<equiv> (svc_step w yaml svc)\<^sup>*\<^sup>*"

text \<open>The rest of the process takes such steps as well, but leaves the timer to \<open>watchConfig\<close>.\<close>

definition others_step :: "world \<Rightarrow> (string \<Rightarrow> Config \<Rightarrow> Config res) \<Rightarrow> svc_state service \<Rightarrow> ('m, svc_state) schedule \<Rightarrow> bool" where
  "others_step w yaml svc sch \<longleftrightarrow> (\<forall>n s armed. svc_steps w yaml svc (s, armed) (sch_others sch n s, armed))"

text \<open>The case of the context is taken only when the context is done.\<close>

definition done_only :: "'m \<Rightarrow> ('m, 's) schedule \<Rightarrow> bool" where
  "done_only done_case sch \<longleftrightarrow> (\<forall>n. sch_chosen sch n = done_case \<longrightarrow> sch_done sch n)"

lemma reachable_steps: "svc_steps w yaml svc c c' \<Longrightarrow> reachable w yaml svc s0 c \<Longrightarrow> reachable w yaml svc s0 c'"
  by (induction rule: rtranclp_induct) (auto intro: reach_step)

lemma watchDocker_loop_steps:
  assumes "watchDocker_loop w sch n s = Some y" "others_step w yaml svc sch" "fst y = Inr ()"
  shows "svc_steps w yaml svc (s, armed) (snd y, armed) \<and>
    (\<exists>k. sch_chosen sch k = DockerDone \<or> sch_chosen sch k = DockerMessage StreamClosed \<and> sch_done sch k)"
  using assms
proof (induction rule: watchDocker_loop.raw_induct[rotated, consumes 1, case_names round])
  case (round loop w sch n s y)
  have others: "svc_steps w yaml svc (s, armed) (sch_others sch n s, armed)"
    using round(3) by (simp add: others_step_def)
  show ?case
  proof (cases "sch_chosen sch n")
    case (DockerMessage msg)
    let ?stop = "msg = StreamClosed \<and> sch_done sch n"
    obtain r s' where r: "run_state (watchDocker_on w msg) (sch_others sch n s) = (r, s')" by fastforce
    show ?thesis
    proof (cases "?stop \<or> isl r")
      case True
      then have "?stop \<and> snd y = sch_others sch n s"
        using round(2,4) DockerMessage r by (cases y; cases r) (auto split: if_splits)
      then show ?thesis using others DockerMessage by auto
    next
      case False
      then have "svc_step w yaml svc (sch_others sch n s, armed) (s', armed)"
        using r by (cases r) (auto intro: step_docker)
      moreover have "loop w sch (Suc n) s' = Some y" using round(2) DockerMessage r False by (auto split: if_splits)
      ultimately show ?thesis using round(1)[OF _ round(3,4)] others by (meson rtranclp.rtrancl_into_rtrancl rtranclp_trans)
    qed
  next
    case DockerDone
    then show ?thesis using round(2) others by auto
  qed
qed

lemma periodicReconcile_steps:
  assumes "periodicReconcile w sch n s = Some y" "others_step w yaml svc sch" "fst y = Inr ()"
  shows "svc_steps w yaml svc (s, armed) (snd y, armed) \<and> (\<exists>k. sch_chosen sch k = TickDone)"
  using assms
proof (induction rule: periodicReconcile.raw_induct[rotated, consumes 1, case_names round])
  case (round loop w sch n s y)
  have others: "svc_steps w yaml svc (s, armed) (sch_others sch n s, armed)"
    using round(3) by (simp add: others_step_def)
  show ?case
  proof (cases "sch_chosen sch n")
    case Tick
    obtain r s' where r: "run_state (periodic_tick w) (sch_others sch n s) = (r, s')" by fastforce
    show ?thesis
    proof (cases "isl r")
      case True
      then show ?thesis using round(2,4) Tick r by (cases r) auto
    next
      case False
      then have "svc_step w yaml svc (sch_others sch n s, armed) (s', armed)"
        using r by (cases r) (auto intro: step_tick)
      moreover have "loop w sch (Suc n) s' = Some y" using round(2) Tick r False by simp
      ultimately show ?thesis using round(1)[OF _ round(3,4)] others by (meson rtranclp.rtrancl_into_rtrancl rtranclp_trans)
    qed
  qed (use round(2) others in auto)
qed

lemma watchConfig_loop_steps:
  assumes "watchConfig_loop fire path sch n armed s = Some y" "others_step w yaml svc sch" "fst y = Inr ()"
    "fire = watchConfig_fire w yaml path" "path = svc_configPath svc"
  shows "(\<exists>armed'. svc_steps w yaml svc (s, armed) (snd y, armed')) \<and> (\<exists>k. sch_chosen sch k = ConfigDone)"
  using assms
proof (induction rule: watchConfig_loop.raw_induct[rotated, consumes 1, case_names round])
  case (round loop fire path sch n armed s y)
  have others: "svc_steps w yaml svc (s, armed) (sch_others sch n s, armed)"
    using round(3) by (simp add: others_step_def)
  have more: "(\<exists>armed'. svc_steps w yaml svc (s, armed) (snd y, armed')) \<and> (\<exists>k. sch_chosen sch k = ConfigDone)"
    if "loop fire path sch (Suc n) a s' = Some y" "svc_steps w yaml svc (sch_others sch n s, armed) (s', a)" for a s'
    using round(1)[OF that(1) round(3-6)] others that(2) by (meson rtranclp_trans)
  show ?case
  proof (cases "sch_chosen sch n")
    case (ConfigEvent name)
    have "svc_steps w yaml svc (sch_others sch n s, armed) (sch_others sch n s, watchConfig_event path name armed)"
      using step_event[of w yaml svc "sch_others sch n s" armed name] round(6) by auto
    then show ?thesis using more round(2) ConfigEvent by simp
  next
    case TimerFired
    obtain r s' where r: "run_state fire (sch_others sch n s) = (r, s')" by fastforce
    show ?thesis
    proof (cases "armed \<and> \<not> isl r")
      case True
      then have "svc_steps w yaml svc (sch_others sch n s, armed) (s', False)"
        using r round(5,6) by (cases r) (auto intro: step_fire)
      then show ?thesis using more round(2) TimerFired r True by simp
    next
      case False
      then show ?thesis using more round(2,4) TimerFired r by (cases y; cases r) (auto split: if_splits)
    qed
  qed (use round(2) others more in auto)
qed

lemma watchConfig_steps:
  assumes run: "watchConfig w yaml (svc_configPath svc) sch s = Some (Inr (), s')" and others: "others_step w yaml svc sch"
  shows "(\<exists>armed. svc_steps w yaml svc (s, False) (s', armed)) \<and>
    ((\<exists>k. sch_chosen sch k = ConfigDone) \<or> isl (w_NewWatcher w (hist s)) \<or>
     isl (w_WatcherAdd w (CallNewWatcher # hist s) (filepath_Dir (svc_configPath svc))))"
proof -
  let ?dir = "filepath_Dir (svc_configPath svc)"
  have call: "svc_step w yaml svc (u, a) (u\<lparr>hist := c # hist u\<rparr>, a)" if "watcher_call c" for c a u
    using that by (rule step_watcher)
  let ?s1 = "s\<lparr>hist := CallNewWatcher # hist s\<rparr>"
  let ?s2 = "?s1\<lparr>hist := CallWatcherAdd ?dir # hist ?s1\<rparr>"
  have s1: "svc_steps w yaml svc (s, False) (?s1, False)"
    using call[of CallNewWatcher s False] by (simp add: r_into_rtranclp)
  have s2: "svc_steps w yaml svc (s, False) (?s2, False)"
    by (rule rtranclp.rtrancl_into_rtrancl[OF s1 call[of "CallWatcherAdd ?dir" ?s1 False]]) simp
  have closed: "svc_steps w yaml svc (s, False) (u\<lparr>hist := CallWatcherClose # hist u\<rparr>, a)"
    if "svc_steps w yaml svc (s, False) (u, a)" for u a
    by (rule rtranclp.rtrancl_into_rtrancl[OF that call[of CallWatcherClose u a]]) simp
  show ?thesis
  proof (cases "w_NewWatcher w (hist s)")
    case (Inl e)
    then have "s' = ?s1" using run by (simp add: watchConfig_def)
    then show ?thesis using s1 Inl by auto
  next
    case made: (Inr u)
    show ?thesis
    proof (cases "w_WatcherAdd w (CallNewWatcher # hist s) ?dir")
      case (Inl e)
      then have "s' = ?s2\<lparr>hist := CallWatcherClose # hist ?s2\<rparr>"
        using run made by (simp add: watchConfig_def watcher_Close_def Let_def)
      then show ?thesis using closed[OF s2] Inl by auto
    next
      case (Inr v)
      then obtain r u where loop: "watchConfig_loop (watchConfig_fire w yaml (svc_configPath svc)) (svc_configPath svc) sch 0
          False ?s2 = Some (r, u)" "r = Inr ()" "s' = u\<lparr>hist := CallWatcherClose # hist u\<rparr>"
        using run made by (auto simp: watchConfig_def watcher_Close_def Let_def)
      obtain a where "svc_steps w yaml svc (?s2, False) (u, a)" "\<exists>k. sch_chosen sch k = ConfigDone"
        using watchConfig_loop_steps[OF loop(1) others _ refl refl] loop(2) by auto
      then show ?thesis using closed[of u a] s2 loop(3) by (meson rtranclp_trans)
    qed
  qed
qed

section \<open>Copying messages\<close>

text \<open>How round \<open>n\<close> of a copy fails, if it does, and the message it writes otherwise.\<close>

definition ws_failure :: "(nat \<Rightarrow> ws_message res) \<Rightarrow> (nat \<Rightarrow> ws_message \<Rightarrow> string option) \<Rightarrow> nat \<Rightarrow> string option" where
  "ws_failure reads writes n = (case reads n of Inl err \<Rightarrow> Some err | Inr msg \<Rightarrow> writes n msg)"

definition ws_read :: "(nat \<Rightarrow> ws_message res) \<Rightarrow> nat \<Rightarrow> ws_message" where
  "ws_read reads n = projr (reads n)"

lemma copyWS_round: "copyWS reads writes n written = (case ws_failure reads writes n of
    Some err \<Rightarrow> Some (written, err) | None \<Rightarrow> copyWS reads writes (Suc n) (written @ [ws_read reads n]))"
  by (subst copyWS.simps) (simp add: ws_failure_def ws_read_def split: sum.split option.split)

lemma copyWS_fails:
  "ws_failure reads writes k = Some err \<Longrightarrow> n \<le> k \<Longrightarrow> list_all (\<lambda>i. ws_failure reads writes i = None) [n..<k] \<Longrightarrow>
   copyWS reads writes n written = Some (written @ map (ws_read reads) [n..<k], err)"
proof (induction "k - n" arbitrary: n written)
  case 0
  then show ?case by (subst copyWS_round) simp
next
  case (Suc j)
  have "copyWS reads writes (Suc n) (written @ [ws_read reads n]) =
      Some ((written @ [ws_read reads n]) @ map (ws_read reads) [Suc n..<k], err)"
    by (rule Suc.hyps(1)) (use Suc.hyps(2) Suc.prems in \<open>auto simp: list_all_iff\<close>)
  moreover have "[n..<k] = n # [Suc n..<k]" using Suc.hyps(2) by (simp add: upt_conv_Cons)
  ultimately show ?case using Suc.prems(3) by (subst copyWS_round) simp
qed

lemma copyWS_ends:
  assumes "copyWS reads writes n written = Some y"
  shows "\<exists>k. ws_failure reads writes k \<noteq> None"
  using assms
proof (induction rule: copyWS.raw_induct[rotated, consumes 1, case_names round])
  case (round loop reads writes n written y)
  have "ws_failure reads writes n \<noteq> None \<or> loop reads writes (Suc n) (written @ [ws_read reads n]) = Some y"
    using round(2) by (auto simp: ws_failure_def ws_read_def split: sum.splits option.splits)
  then show ?case using round(1) by blast
qed

section \<open>The end\<close>

definition end_calls :: "('z svc_state_scheme) service \<Rightarrow> run_select \<Rightarrow> call list" where
  "end_calls svc chosen = (case svc_tokenStore svc of None \<Rightarrow> [] | Some _ \<Rightarrow> [CallDbClose]) @
     [CallDockerClose, case chosen of ContextDone _ \<Rightarrow> CallShutdown | ServerFailed _ \<Rightarrow> CallServerClose]"

lemma Run_end_run: "run_state (Run_end svc chosen) s = ((), s\<lparr>hist := end_calls svc chosen @ hist s\<rparr>)"
  by (simp add: Run_end_def gateway_Close_def pg_Close_def dockerx_Close_def end_calls_def split: run_select.split option.split)

text \<open>A run that ends has stopped the server, closed the Docker client and then the store.\<close>

lemma Run_closes:
  assumes "run_state (Run w svc serve) s = (Inr chosen, s')"
  obtains addr s1 s2 where "run_state (Run_start w) s = (Inr addr, s1)" "run_state (serve addr) s1 = (Inr chosen, s2)"
    "s' = s2\<lparr>hist := end_calls svc chosen @ hist s2\<rparr>"
proof -
  obtain a s1 where 1: "run_state (Run_start w) s = (a, s1)" by fastforce
  then obtain addr where a: "a = Inr addr" using assms by (cases a) (simp_all add: Run_def)
  obtain c s2 where 2: "run_state (serve addr) s1 = (c, s2)" by fastforce
  then obtain chosen' where c: "c = Inr chosen'" using assms 1 a by (cases c) (simp_all add: Run_def)
  have "chosen' = chosen" "s' = s2\<lparr>hist := end_calls svc chosen @ hist s2\<rparr>"
    using assms 1 2 unfolding a c by (auto simp: Run_def Run_end_run)
  then show thesis using that 1 2 unfolding a c by blast
qed

section \<open>Properties\<close>

text \<open>Claim C12. Once its context ends, each of the three goroutines returns and does not panic, whatever messages it
  gets before, provided that Docker's inspections are complete and that the rest of the process
  keeps the Mutagen client consistent. It returns in the round in which its \<open>select\<close> takes the case of the
  context, or before; and \<open>watchDocker\<close> also in the round in which it finds the stream of events at its end and
  the context done.\<close>

theorem goroutines_return:
  assumes "complete_answers w" "mut_inv s" "others_keep d" "others_keep c" "others_keep t"
    and "context_ends DockerDone d" "context_ends ConfigDone c" "context_ends TickDone t"
  shows "(\<exists>i. sch_chosen d i = DockerDone \<and> returns_by i d (\<lambda>d. watchDocker w d s)) \<and>
    (\<exists>j. sch_chosen c j = ConfigDone \<and> returns_by j c (\<lambda>c. watchConfig w yaml path c s)) \<and>
    (\<exists>k. sch_chosen t k = TickDone \<and> returns_by k t (\<lambda>t. periodicReconcile w t 0 s)) \<and>
    (\<forall>i. sch_chosen d i = DockerMessage StreamClosed \<and> sch_done d i \<longrightarrow> returns_by i d (\<lambda>d. watchDocker w d s))"
proof -
  have docker: "returns_by i d (\<lambda>d. watchDocker w d s)"
    if "sch_chosen d i = DockerDone \<or> sch_chosen d i = DockerMessage StreamClosed \<and> sch_done d i" for i
    unfolding watchDocker_def
    by (rule watchDocker_loop_by[OF assms(1,3) that le0]) (simp add: Events_def assms(2))
  obtain i where i: "sch_chosen d i = DockerDone" using context_endsE[OF assms(6)] .
  obtain j where j: "sch_chosen c j = ConfigDone" using context_endsE[OF assms(7)] .
  obtain k where k: "sch_chosen t k = TickDone" using context_endsE[OF assms(8)] .
  show ?thesis
  proof (intro conjI allI impI)
    show "\<exists>i. sch_chosen d i = DockerDone \<and> returns_by i d (\<lambda>d. watchDocker w d s)"
      by (rule exI[of _ i], rule conjI[OF i docker[OF disjI1[OF i]]])
    show "\<exists>j. sch_chosen c j = ConfigDone \<and> returns_by j c (\<lambda>c. watchConfig w yaml path c s)"
      by (rule exI[of _ j], rule conjI[OF j watchConfig_by[OF assms(1,4) j assms(2)]])
    show "\<exists>k. sch_chosen t k = TickDone \<and> returns_by k t (\<lambda>t. periodicReconcile w t 0 s)"
      by (rule exI[of _ k], rule conjI[OF k periodicReconcile_by[OF assms(1,5) k le0 assms(2)]])
    show "returns_by l d (\<lambda>d. watchDocker w d s)" if "sch_chosen d l = DockerMessage StreamClosed \<and> sch_done d l" for l
      by (rule docker[OF disjI2[OF that]])
  qed
qed

text \<open>Claim C11. A goroutine that returns without a panic has taken the running service to a reachable state, when the
  rest of the process takes its steps meanwhile, and its context was done in some round of its schedule; only \<open>watchConfig\<close> also
  returns when the file watcher cannot be made or the directory cannot be added to it. The three loops
  are what the step relation of the running service says they are.\<close>

theorem goroutines_reachable:
  assumes start: "reachable w yaml svc s0 (s, False)"
    and o: "others_step w yaml svc d" "others_step w yaml svc c" "others_step w yaml svc t"
    and only: "done_only DockerDone d" "done_only ConfigDone c" "done_only TickDone t"
  shows "(case watchDocker w d s of
      Some (Inr (), s') \<Rightarrow> reachable w yaml svc s0 (s', False) \<and> (\<exists>i. sch_done d i)
    | _ \<Rightarrow> True) \<and>
   (case watchConfig w yaml (svc_configPath svc) c s of
      Some (Inr (), s') \<Rightarrow> (\<exists>armed. reachable w yaml svc s0 (s', armed)) \<and>
        ((\<exists>j. sch_done c j) \<or> isl (w_NewWatcher w (hist s)) \<or>
         isl (w_WatcherAdd w (CallNewWatcher # hist s) (filepath_Dir (svc_configPath svc))))
    | _ \<Rightarrow> True) \<and>
   (case periodicReconcile w t 0 s of
      Some (Inr (), s') \<Rightarrow> reachable w yaml svc s0 (s', False) \<and> (\<exists>k. sch_done t k)
    | _ \<Rightarrow> True)"
proof (intro conjI)
  have docker: "reachable w yaml svc s0 (s', False) \<and> (\<exists>i. sch_done d i)" if run: "watchDocker w d s = Some (Inr (), s')" for s'
  proof -
    obtain u where e: "run_state Events s = ((), u)" by (metis old.unit.exhaust prod.exhaust)
    have "svc_step w yaml svc (s, False) (u, False)"
      by (rule step_docker[where msg = StreamClosed]) (simp add: watchDocker_on_def e)
    moreover have "watchDocker_loop w d 0 u = Some (Inr (), s')" using run e by (simp add: watchDocker_def)
    note l = watchDocker_loop_steps[OF this o(1), of False, unfolded fst_conv snd_conv, OF refl]
    ultimately have "svc_steps w yaml svc (s, False) (s', False)" by (meson l converse_rtranclp_into_rtranclp)
    then show ?thesis using reachable_steps[OF _ start] l only(1) unfolding done_only_def by blast
  qed
  show "case watchDocker w d s of Some (Inr (), s') \<Rightarrow> reachable w yaml svc s0 (s', False) \<and> (\<exists>i. sch_done d i) | _ \<Rightarrow> True"
    by (rule when_returned) (rule docker)
  have config: "(\<exists>armed. reachable w yaml svc s0 (s', armed)) \<and> ((\<exists>j. sch_done c j) \<or> isl (w_NewWatcher w (hist s)) \<or>
      isl (w_WatcherAdd w (CallNewWatcher # hist s) (filepath_Dir (svc_configPath svc))))"
    if run: "watchConfig w yaml (svc_configPath svc) c s = Some (Inr (), s')" for s'
    using watchConfig_steps[OF run o(2)] reachable_steps[OF _ start] only(2) unfolding done_only_def by blast
  show "case watchConfig w yaml (svc_configPath svc) c s of
      Some (Inr (), s') \<Rightarrow> (\<exists>armed. reachable w yaml svc s0 (s', armed)) \<and>
        ((\<exists>j. sch_done c j) \<or> isl (w_NewWatcher w (hist s)) \<or>
         isl (w_WatcherAdd w (CallNewWatcher # hist s) (filepath_Dir (svc_configPath svc))))
    | _ \<Rightarrow> True"
    by (rule when_returned) (rule config)
  have tick: "reachable w yaml svc s0 (s', False) \<and> (\<exists>k. sch_done t k)" if run: "periodicReconcile w t 0 s = Some (Inr (), s')" for s'
    using periodicReconcile_steps[OF run o(3), of False, unfolded fst_conv snd_conv, OF refl] reachable_steps[OF _ start] only(3)
    unfolding done_only_def by blast
  show "case periodicReconcile w t 0 s of Some (Inr (), s') \<Rightarrow> reachable w yaml svc s0 (s', False) \<and> (\<exists>k. sch_done t k) | _ \<Rightarrow> True"
    by (rule when_returned) (rule tick)
qed

text \<open>Claim C31. A copy between websockets returns exactly when some read or write fails, and by then it has written
  the messages read before, each once and in their order; it never returns otherwise.\<close>

theorem copyWS_spec:
  "copyWS reads writes 0 [] =
     (if (\<exists>n. ws_failure reads writes n \<noteq> None)
      then let n = LEAST n. ws_failure reads writes n \<noteq> None in
        Some (map (ws_read reads) [0..<n], the (ws_failure reads writes n))
      else None)"
proof (cases "\<exists>n. ws_failure reads writes n \<noteq> None")
  case True
  define n where "n = (LEAST n. ws_failure reads writes n \<noteq> None)"
  obtain err where err: "ws_failure reads writes n = Some err" using LeastI_ex[OF True] by (auto simp: n_def)
  have "ws_failure reads writes i = None" if "i < n" for i
    using not_less_Least[OF that[unfolded n_def]] by blast
  then have "list_all (\<lambda>i. ws_failure reads writes i = None) [0..<n]" by (simp add: list_all_iff)
  then have "copyWS reads writes 0 [] = Some (map (ws_read reads) [0..<n], the (ws_failure reads writes n))"
    using copyWS_fails[OF err le0, of "[]"] by (simp only: append_Nil err option.sel)
  then show ?thesis unfolding if_P[OF True] Let_def n_def[symmetric] .
next
  case False
  then show ?thesis using copyWS_ends[of reads writes 0 "[]"] by (cases "copyWS reads writes 0 []") auto
qed

text \<open>Claim C24. The process ends with status 0 only after its context was done: it has served on the address
  that the configuration or the override names, and it has shut the server down, closed the
  Docker client and, where there is one, the store, in this order and as its last actions.\<close>

theorem main_ends_in_order:
  assumes "run_state (main_run w yaml fl serve) s = (Inr status, s')"
  shows "if status = 0
    then \<exists>svc s0 addr s1 s2 err. run_state (main_start w yaml fl) s = (Inr svc, s0) \<and>
      run_state (Run_start w) s0 = (Inr addr, s1) \<and> run_state (serve svc addr) s1 = (Inr (ContextDone err), s2) \<and>
      hist s' = (case svc_tokenStore svc of None \<Rightarrow> [] | Some _ \<Rightarrow> [CallDbClose]) @ [CallDockerClose, CallShutdown] @ hist s2
    else status = 1"
proof -
  obtain started s0 where 0: "run_state (main_start w yaml fl) s = (started, s0)" by fastforce
  show ?thesis
  proof (cases started)
    case (Inl e)
    then show ?thesis using assms 0 by (simp add: main_run_def)
  next
    case (Inr svc)
    obtain r s3 where 3: "run_state (Run w svc (serve svc)) s0 = (r, s3)" by fastforce
    then obtain chosen where r: "r = Inr chosen" using assms 0 Inr by (cases r) (simp_all add: main_run_def)
    have e: "s' = s3" "status = (case chosen of ContextDone _ \<Rightarrow> 0 | ServerFailed _ \<Rightarrow> 1)"
      using assms 0 3 Inr r by (simp_all add: main_run_def)
    obtain addr s1 s2 where "run_state (Run_start w) s0 = (Inr addr, s1)" "run_state (serve svc addr) s1 = (Inr chosen, s2)"
      "s3 = s2\<lparr>hist := end_calls svc chosen @ hist s2\<rparr>"
      using Run_closes[OF 3[unfolded r]] by blast
    then show ?thesis using 0 Inr e by (cases chosen) (auto simp: end_calls_def)
  qed
qed

section \<open>Witnesses\<close>

text \<open>A service with Docker down: an event, the end of its stream and then the end of the context; a change of the
  configuration file that cannot be read; one tick. Meanwhile requests are served.\<close>

definition docker_messages :: "nat \<Rightarrow> docker_select" where
  "docker_messages n = (if n = 0 then DockerMessage DockerEvent
     else if n = 1 then DockerMessage StreamClosed else DockerDone)"

definition config_messages :: "nat \<Rightarrow> config_select" where
  "config_messages n = (if n = 0 then ConfigEvent ''/etc/dcm.yaml'' else if n = 1 then TimerFired else ConfigDone)"

definition ticks :: "nat \<Rightarrow> tick_select" where
  "ticks n = (if n < 2 then Tick else TickDone)"

definition busy :: "(nat \<Rightarrow> 'm) \<Rightarrow> ('m, svc_state) schedule" where
  "busy chosen = \<lparr>sch_chosen = chosen, sch_done = (\<lambda>n. 2 \<le> n),
     sch_others = (\<lambda>_ s. snd (run_state (routes offline_world live_service public_get) s))\<rparr>"

lemma busy_steps: "others_step offline_world yaml live_service (busy chosen)"
  unfolding others_step_def busy_def
  by (auto intro!: r_into_rtranclp step_request prod.collapse[symmetric])

lemma busy_done: "done_only DockerDone (busy docker_messages)" "done_only ConfigDone (busy config_messages)"
  "done_only TickDone (busy ticks)"
  by (auto simp: done_only_def busy_def docker_messages_def config_messages_def ticks_def split: if_splits)

lemma busy_contextI: "(\<And>n. 2 \<le> n \<Longrightarrow> chosen n = m) \<Longrightarrow> context_ends m (busy chosen)"
  unfolding context_ends_def busy_def by fastforce

lemma busy_ends: "context_ends DockerDone (busy docker_messages)" "context_ends ConfigDone (busy config_messages)"
  "context_ends TickDone (busy ticks)"
  by (rule busy_contextI, simp add: docker_messages_def config_messages_def ticks_def)+

lemma offline_complete: "complete_answers offline_world"
  by (simp add: complete_answers_def offline_world_def)

text \<open>A quiet schedule: nothing else happens while the goroutine waits.\<close>

definition quiet :: "(nat \<Rightarrow> 'm) \<Rightarrow> ('m, svc_state) schedule" where
  "quiet chosen = (busy chosen)\<lparr>sch_others := (\<lambda>_ s. s)\<rparr>"

lemma quiet_facts: "others_keep (quiet chosen)" "sch_chosen (quiet chosen) = chosen"
  "context_ends m (quiet chosen) \<longleftrightarrow> context_ends m (busy chosen)"
  by (simp_all add: others_keep_def quiet_def context_ends_def busy_def)

theorem goroutines_return_witness:
  "\<exists>s'. watchDocker offline_world (quiet docker_messages) live_init = Some (Inr (), s')"
proof -
  have "mut_inv live_init" by (simp add: live_init_def mut_inv_def client_ok_def newMutagenClient_def)
  note goroutines_return[OF offline_complete this quiet_facts(1) quiet_facts(1) quiet_facts(1)
      quiet_facts(3)[THEN iffD2, OF busy_ends(1)] quiet_facts(3)[THEN iffD2, OF busy_ends(2)]
      quiet_facts(3)[THEN iffD2, OF busy_ends(3)], of "\<lambda>_ c. Inr c" "''/etc/dcm.yaml''", THEN conjunct1]
  then obtain i where "returns_by i (quiet docker_messages) (\<lambda>d. watchDocker offline_world d live_init)" by blast
  then show ?thesis by (rule returns_by_self)
qed

lemma offline_reconcile: "run_state (reconcile offline_world) s = (Inr (Some ''offline''), s\<lparr>hist := CallContainerList # hist s\<rparr>)"
  by (simp add: reconcile_def reconcile_scan_def ListDevcontainers_def offline_world_def)

lemma busy_fields: "sch_chosen (busy chosen) = chosen" "sch_done (busy chosen) n = (2 \<le> n)"
  by (simp_all add: busy_def)

lemma busy_runs: "\<exists>s1. watchDocker offline_world (busy docker_messages) s = Some (Inr (), s1)"
  by (simp add: watchDocker_def watchDocker_loop.simps[of offline_world "busy docker_messages" 0]
      watchDocker_loop.simps[of offline_world "busy docker_messages" "Suc 0"]
      watchDocker_loop.simps[of offline_world "busy docker_messages" "Suc (Suc 0)"]
      busy_fields docker_messages_def watchDocker_on_def offline_reconcile Events_def)

theorem goroutines_reachable_witness:
  "\<exists>s1. watchDocker offline_world (busy docker_messages) (snd (run_state (reconcile offline_world) live_init)) = Some (Inr (), s1) \<and>
     reachable offline_world (\<lambda>_ c. Inr c) live_service live_init (s1, False)"
proof -
  let ?s = "snd (run_state (reconcile offline_world) live_init)"
  have start: "reachable offline_world (\<lambda>_ c. Inr c) live_service live_init (?s, False)"
    by (rule reach_start[where err = "Some ''offline''"]) (simp add: offline_reconcile)
  obtain s1 where run: "watchDocker offline_world (busy docker_messages) ?s = Some (Inr (), s1)"
    using busy_runs by blast
  have "reachable offline_world (\<lambda>_ c. Inr c) live_service live_init (s1, False)"
    using goroutines_reachable[OF start busy_steps busy_steps busy_steps busy_done, THEN conjunct1]
    unfolding run by (simp only: option.case prod.case sum.case old.unit.case)
  then show ?thesis using run by blast
qed

text \<open>A process that serves one request and is then interrupted.\<close>

definition one_request :: "svc_state service \<Rightarrow> string \<Rightarrow> (svc_state, run_select go) state" where
  "one_request svc addr = do {
     routes main_world svc public_get;
     State_Monad.return (Inr (ContextDone ''context canceled''))
   }"

theorem main_ends_in_order_witness:
  "\<exists>s' h. run_state (main_run main_world (\<lambda>_ c. Inr c) no_flags one_request) main_state = (Inr 0, s') \<and>
     hist s' = CallDockerClose # CallShutdown # h"
proof -
  have "fst (run_state (main_run main_world (\<lambda>_ c. Inr c) no_flags one_request) main_state) = Inr 0"
    by (simp add: main_run_def main_started Run_def main_listens one_request_def Run_end_run split: prod.split)
  then obtain s' where run: "run_state (main_run main_world (\<lambda>_ c. Inr c) no_flags one_request) main_state = (Inr 0, s')"
    by (metis prod.collapse)
  have "svc_tokenStore main_service = None" by (simp add: main_service_def)
  then show ?thesis using main_ends_in_order[OF run] run by (auto simp: main_started)
qed

end
