(* ===== verification/ClientRace.thy ===== *)
theory ClientRace
  imports Mutagen
begin

text \<open>
  Reconciliations overlap: Docker events, the ticker and the configuration watcher each start them,
  and all share one Mutagen client. The mutex of \<open>internal/syncx/mutagen.go\<close> is held in
  \<open>ensureConnected\<close> and in \<open>reset\<close>, not in between, where a listing reads the field \<open>sync\<close> and waits
  for the daemon. Here \<open>listOwned\<close> is cut at these points and runs in any number of goroutines.
\<close>

section \<open>A listing in parts\<close>

text \<open>Where a goroutine is: before \<open>ensureConnected\<close>, after it, waiting for the daemon with the stub it
  read, before the \<open>reset\<close> after a failure, or at its end.\<close>

datatype listing =
    Started
  | Connected
  | Requesting pointer
  | Failed string
  | Returned "(string, liveSession) gomap res"
  | Panicked panic

definition list_advance :: "world \<Rightarrow> listing \<Rightarrow> ('z mut_state_scheme, listing) state" where
  "list_advance w pc = (case pc of
       Started \<Rightarrow> do {
         err \<leftarrow> ensureConnected w;
         State_Monad.return (case err of Some e \<Rightarrow> Returned (Inl e) | None \<Rightarrow> Connected)
       }
     | Connected \<Rightarrow> do {
         c \<leftarrow> get_client;
         State_Monad.return (case mc_sync c of None \<Rightarrow> Panicked NilDereference | Some stub \<Rightarrow> Requesting stub)
       }
     | Requesting stub \<Rightarrow> do {
         response \<leftarrow> ask (\<lambda>h. w_SyncList w h (labelOwned @ ''=true'')) (CallSyncList stub (labelOwned @ ''=true''));
         State_Monad.return (case response of
             RpcError e \<Rightarrow> Failed e
           | RpcInvalid e \<Rightarrow> Returned (Inl e)
           | RpcOk states \<Rightarrow> Returned (Inr (live_map states [])))
       }
     | Failed e \<Rightarrow> do { reset; State_Monad.return (Returned (Inl e)) }
     | _ \<Rightarrow> State_Monad.return pc)"

text \<open>A goroutine that is not interrupted does what \<open>listOwned\<close> does.\<close>

definition listing_result :: "listing \<Rightarrow> (string, liveSession) gomap res go" where
  "listing_result pc = (case pc of Returned r \<Rightarrow> Inr r | Panicked p \<Rightarrow> Inl p | _ \<Rightarrow> Inr (Inl []))"

lemma listOwned_parts:
  "run_state (listOwned w) s = run_state (do {
     p1 \<leftarrow> list_advance w Started; p2 \<leftarrow> list_advance w p1; p3 \<leftarrow> list_advance w p2; p4 \<leftarrow> list_advance w p3;
     State_Monad.return (listing_result p4)
   }) s"
proof -
  obtain err s1 where 1: "run_state (ensureConnected w) s = (err, s1)" by fastforce
  show ?thesis
    using 1 by (cases err; cases "mc_sync (ms_client s1)"; cases "w_SyncList w (hist s1) (labelOwned @ ''=true'')")
      (simp_all add: listOwned_def list_request_def list_advance_def listing_result_def split: prod.split)
qed

section \<open>Goroutines\<close>

type_synonym 's listings = "'s \<times> listing list"

inductive client_step :: "world \<Rightarrow> 'z mut_state_scheme listings \<Rightarrow> 'z mut_state_scheme listings \<Rightarrow> bool" for w where
  client_advance: "i < length ls \<Longrightarrow> run_state (list_advance w (ls ! i)) s = (pc, s') \<Longrightarrow>
    client_step w (s, ls) (s', ls[i := pc])"

inductive_cases client_stepE: "client_step w (s, ls) c"

abbreviation client_steps :: "world \<Rightarrow> 'z mut_state_scheme listings \<Rightarrow> 'z mut_state_scheme listings \<Rightarrow> bool" where
  "client_steps w \<equiv> (client_step w)\<^sup>*\<^sup>*"

section \<open>A panic needs a failure\<close>

definition failed_listing :: "listing list \<Rightarrow> bool" where
  "failed_listing ls \<longleftrightarrow> (\<exists>e. Returned (Inl e) \<in> set ls)"

definition panicked :: "listing list \<Rightarrow> bool" where
  "panicked ls \<longleftrightarrow> (\<exists>p. Panicked p \<in> set ls)"

text \<open>Until a listing has failed, a connected goroutine finds its stub.\<close>

definition race_inv :: "'z mut_state_scheme listings \<Rightarrow> bool" where
  "race_inv c \<longleftrightarrow> mut_inv (fst c) \<and>
     (failed_listing (snd c) \<or> \<not> panicked (snd c) \<and> (Connected \<in> set (snd c) \<longrightarrow> mc_sync (ms_client (fst c)) \<noteq> None))"

lemma list_advance_run:
  assumes "run_state (list_advance w pc) s = (pc', s')" "mut_inv s"
  shows "mut_inv s' \<and> (case pc of
      Started \<Rightarrow> if pc' = Connected then mc_sync (ms_client s') \<noteq> None else \<exists>e. pc' = Returned (Inl e)
    | Connected \<Rightarrow> s' = s \<and> (if mc_sync (ms_client s) = None then pc' = Panicked NilDereference else \<exists>p. pc' = Requesting p)
    | Requesting _ \<Rightarrow> ms_client s' = ms_client s \<and> ((\<exists>e. pc' = Failed e) \<or> (\<exists>r. pc' = Returned r))
    | Failed e \<Rightarrow> pc' = Returned (Inl e)
    | _ \<Rightarrow> s' = s \<and> pc' = pc)"
proof (cases pc)
  case Started
  obtain err s1 where 1: "run_state (ensureConnected w) s = (err, s1)" by fastforce
  then show ?thesis
    using assms Started ensureConnected_run[OF 1 assms(2)]
    by (cases err) (auto simp: list_advance_def connected_inv_def client_ok_def)
next
  case (Failed e)
  obtain s1 where 1: "run_state reset s = ((), s1)" by (metis old.unit.exhaust prod.exhaust)
  then show ?thesis using assms Failed reset_run[OF 1] by (simp add: list_advance_def)
next
  case (Requesting stub)
  then show ?thesis using assms by (auto simp: list_advance_def mut_inv_def split: rpc.splits)
qed (use assms in \<open>auto simp: list_advance_def split: option.splits\<close>)

lemma race_step:
  assumes "client_step w c c'" "race_inv c"
  shows "race_inv c'"
  using assms(1)
proof cases
  case (client_advance i ls s pc s')
  have inv: "mut_inv s" using assms(2) client_advance by (simp add: race_inv_def)
  note run = list_advance_run[OF client_advance(4) inv]
  have old: "ls ! i \<in> set ls" using client_advance(3) by simp
  have keep: "failed_listing (ls[i := pc])" if fl: "failed_listing ls"
  proof -
    obtain e where e: "Returned (Inl e) \<in> set ls" using fl unfolding failed_listing_def by blast
    then obtain j where j: "j < length ls" "ls ! j = Returned (Inl e)" by (auto simp: in_set_conv_nth)
    have "ls[i := pc] ! j = Returned (Inl e)" using j run by (cases "j = i") auto
    then show ?thesis using j(1) by (metis failed_listing_def length_list_update nth_mem)
  qed
  have new: "x \<in> set (ls[i := pc]) \<Longrightarrow> x = pc \<or> x \<in> set ls" for x
    using set_update_subset_insert[of ls i pc] by blast
  have placed: "pc \<in> set (ls[i := pc])" using client_advance(3) by (simp add: set_update_memI)
  show ?thesis
  proof (cases "failed_listing ls \<or> (\<exists>e. pc = Returned (Inl e))")
    case True
    then have "failed_listing (ls[i := pc])" using keep placed by (auto simp: failed_listing_def)
    then show ?thesis using run client_advance(2) by (simp add: race_inv_def)
  next
    case False
    then have safe: "\<not> panicked ls" "Connected \<in> set ls \<Longrightarrow> mc_sync (ms_client s) \<noteq> None"
      using assms(2) client_advance(1) by (auto simp: race_inv_def)
    have "\<not> panicked (ls[i := pc]) \<and> (Connected \<in> set (ls[i := pc]) \<longrightarrow> mc_sync (ms_client s') \<noteq> None)"
      using run False safe old new by (cases "ls ! i") (auto simp: panicked_def split: if_splits dest!: new)
    then show ?thesis using run client_advance(2) by (simp add: race_inv_def)
  qed
qed

lemma race_steps: "client_steps w c c' \<Longrightarrow> race_inv c \<Longrightarrow> race_inv c' \<and> length (snd c') = length (snd c)"
proof (induction rule: rtranclp_induct)
  case (step d d')
  have "length (snd d') = length (snd d)" using step(2) by cases simp
  then show ?case using race_step[OF step(2)] step(3,4) by simp
qed simp

lemma two_places: "x \<in> set ls \<Longrightarrow> y \<in> set ls \<Longrightarrow> x \<noteq> y \<Longrightarrow> 2 \<le> length ls"
  by (cases ls; cases "tl ls") auto

section \<open>A panic\<close>

lemma two_listings:
  assumes inv: "mut_inv s" and conn: "mc_conn (ms_client s) = Some stub"
    and fails: "w_SyncList w (hist s) (labelOwned @ ''=true'') = RpcError e"
  shows "\<exists>s'. client_steps w (s, [Started, Started]) (s', [Panicked NilDereference, Returned (Inl e)])"
proof -
  have sync: "mc_sync (ms_client s) = Some stub" using inv conn by (simp add: mut_inv_def client_ok_def)
  let ?s1 = "s\<lparr>hist := CallSyncList stub (labelOwned @ ''=true'') # hist s\<rparr>"
  obtain s2 where 2: "run_state reset ?s1 = ((), s2)" by (metis old.unit.exhaust prod.exhaust)
  then have gone: "mc_sync (ms_client s2) = None" by (auto simp: reset_def split: option.splits)
  have connect: "run_state (list_advance w Started) s = (Connected, s)"
    using conn by (simp add: list_advance_def ensureConnected_def)
  have step: "client_step w (t, ls) (t', ls')" if "run_state (list_advance w (ls ! i)) t = (pc, t')" "ls' = ls[i := pc]" "i < length ls"
    for t t' :: "'a mut_state_scheme" and ls ls' i pc
    using client_advance[OF that(3,1)] that(2) by simp
  have 1: "client_step w (s, [Started, Started]) (s, [Connected, Started])"
    by (rule step[of _ 0]) (simp_all add: connect)
  have 3: "client_step w (s, [Connected, Started]) (s, [Connected, Connected])"
    by (rule step[of _ 1]) (simp_all add: connect)
  have 4: "client_step w (s, [Connected, Connected]) (s, [Connected, Requesting stub])"
    by (rule step[of _ 1]) (simp_all add: list_advance_def sync)
  have 5: "client_step w (s, [Connected, Requesting stub]) (?s1, [Connected, Failed e])"
    by (rule step[of _ 1]) (simp_all add: list_advance_def fails)
  have 6: "client_step w (?s1, [Connected, Failed e]) (s2, [Connected, Returned (Inl e)])"
    by (rule step[of _ 1]) (simp_all add: list_advance_def 2)
  have 7: "client_step w (s2, [Connected, Returned (Inl e)]) (s2, [Panicked NilDereference, Returned (Inl e)])"
    by (rule step[of _ 0]) (simp_all add: list_advance_def gone)
  note go = converse_rtranclp_into_rtranclp[of "client_step w"]
  show ?thesis
    using go[OF 1 go[OF 3 go[OF 4 go[OF 5 go[OF 6 r_into_rtranclp[of "client_step w", OF 7]]]]]] by blast
qed

section \<open>Properties\<close>

text \<open>Claim C22. Listings that overlap: of any number of them, from a consistent client, one panics only when
  another has failed; a listing on its own never panics.\<close>

theorem listing_panic_needs_failure:
  assumes "client_steps w (s, replicate n Started) (s', ls)" "mut_inv s"
  shows "if panicked ls then failed_listing ls \<and> 2 \<le> n else True"
proof -
  have "race_inv (s, replicate n Started)" using assms(2) by (auto simp: race_inv_def panicked_def)
  then have inv: "race_inv (s', ls)" "length ls = n" using race_steps[OF assms(1)] by simp_all
  show ?thesis
  proof (cases "panicked ls")
    case True
    then have "failed_listing ls" using inv(1) by (simp add: race_inv_def)
    moreover obtain p e where "Panicked p \<in> set ls" "Returned (Inl e) \<in> set ls"
      using True calculation unfolding panicked_def failed_listing_def by blast
    ultimately show ?thesis using two_places[of "Panicked p" ls "Returned (Inl e)"] inv(2) by simp
  qed simp
qed

text \<open>Claim C21. And one can panic: when the daemon fails one of two listings that are under way on a connection, the
  reset takes the stub away from the other between its check of the connection and its request,
  which dereferences nil. Nothing recovers from a panic in these goroutines, so the process ends.\<close>

theorem concurrent_listings_panic:
  assumes "mut_inv s" and "mc_conn (ms_client s) = Some stub"
    and "w_SyncList w (hist s) (labelOwned @ ''=true'') = RpcError e"
  shows "\<exists>s'. client_steps w (s, [Started, Started]) (s', [Panicked NilDereference, Returned (Inl e)])"
  using two_listings[OF assms] .

section \<open>Witnesses\<close>

text \<open>A client connected to a daemon that has gone away.\<close>

definition gone_world :: world where
  "gone_world = offline_world\<lparr>w_SyncList := \<lambda>_ _. RpcError ''unavailable''\<rparr>"

definition connected_state :: mut_state where
  "connected_state = \<lparr>hist = [], ms_client = \<lparr>mc_conn = Some 1, mc_sync = Some 1, mc_prompt = Some 1\<rparr>\<rparr>"

lemma connected_facts: "mut_inv connected_state" "mc_conn (ms_client connected_state) = Some 1"
  "w_SyncList gone_world (hist connected_state) (labelOwned @ ''=true'') = RpcError ''unavailable''"
  by (simp_all add: connected_state_def gone_world_def mut_inv_def client_ok_def)

theorem listing_panic_needs_failure_witness:
  "\<exists>s' ls. client_steps gone_world (connected_state, replicate 2 Started) (s', ls) \<and> panicked ls \<and> failed_listing ls"
proof -
  have "replicate 2 Started = [Started, Started]" by (simp add: numeral_2_eq_2)
  then obtain s' where run: "client_steps gone_world (connected_state, replicate 2 Started)
      (s', [Panicked NilDereference, Returned (Inl ''unavailable'')])"
    using two_listings[OF connected_facts] by auto
  have "panicked [Panicked NilDereference, Returned (Inl ''unavailable'')]" by (auto simp: panicked_def)
  then show ?thesis using listing_panic_needs_failure[OF run connected_facts(1)] run by auto
qed

theorem concurrent_listings_panic_witness:
  "\<exists>s'. client_steps gone_world (connected_state, [Started, Started]) (s', [Panicked NilDereference, Returned (Inl ''unavailable'')])"
  by (rule concurrent_listings_panic[OF connected_facts])

end
