(* ===== verification/Spec2Isabelle.thy ===== *)
theory Spec2Isabelle
  imports EndToEnd Interleaving Disclosure Schema Loops ClientRace
begin

text \<open>
  A model of devcontainer-manager (DCM) and what is proved of it.

  The program. DCM is one Go process. \<open>cmd/devcontainer-manager/main.go\<close> reads the options and
  the configuration, checks the listen address and starts the service of \<open>internal/app\<close>. The
  service lists the running devcontainers through \<open>internal/dockerx\<close>, probes the t3 server in
  each through the gateway of \<open>internal/t3\<close>, asks \<open>internal/syncx\<close> to bring the Mutagen
  sessions in line with the rules of the configuration, and stores the result. It does so at
  its start, on Docker events, every 30 seconds and after a change of the configuration file.
  Its HTTP server shows the result as JSON, makes pairing codes, and hands everything below
  \<open>/env/<id>\<close> to the gateway: a bootstrap trades a pairing code for a browser token (kept in
  memory and, with a Postgres URL, in a table), and a request with a token is proxied to the
  backend with the owner's token instead, which is refreshed on a 401.

  How it is modelled. Pure functions are HOL functions on \<open>string\<close> (lists of bytes as
  characters), \<open>int\<close> (times in nanoseconds, Go's \<open>int\<close>), words where the code computes on bytes,
  and records for the structs. A map or slice whose nil the program tells from an empty one (in its JSON) is an
  \<open>option\<close>. Code with effects is a state monad (\<open>State_Monad\<close>) over extensible
  records, each component adding its fields: \<open>io_state\<close> (the calls made so far), \<open>mut_state\<close>
  (the Mutagen client), \<open>gw_state\<close> (the gateway's maps), \<open>pg_state\<close> (the rows of the table),
  \<open>svc_state\<close> (configuration, containers, sessions). A Go error is \<open>Inl\<close> or \<open>Some\<close>, a panic is
  \<open>Inl\<close> of the type \<open>go\<close>. Code that is not in the repository (the Docker engine, the Mutagen
  daemon and its packages, HTTP backends, the database, the clock, randomness, the YAML and JSON
  syntax, regular expressions, globs, URLs) is a parameter: \<open>world\<close> has one function per
  operation, which sees the calls made before, so it may answer anything at any time. The only
  assumptions on it are written in the theorems that need them. The order in which Go ranges over
  the containers is such a function too, and so is the order in which an unstable sort leaves equal
  names; the labels of a container and the sessions of the daemon are visited in the order in which Docker and the
  daemon answered them, which is as arbitrary. The standard library functions the code relies on for its own
  logic (strings, paths, host and port, base64, hex, SHA-1) are defined and proved about.

  The theories, in the order of their imports:

  \<^item> \<open>Prelude\<close>: Go's \<open>strings\<close> and \<open>strconv\<close>, sums and maps; the collection \<open>go_string\<close>.
  \<^item> \<open>World\<close>: the world, its calls, and two rule systems for effectful programs: \<open>call_rules\<close> (which
    calls a program makes) and the locales \<open>step_order\<close> and \<open>io_order\<close> (programs whose steps
    stay within a preorder on states, which is how invariants are carried through whole handlers).
  \<^item> \<open>Config\<close>, \<open>Model\<close>: \<open>internal/config/config.go\<close> and \<open>internal/model/model.go\<close>.
  \<^item> \<open>Dockerx\<close>: \<open>internal/dockerx/client.go\<close>; discovery, rules, users, addresses, the exec protocol,
    network attachment, \<open>ListDevcontainers\<close>.
  \<^item> \<open>Codec\<close>: SHA-1, hex and base64, with their injectivity and alphabets.
  \<^item> \<open>Mutagen\<close>: \<open>internal/syncx/mutagen.go\<close>; the connection and the session operations, and the
    contract \<open>session_service\<close> the controller relies on, interpreted on the client.
  \<^item> \<open>Sync\<close>: \<open>internal/syncx/controller.go\<close>, proved over that contract.
  \<^item> \<open>TokenStore\<close>: the maps of the gateway, and \<open>internal/t3/token_store.go\<close>: the interface
    \<open>BrowserTokenStore\<close> as the locale \<open>browser_token_store\<close>, interpreted on the Postgres store.
  \<^item> \<open>GoPath\<close>: Go's path functions and \<open>singleJoiningSlash\<close>.
  \<^item> \<open>Pairing\<close>: pairing codes, bootstrap and authorization of \<open>internal/t3/gateway.go\<close>, over the
    contract of the store.
  \<^item> \<open>Proxy\<close>: probing, refreshing and proxying of \<open>gateway.go\<close>, over the locale \<open>docker_service\<close> (its
    interface \<open>dockerClient\<close>), interpreted on the Docker client.
  \<^item> \<open>Spawn\<close>: the spawn-stage endpoint of \<open>gateway.go\<close>, with the decoding of its JSON; the locale \<open>gateway\<close>
    joins the two contracts and is interpreted on Postgres and Docker.
  \<^item> \<open>Gateway\<close>: \<open>ServeEnv\<close> and the construction of the gateway.
  \<^item> \<open>Service\<close>: the state, the reconciliation, the views and the handlers of \<open>internal/app/service.go\<close>.
  \<^item> \<open>Server\<close>: its routes and goroutines as the step relation \<open>svc_step\<close> and the states \<open>reachable\<close>.
  \<^item> \<open>Invariants\<close>: invariants of the reachable states, and who can make the service act.
  \<^item> \<open>Cmd\<close>: \<open>main.go\<close>.
  \<^item> \<open>Lifecycle\<close>: the abstract specification of pairing and the simulation of the gateway by it.
  \<^item> \<open>Interleaving\<close>: the operations that release a lock, split into their parts, as the finer step relation
    \<open>fine_step\<close>.
  \<^item> \<open>Disclosure\<close>: what the API does not tell.
  \<^item> \<open>Schema\<close>: the types of the API, as executable JSON schemas.
  \<^item> \<open>EndToEnd\<close>: a browser from the pairing code to the backend, through the routes.
  \<^item> \<open>Loops\<close>: the loops of the goroutines and of \<open>copyWS\<close> as partial functions over what their
    \<open>select\<close> chooses, \<open>Run\<close> to its end and the exit of the process.
  \<^item> \<open>ClientRace\<close>: overlapping listings of the Mutagen client, cut where its mutex is not held.

  What is proved. At the top, \<open>effects_need_a_token\<close>: in every state reached by whole handlers and
  reactions a request makes
  the service do something outside itself only with a token that a bootstrap drew or that was
  in the table at the start (or for the one public path). Below it are the guards of the two
  handlers, the rules of pairing (a code works once, pairing again revokes, a token opens its
  environment for a day and survives a restart), the refinement of the pairing specification
  by the gateway without a store, with the safety of all its traces, and the invariants, both of the steps of whole handlers and
  of their interleaved parts. The reconciliation is specified by its result: what containers are
  stored and that they are as Docker described them, what their t3 status says and that their probe decides it,
  which Mutagen sessions are created, paused, resumed and terminated and what is reported of each, what happens
  when Docker or the daemon fails, and that no run panics while Docker's inspections are complete
  (\<open>complete_answers\<close>: the code does panic on a missing \<open>Config\<close> or a nil endpoint). The proxy is
  specified by the requests it sends, the spawn endpoint by the commands it dispatches, the
  configuration by its well-formedness, the start by the address it listens on, the end by the
  order in which things are closed. The other direction is proved too: a browser that pairs in
  time gets through to the backend, goroutines return once their context ends and refine the
  step relation of the service, JSON replies have the types the struct tags declare.

  Bounds. Nothing is bounded by fuel. Most loops of the code run over a list or a string they
  consume, so their functions are total by structural recursion or a length measure (\<open>ReplaceAll\<close>,
  \<open>trim_left\<close>). The loops that may run forever (the goroutines, \<open>copyWS\<close>) are partial functions with
  the value \<open>None\<close> then, and theorems say when they return. A request body is cut at 1 MiB as in the code. Clock readings are arbitrary integers
  and not assumed to grow.

  Where the code does not do what it means to, a theorem or lemma shows it: the Mutagen client
  used while another goroutine resets it (\<open>ClientRace.concurrent_listings_panic\<close>), revoked tokens that
  return and rows deleted too late (\<open>Interleaving\<close>), containers revived by a refresh
  (\<open>Interleaving.refresh_revives_dropped\<close>), two containers of one environment
  (\<open>Service.duplicate_environment\<close>), a hidden failure (\<open>Service.summary_hides_degraded\<close>), an
  override lost on reload (\<open>Cmd.reload_drops_override\<close>), a title cut inside a character
  (\<open>Spawn.threadTitle_cuts_rune\<close>), a lost body (\<open>Proxy.failed_refresh_loses_body\<close>), a lost slash
  (\<open>GoPath.singleJoiningSlash_drops_slash\<close>), labels that match when missing
  (\<open>Dockerx.empty_label_selects_unlabelled\<close>).

  Not modelled: logging; the exits of \<open>flag.Parse\<close> itself; a request body that fails while it is read; an error
  of \<open>crypto/rand\<close>, which does not fail in the Go version of \<open>go.mod\<close>; how long timeouts, sleeps and timers last (a call that times out is one that
  fails, a timer fires or does not, a context is done or not); the backend of a websocket once both
  sides are open, beyond the reads and writes of \<open>copyWS\<close>; \<open>TarEmptyDir\<close> (never called); the
  embedded web page, tests and packaging. Request paths with escaped slashes or dots are outside
  the model of the mux. \<open>Server\<close> runs each handler and reaction as one step, so that its \<open>reachable\<close> states are
  those of a process whose handlers and reactions do not overlap; \<open>Loops\<close> runs the rounds of the
  goroutines with steps of the others in between; \<open>Interleaving\<close> splits the operations that release a
  lock, but keeps a listing, a probe and a database statement in one piece.
\<close>

end
